theory Spec2Isabelle
  imports Main
begin

section \<open>Machine arithmetic of the C++ source\<close>

text \<open>
  The engine computes with 32-bit \<open>int\<close>/\<open>uint\<close> and 16-bit \<open>int16\<close>/\<open>uint16\<close>.
  Values are modelled as \<open>int\<close>; every conversion to an unsigned or narrower type
  that the source performs is written out with the functions below. Signed overflow
  is undefined in C++; the compiled program wraps. Sums of pixel coordinates are left
  unbounded, so there the model agrees with the program wherever the program's
  behaviour is defined. A sum that takes a value chosen by the caller, the \<open>delta\<close>
  added to the shared selection index, is written with the wrap-around of the compiled
  program (\<open>s32\<close>), and \<open>fitsInt\<close> says that a value is representable as an \<open>int\<close>.
  String and array sizes are far below \<open>2^31\<close>, so a size read as \<open>int\<close> is the size itself
  (and \<open>size() - 1\<close> of an empty string is \<open>-1\<close>).
\<close>

definition u32 :: "int \<Rightarrow> int" where
  "u32 v = v mod 4294967296"

definition s32 :: "int \<Rightarrow> int" where
  "s32 v = (v + 2147483648) mod 4294967296 - 2147483648"

definition fitsInt :: "int \<Rightarrow> bool" where
  "fitsInt v \<longleftrightarrow> - 2147483648 \<le> v \<and> v < 2147483648"

definition u16 :: "int \<Rightarrow> int" where
  "u16 v = v mod 65536"

definition s16 :: "int \<Rightarrow> int" where
  "s16 v = (v + 32768) mod 65536 - 32768"

definition u8 :: "int \<Rightarrow> int" where
  "u8 v = v mod 256"

text \<open>C++ integer division truncates towards zero; \<open>%\<close> takes the sign of the dividend.\<close>

definition cdiv :: "int \<Rightarrow> int \<Rightarrow> int" where
  "cdiv a b = sgn a * sgn b * (\<bar>a\<bar> div \<bar>b\<bar>)"

definition cmod :: "int \<Rightarrow> int \<Rightarrow> int" where
  "cmod a b = a - b * cdiv a b"

section \<open>Fatal conditions\<close>

text \<open>
  \<open>error(...)\<close> and a failed \<open>assert\<close> abort the program. A function that can reach
  one returns \<open>fatal + 'a\<close>, with \<open>Inl\<close> for the abort.
\<close>

datatype fatal = ErrorCall string | AssertFailed string | DivisionByZero

definition bindE :: "fatal + 'a \<Rightarrow> ('a \<Rightarrow> fatal + 'b) \<Rightarrow> fatal + 'b" where
  "bindE m f = (case m of Inl e \<Rightarrow> Inl e | Inr v \<Rightarrow> f v)"

section \<open>Strings\<close>

text \<open>
  \<open>Common::String\<close> is a byte string. \<open>operator[]\<close> yields a plain \<open>char\<close>, read here
  as a signed byte (as on the x86 targets); \<open>charVal\<close> is its value as an \<open>int\<close>, and
  \<open>chr32\<close> its conversion to the \<open>uint32\<close> character code that the font interface
  takes. Both are the identity on ASCII.
\<close>

definition charVal :: "char \<Rightarrow> int" where
  "charVal c = (let n = int (of_char c) in if n \<ge> 128 then n - 256 else n)"

definition chr32 :: "char \<Rightarrow> nat" where
  "chr32 c = nat (u32 (charVal c))"

text \<open>\<open>String::operator[](int)\<close> asserts that the index is inside the string.\<close>

definition strAt :: "string \<Rightarrow> int \<Rightarrow> fatal + char" where
  "strAt s i = (if 0 \<le> i \<and> i < int (length s) then Inr (s ! nat i)
                else Inl (AssertFailed ''idx >= 0 && idx < (int)_size''))"

text \<open>
  \<open>String::substr(pos, len)\<close> takes \<open>size_t\<close> arguments: a negative \<open>int\<close> becomes a
  huge value, so a negative \<open>pos\<close> is past the end and a negative \<open>len\<close> means the rest.
\<close>

definition substr :: "string \<Rightarrow> int \<Rightarrow> int \<Rightarrow> string" where
  "substr s pos len =
     (if pos < 0 \<or> int (length s) \<le> pos then []
      else if len < 0 then drop (nat pos) s
      else take (nat len) (drop (nat pos) s))"

text \<open>\<open>String::find(char)\<close> and \<open>String::find(const String &)\<close>; \<open>None\<close> is \<open>npos\<close>.\<close>

fun findChar :: "char \<Rightarrow> string \<Rightarrow> nat option" where
  "findChar c [] = None"
| "findChar c (d # ds) =
     (if d = c then Some 0 else map_option Suc (findChar c ds))"

fun findStr :: "string \<Rightarrow> string \<Rightarrow> nat option" where
  "findStr t [] = (if t = [] then Some 0 else None)"
| "findStr t (c # cs) =
     (if take (length t) (c # cs) = t then Some 0 else map_option Suc (findStr t cs))"

section \<open>Collaborators of the dialog code\<close>

text \<open>
  The font classes (\<open>dgds/font.h\<close>, \<open>graphics/font.h\<close>) are not part of the inspected
  sources. A font is therefore a parameter: a record of the member functions that the
  dialog code calls. \<open>wordWrapText\<close> returns the wrapped lines together with the
  maximum line width (its \<open>int\<close> result).
\<close>

record DgdsFont =
  getMaxCharWidth :: int
  getFontHeight :: int
  getCharWidth :: "nat \<Rightarrow> int"
  getStringWidth :: "string \<Rightarrow> int"
  wordWrapText :: "string \<Rightarrow> int \<Rightarrow> string list \<times> int"

datatype FontType = kGameDlgFont | k8x8Font | k4x5Font

datatype DgdsGameId = GID_DRAGON | GID_HOC | GID_WILLY | GID_SQ5DEMO | GID_COMINGATTRACTIONS

text \<open>
  What the dialog code reads from \<open>g_engine\<close>: the font manager, the game id, the last
  mouse position and the random source. \<open>getRandomNumber max\<close> is modelled from its
  contract, a value in \<open>0..max\<close> drawn from the source's current seed.

  \<open>strSpanAt\<close> is the memory a \<open>DialogAction\<close> pointer reads when it does not point into
  the action array of the dialog that holds it: the \<open>(strStart, strEnd)\<close> found at that
  position. The dialog code never checks where the pointer points, so what it reads
  there is a parameter.
\<close>

record DgdsEnv =
  getFont :: "FontType \<Rightarrow> DgdsFont"
  getGameId :: DgdsGameId
  getLastMouse :: "int \<times> int"
  randSeed :: nat
  strSpanAt :: "nat \<Rightarrow> nat \<times> nat"

definition getRandomNumber :: "DgdsEnv \<Rightarrow> nat \<Rightarrow> nat" where
  "getRandomNumber env mx = randSeed env mod (mx + 1)"

section \<open>Dialog data model\<close>

record DgdsRect =
  rectX :: int
  rectY :: int
  rectWidth :: int
  rectHeight :: int

definition mkRect :: "int \<Rightarrow> int \<Rightarrow> int \<Rightarrow> int \<Rightarrow> DgdsRect" where
  "mkRect px py w h = \<lparr>rectX = px, rectY = py, rectWidth = w, rectHeight = h\<rparr>"

datatype DialogFlags =
    kDlgFlagFlatBg | kDlgFlagLeftJust | kDlgFlagHiFinished
  | kDlgFlagRedrawSelectedActionChanged | kDlgFlagHi10 | kDlgFlagHi20 | kDlgFlagHi40
  | kDlgFlagVisible | kDlgFlagOther nat

datatype DialogFrameType =
    kDlgFramePlain | kDlgFrameBorder | kDlgFrameThought | kDlgFrameRounded
  | kDlgFrameUnknown int

datatype DialogDrawStage =
    kDlgDrawStageBackground | kDlgDrawFindSelectionPointXY
  | kDlgDrawFindSelectionTxtOffset | kDlgDrawStageForeground

text \<open>
  An action is a span of the display string plus an opaque list of scene operations.
  The span offsets are unsigned 16-bit in the game data; they are promoted to \<open>int\<close>
  wherever the code compares them.
\<close>

record DialogAction =
  strStart :: nat
  strEnd :: nat
  sceneOpList :: "nat list"

text \<open>
  \<open>selectedAction\<close> is a \<open>DialogAction\<close> pointer, \<open>None\<close> for \<open>nullptr\<close>. It is modelled by
  the position it points at, counted in actions from the start of the owning dialog's
  action array: a position below the array's size is that action of the dialog, any
  other position is memory outside the array.
\<close>

record DialogState =
  hideTime :: nat
  loc :: DgdsRect
  lastMouseX :: int
  lastMouseY :: int
  charWidth :: int
  charHeight :: int
  strMouseLoc :: int
  selectedAction :: "nat option"

definition newDialogState :: DialogState where
  "newDialogState = \<lparr>hideTime = 0, loc = mkRect 0 0 0 0, lastMouseX = 0, lastMouseY = 0,
     charWidth = 0, charHeight = 0, strMouseLoc = 0, selectedAction = None\<rparr>"

record Dialog =
  num :: int
  rect :: DgdsRect
  bgColor :: int
  fontColor :: int
  selectionBgCol :: int
  selectonFontCol :: int
  fontSize :: int
  flags :: "DialogFlags set"
  frameType :: DialogFrameType
  str :: string
  action :: "DialogAction list"
  state :: "DialogState option"

definition hasFlag :: "Dialog \<Rightarrow> DialogFlags \<Rightarrow> bool" where
  "hasFlag d flg = (flg \<in> flags d)"

definition clearFlag :: "Dialog \<Rightarrow> DialogFlags \<Rightarrow> Dialog" where
  "clearFlag d flg = d\<lparr>flags := flags d - {flg}\<rparr>"

definition clear :: "Dialog \<Rightarrow> Dialog" where
  "clear d =
     (let d = clearFlag d kDlgFlagHiFinished;
          d = clearFlag d kDlgFlagRedrawSelectedActionChanged;
          d = clearFlag d kDlgFlagHi10;
          d = clearFlag d kDlgFlagHi20;
          d = clearFlag d kDlgFlagHi40;
          d = clearFlag d kDlgFlagVisible
      in d\<lparr>state := None\<rparr>)"

definition getDlgTextFont :: "DgdsEnv \<Rightarrow> Dialog \<Rightarrow> DgdsFont" where
  "getDlgTextFont env d =
     getFont env (if fontSize d = 1 then k8x8Font
                  else if fontSize d = 3 then k4x5Font
                  else kGameDlgFont)"

section \<open>Text layout: offset to position\<close>

text \<open>
  The line loop of \<open>drawFindSelectionXY\<close>: consume whole lines (\<open>size + 1\<close> characters
  each) while the running total stays at or below the wanted offset, moving \<open>y\<close> down
  one line height per consumed line. Returns the final \<open>(totalchars, y)\<close>.
\<close>

fun findLineXY :: "string list \<Rightarrow> int \<Rightarrow> int \<Rightarrow> int \<Rightarrow> int \<Rightarrow> int \<times> int" where
  "findLineXY [] mloc totalchars py h = (totalchars, py)"
| "findLineXY (l # ls) mloc totalchars py h =
     (let nexttotalchars = totalchars + int (length l) + 1 in
      if nexttotalchars > mloc then (totalchars, py)
      else findLineXY ls mloc nexttotalchars (py + h) h)"

text \<open>
  The body of \<open>drawFindSelectionXY\<close> for an existing state. The routine only ever
  stores into five fields of \<open>*_state\<close>; \<open>selectionXY\<close> computes their final values
  \<open>(_lastMouseX, _lastMouseY, _charWidth, _charHeight, _strMouseLoc)\<close>:
  \<^item> offset 0: the top-left corner of the text area, one pixel down, and the font's
    maximum glyph size;
  \<^item> otherwise the offset is clamped to \<open>size - 1\<close>, its line and x position are
    found, and if the glyph sticks out of the text area the result is either all
    zero (a character below \<open>'!'\<close>) or the start of the next line.
  Note that the source passes the offset itself, not the character, to \<open>getCharWidth\<close>.
\<close>

definition selectionXY ::
  "DgdsFont \<Rightarrow> Dialog \<Rightarrow> DialogState \<Rightarrow> fatal + (int \<times> int \<times> int \<times> int \<times> int)" where
  "selectionXY font d st =
     (let px = rectX (loc st);
          py = rectY (loc st) + 1;
          maxw = u16 (getMaxCharWidth font);
          ch = u16 (getFontHeight font)
      in if strMouseLoc st \<noteq> 0 then
           (let (lines, maxWidth) = wordWrapText font (str d) (rectWidth (loc st));
                (px, py) =
                  (if hasFlag d kDlgFlagLeftJust then
                     (px + cdiv (rectWidth (loc st) - maxWidth - 1) 2,
                      s32 (py + u32 (rectHeight (loc st) - int (length lines) * ch - 1) div 2))
                   else (px, py));
                mloc = (if strMouseLoc st \<ge> int (length (str d))
                        then int (length (str d)) - 1 else strMouseLoc st);
                (totalchars, py) = findLineXY lines mloc 0 py ch;
                px = px + getStringWidth font (substr (str d) totalchars (mloc - totalchars));
                cw = getCharWidth font (nat (u32 mloc))
            in if rectX (loc st) + rectWidth (loc st) < px + cw then
                 bindE (strAt (str d) mloc) (\<lambda>c.
                   if charVal c < 33 then Inr (0, 0, 0, 0, mloc)
                   else Inr (rectX (loc st), py + ch, u16 cw, ch, mloc))
               else Inr (px, py, u16 cw, ch, mloc))
         else Inr (px, py, maxw, ch, strMouseLoc st))"

definition drawFindSelectionXY :: "DgdsEnv \<Rightarrow> Dialog \<Rightarrow> fatal + Dialog" where
  "drawFindSelectionXY env d =
     (case state d of
        None \<Rightarrow> Inr d
      | Some st \<Rightarrow>
          bindE (selectionXY (getDlgTextFont env d) d st) (\<lambda>(px, py, cw, ch, mloc).
            Inr (d\<lparr>state := Some (st\<lparr>lastMouseX := px, lastMouseY := py, charWidth := cw,
                                      charHeight := ch, strMouseLoc := mloc\<rparr>)\<rparr>)))"

section \<open>Text layout: position to offset\<close>

text \<open>
  \<open>_wrappedLineOffsets\<close>: the start offset of every wrapped line, each line consuming
  \<open>size + 1\<close> characters, followed by the size of the whole string.
\<close>

fun lineStarts :: "int \<Rightarrow> string list \<Rightarrow> int list" where
  "lineStarts off [] = []"
| "lineStarts off (l # ls) = off # lineStarts (off + int (length l) + 1) ls"

definition wrappedLineOffsets :: "string \<Rightarrow> string list \<Rightarrow> int list" where
  "wrappedLineOffsets s lines = lineStarts 0 lines @ [int (length s)]"

text \<open>
  First loop of \<open>drawFindSelectionTxtOffset\<close>: step over lines while the bottom edge of
  the line is above the mouse. Returns \<open>(lineno, totalchars, dlgy)\<close>.
\<close>

function skipLines ::
  "int list \<Rightarrow> nat \<Rightarrow> int \<Rightarrow> int \<Rightarrow> nat \<Rightarrow> int \<Rightarrow> int \<Rightarrow> nat \<times> int \<times> int" where
  "skipLines lineOffs n lineHeight mouseY lineno totalchars dlgy =
     (if lineno < n \<and> dlgy + lineHeight < mouseY
      then skipLines lineOffs n lineHeight mouseY (Suc lineno)
             (lineOffs ! (lineno + 1)) (dlgy + lineHeight)
      else (lineno, totalchars, dlgy))"
  by pat_completeness auto
termination
  by (relation "measure (\<lambda>(lineOffs, n, lineHeight, mouseY, lineno, totalchars, dlgy). n - lineno)")
     auto

declare skipLines.simps [simp del]

text \<open>
  The character loop inside one line: the first \<open>charno\<close> whose right edge
  \<open>dlgx + charwidth\<close> reaches the mouse x, if any.
\<close>

fun scanChars :: "DgdsFont \<Rightarrow> int \<Rightarrow> string \<Rightarrow> nat \<Rightarrow> int \<Rightarrow> nat option" where
  "scanChars font mouseX [] charno dlgx = None"
| "scanChars font mouseX (c # cs) charno dlgx =
     (let charwidth = getCharWidth font (chr32 c) in
      if mouseX \<le> dlgx + charwidth then Some charno
      else scanChars font mouseX cs (Suc charno) (dlgx + charwidth))"

text \<open>
  The \<open>while (lineno < lines.size())\<close> loop over the located line and every line after
  it; \<open>dlgx\<close> restarts at \<open>startx\<close> on each line.
\<close>

fun scanLines :: "DgdsFont \<Rightarrow> int \<Rightarrow> int \<Rightarrow> string list \<Rightarrow> int \<Rightarrow> int option" where
  "scanLines font mouseX startx [] totalchars = None"
| "scanLines font mouseX startx (line # rest) totalchars =
     (case scanChars font mouseX line 0 startx of
        Some charno \<Rightarrow> Some (totalchars + int charno)
      | None \<Rightarrow> scanLines font mouseX startx rest (totalchars + int (length line) + 1))"

text \<open>
  The body of \<open>drawFindSelectionTxtOffset\<close> for an existing state: the value it stores
  in \<open>_strMouseLoc\<close>, the only field it writes.
\<close>

definition selectionTxtOffset :: "DgdsFont \<Rightarrow> Dialog \<Rightarrow> DialogState \<Rightarrow> int" where
  "selectionTxtOffset font d st =
     (let mouseX = lastMouseX st;
          mouseY = lastMouseY st;
          lineHeight = getFontHeight font;
          dlgx = rectX (loc st);
          dlgy = rectY (loc st);
          (lines, maxWidth) = wordWrapText font (str d) (rectWidth (loc st));
          (dlgx, dlgy) =
            (if hasFlag d kDlgFlagLeftJust then
               (let textHeight = s32 (int (length lines) * lineHeight) in
                (dlgx + cdiv (rectWidth (loc st) - maxWidth - 1) 2,
                 dlgy + cdiv (rectHeight (loc st) - textHeight - 1) 2))
             else (dlgx, dlgy));
          lineOffs = wrappedLineOffsets (str d) lines;
          (lineno, totalchars, dlgy) =
            skipLines lineOffs (length lines) lineHeight mouseY 0 0 dlgy
      in case scanLines font mouseX dlgx (drop lineno lines) totalchars of
           Some off \<Rightarrow> off
         | None \<Rightarrow> int (length (str d)))"

definition drawFindSelectionTxtOffset :: "DgdsEnv \<Rightarrow> Dialog \<Rightarrow> Dialog" where
  "drawFindSelectionTxtOffset env d =
     (case state d of
        None \<Rightarrow> d
      | Some st \<Rightarrow>
          d\<lparr>state := Some (st\<lparr>strMouseLoc :=
                               selectionTxtOffset (getDlgTextFont env d) d st\<rparr>)\<rparr>)"

section \<open>Drawing\<close>

text \<open>
  Pixels are produced by collaborators (\<open>ManagedSurface\<close>, \<open>Graphics\<close> primitives,
  \<open>RequestData\<close>, the font). The model records each such call, with its arguments, in
  the order made; a surface is the list of calls drawn on it so far.
\<close>

datatype TextAlign = kTextAlignLeft | kTextAlignCenter

datatype DrawOp =
    FillRect int int int int int
  | FillBackground int int int int int
  | DrawCorners int int int int int
  | DrawHeader int int int int string int bool
  | DrawEllipse int int int int int bool
  | DrawRoundRect int int int int int int bool
  | DrawString string int int int int TextAlign

type_synonym Surface = "DrawOp list"

definition filledCircle :: "int \<Rightarrow> int \<Rightarrow> int \<Rightarrow> int \<Rightarrow> int \<Rightarrow> int \<Rightarrow> DrawOp list" where
  "filledCircle px py xr yr fgcol bgcol =
     [DrawEllipse (px - xr) (py - yr) (px + xr) (py + yr) bgcol True,
      DrawEllipse (px - xr) (py - yr) (px + xr) (py + yr) fgcol False]"

text \<open>The per-line loop of \<open>drawForeground\<close>; \<open>i\<close> is the line index.\<close>

definition drawLine ::
  "Dialog \<Rightarrow> string list \<Rightarrow> int list \<Rightarrow> int \<Rightarrow> int \<Rightarrow> int \<Rightarrow> int \<Rightarrow> int \<Rightarrow> TextAlign
     \<Rightarrow> int \<Rightarrow> int \<Rightarrow> nat \<Rightarrow> DrawOp list" where
  "drawLine d lines lineOffs px ystart h xwidth fontcol align highlightStart highlightEnd i =
     DrawString (lines ! i) px (s32 (ystart + int i * h)) xwidth fontcol align #
     (if highlightStart < lineOffs ! (i + 1) \<and> highlightEnd > lineOffs ! i
      then [DrawString (lines ! i) px (s32 (ystart + int i * h)) xwidth
              (selectonFontCol d) align]
      else [])"

text \<open>
  \<open>_state->_selectedAction->strStart\<close> and \<open>->strEnd\<close>: the pointer is dereferenced as it
  is. Position \<open>a\<close> inside the dialog's own array is that action; any other position
  reads what the memory holds there.
\<close>

definition selectedSpan :: "DgdsEnv \<Rightarrow> Dialog \<Rightarrow> nat \<Rightarrow> nat \<times> nat" where
  "selectedSpan env d a =
     (if a < length (action d) then (strStart (action d ! a), strEnd (action d ! a))
      else strSpanAt env a)"

text \<open>\<open>drawForeground\<close> reads the dialog and draws; it returns the surface drawn on.\<close>

definition drawForeground ::
  "DgdsEnv \<Rightarrow> Surface \<Rightarrow> int \<Rightarrow> string \<Rightarrow> Dialog \<Rightarrow> fatal + Surface" where
  "drawForeground env dst fontcol txt d =
     (case state d of
        None \<Rightarrow> Inl (AssertFailed ''_state'')
      | Some st \<Rightarrow>
         (let font = getDlgTextFont env d;
              h = getFontHeight font;
              (lines, maxWidth) = wordWrapText font txt (rectWidth (loc st));
              ystart = rectY (loc st)
                       + cdiv (rectHeight (loc st) - int (length lines) * h) 2;
              px = rectX (loc st);
              lineOffs = wrappedLineOffsets txt lines;
              (px, align, xwidth) =
                (if hasFlag d kDlgFlagLeftJust then
                   (let maxlen = fold (\<lambda>line m. max m (getStringWidth font line)) lines 0
                    in (px + cdiv (rectWidth (loc st) - maxlen) 2, kTextAlignLeft, maxlen))
                 else (px, kTextAlignCenter, rectWidth (loc st)));
              body = (\<lambda>hs he.
                 Inr (dst @ concat (map (drawLine d lines lineOffs px ystart h xwidth
                                           fontcol align hs he) [0..<length lines])))
          in case selectedAction st of
               None \<Rightarrow> body 2147483647 2147483647
             | Some a \<Rightarrow>
                 (let txtoffset = (case findStr txt (str d) of
                                     Some k \<Rightarrow> int k | None \<Rightarrow> -1)
                  in body (int (fst (selectedSpan env d a)) - txtoffset)
                          (int (snd (selectedSpan env d a)) - txtoffset))))"

subsection \<open>Frame style 1: box with simple frame\<close>

definition drawType1 ::
  "DgdsEnv \<Rightarrow> Surface \<Rightarrow> DialogDrawStage \<Rightarrow> Dialog \<Rightarrow> fatal + (Dialog \<times> Surface)" where
  "drawType1 env dst stage d =
     (case state d of
        None \<Rightarrow> Inr (d, dst)
      | Some st \<Rightarrow>
         (let px = rectX (rect d); py = rectY (rect d);
              w = rectWidth (rect d); h = rectHeight (rect d)
          in case stage of
               kDlgDrawStageBackground \<Rightarrow>
                 Inr (d, dst @ [FillRect px py (px + w) (py + h) (bgColor d),
                                FillRect (px + 1) (py + 1) (px + w - 1) (py + h - 1)
                                  (fontColor d)])
             | kDlgDrawFindSelectionPointXY \<Rightarrow>
                 bindE (drawFindSelectionXY env d) (\<lambda>d'. Inr (d', dst))
             | kDlgDrawFindSelectionTxtOffset \<Rightarrow>
                 Inr (drawFindSelectionTxtOffset env d, dst)
             | kDlgDrawStageForeground \<Rightarrow>
                 (let d' = d\<lparr>state := Some (st\<lparr>loc := mkRect (px + 3) (py + 3)
                                                         (w - 6) (h - 6)\<rparr>)\<rparr>
                  in bindE (drawForeground env dst (u16 (bgColor d)) (str d) d')
                       (\<lambda>dst'. Inr (d', dst')))))"

subsection \<open>Frame style 2: fancy frame with optional title\<close>

definition drawType2BackgroundDragon ::
  "Surface \<Rightarrow> string \<Rightarrow> Dialog \<Rightarrow> DialogState \<Rightarrow> Dialog \<times> Surface" where
  "drawType2BackgroundDragon dst title d st =
     (let r = rect d;
          l = mkRect (rectX r + 6) (rectY r + 6) (rectWidth r - 12) (rectHeight r - 12);
          ops = [FillBackground (rectX r) (rectY r) (rectWidth r) (rectHeight r) 0,
                 DrawCorners 11 (rectX r) (rectY r) (rectWidth r) (rectHeight r)];
          (l, ops) =
            (if title \<noteq> [] then
               (l\<lparr>rectY := rectY l + 10, rectHeight := rectHeight l - 10\<rparr>,
                ops @ [DrawHeader (rectX r) (rectY r) (rectWidth r) 4 title 0 True])
             else (l, ops));
          ops = ops @
            (if hasFlag d kDlgFlagFlatBg
             then [FillRect (rectX l) (rectY l) (rectX l + rectWidth l)
                     (rectY l + rectHeight l) 0]
             else [FillBackground (rectX l) (rectY l) (rectWidth l) (rectHeight l) 6]);
          ops = ops @ [DrawCorners 19 (rectX l - 2) (rectY l - 2)
                         (rectWidth l + 4) (rectHeight l + 4)];
          l = l\<lparr>rectX := rectX l + 8, rectWidth := rectWidth l - 16\<rparr>
      in (d\<lparr>state := Some (st\<lparr>loc := l\<rparr>)\<rparr>, dst @ ops))"

definition drawType2BackgroundChina ::
  "Surface \<Rightarrow> string \<Rightarrow> Dialog \<Rightarrow> DialogState \<Rightarrow> Dialog \<times> Surface" where
  "drawType2BackgroundChina dst title d st =
     (let r = rect d;
          l = mkRect (rectX r + 12) (rectY r + 10) (rectWidth r - 24) (rectHeight r - 20)
      in if title = [] then
           (d\<lparr>state := Some (st\<lparr>loc := l\<rparr>)\<rparr>,
            dst @ [FillBackground (rectX r) (rectY r) (rectWidth r) (rectHeight r) 0,
                   DrawCorners 1 (rectX r) (rectY r) (rectWidth r) (rectHeight r)])
         else
           (d\<lparr>state := Some (st\<lparr>loc := l\<lparr>rectY := rectY l + 11,
                                            rectHeight := rectHeight l - 11\<rparr>\<rparr>)\<rparr>,
            dst @ [FillRect (rectX r) (rectY r) (rectX r + rectWidth r)
                     (rectY r + rectHeight r) 0,
                   DrawCorners 11 (rectX r) (rectY r) (rectWidth r) (rectHeight r),
                   DrawHeader (rectX r) (rectY r) (rectWidth r) 2 title (fontColor d) False]))"

text \<open>The title is everything before the first colon; one CR after the colon is dropped.\<close>

definition splitTitle :: "string \<Rightarrow> string \<times> string" where
  "splitTitle s =
     (case findChar CHR '':'' s of
        Some colonpos \<Rightarrow>
          (let title = substr s 0 (int colonpos);
               txt = substr s (int colonpos + 1) (-1)
           in (title, if txt \<noteq> [] \<and> hd txt = CHR 0x0D then substr txt 1 (-1) else txt))
      | None \<Rightarrow> ([], s))"

definition drawType2 ::
  "DgdsEnv \<Rightarrow> Surface \<Rightarrow> DialogDrawStage \<Rightarrow> Dialog \<Rightarrow> fatal + (Dialog \<times> Surface)" where
  "drawType2 env dst stage d =
     (case state d of
        None \<Rightarrow> Inr (d, dst)
      | Some st \<Rightarrow>
         (let (title, txt) = splitTitle (str d)
          in case stage of
               kDlgDrawStageBackground \<Rightarrow>
                 Inr (if getGameId env = GID_DRAGON
                      then drawType2BackgroundDragon dst title d st
                      else drawType2BackgroundChina dst title d st)
             | kDlgDrawFindSelectionPointXY \<Rightarrow>
                 bindE (drawFindSelectionXY env d) (\<lambda>d'. Inr (d', dst))
             | kDlgDrawFindSelectionTxtOffset \<Rightarrow>
                 Inr (drawFindSelectionTxtOffset env d, dst)
             | kDlgDrawStageForeground \<Rightarrow>
                 bindE (drawForeground env dst (u16 (fontColor d)) txt d)
                   (\<lambda>dst'. Inr (d, dst'))))"

subsection \<open>Frame style 3: thought bubble made of circles\<close>

text \<open>
  The radius search: \<open>testyradius\<close> runs from 40 down to 1 and keeps the y-radius whose
  ring leaves the least slack, stopping early below 20 once any radius fitted. The
  accumulator is \<open>(xradius, yradius)\<close>.
\<close>

fun radiusSearch :: "int \<Rightarrow> int \<Rightarrow> nat \<Rightarrow> int \<times> int \<Rightarrow> int \<times> int" where
  "radiusSearch usablex usabley 0 acc = acc"
| "radiusSearch usablex usabley (Suc k) (xradius, yradius) =
     (let testyradius = int (Suc k);
          testxradius = s16 (cdiv (testyradius * 5) 4);
          (xradius, yradius) =
            (if cdiv usablex testxradius > 2 \<and> cdiv usabley testyradius > 2 then
               (let testxradius = s16 (cmod usablex testxradius + cmod usabley testyradius)
                in if testxradius < xradius then (u16 testxradius, testyradius)
                   else (xradius, yradius))
             else (xradius, yradius))
      in if testyradius < 20 \<and> xradius \<noteq> 9999 then (xradius, yradius)
         else radiusSearch usablex usabley k (xradius, yradius))"

text \<open>
  One side of the ring: \<open>for (int i = 1; i < count; i++)\<close> draws a circle and moves the
  16-bit centre by \<open>(dx, dy)\<close>. Returns the drawing calls and the final centre.
\<close>

fun circleRun ::
  "nat \<Rightarrow> int \<Rightarrow> int \<Rightarrow> int \<Rightarrow> int \<Rightarrow> int \<Rightarrow> int \<Rightarrow> int \<Rightarrow> int \<Rightarrow> DrawOp list \<times> int \<times> int" where
  "circleRun 0 px py dx dy xr yr fgcol bgcol = ([], px, py)"
| "circleRun (Suc k) px py dx dy xr yr fgcol bgcol =
     (let (ops, px', py') = circleRun k (u16 (px + dx)) (u16 (py + dy)) dx dy xr yr fgcol bgcol
      in (filledCircle px py xr yr fgcol bgcol @ ops, px', py'))"

definition drawType3Background :: "Surface \<Rightarrow> Dialog \<Rightarrow> DialogState \<Rightarrow> Dialog \<times> Surface" where
  "drawType3Background dst d st =
     (let usabley = s16 (rectHeight (rect d) - 31);
          usablex = s16 (rectWidth (rect d) - 30);
          (xradius0, yradius) = radiusSearch usablex usabley 40 (9999, 40);
          xradius = u16 (cdiv (yradius * 5) 4);
          circlesAcross = s16 (cdiv usablex xradius - 1);
          circlesDown = s16 (cdiv usabley yradius - 1);
          px = u16 (rectX (rect d) + xradius);
          py = u16 (rectY (rect d) + yradius);
          isbig = (rectX (rect d) + cdiv (rectWidth (rect d)) 2 > 160);
          px = (if isbig then u16 (px + 30) else px);
          (fgcol, bgcol) = (if hasFlag d kDlgFlagFlatBg
                            then (u8 (fontColor d), u8 (bgColor d)) else (0, 15));
          (ops1, px, py) = circleRun (nat (circlesDown - 1)) px py 0 yradius
                             xradius yradius fgcol bgcol;
          (ops2, px, py) = circleRun (nat (circlesAcross - 1)) px py xradius 0
                             xradius yradius fgcol bgcol;
          (ops3, px, py) = circleRun (nat (circlesDown - 1)) px py 0 (- yradius)
                             xradius yradius fgcol bgcol;
          (ops4, px, py) = circleRun (nat (circlesAcross - 1)) px py (- xradius) 0
                             xradius yradius fgcol bgcol;
          (ops5, smallCircleX) =
            (if isbig then
               (filledCircle ((px - xradius) - 5) (py + circlesDown * yradius + 5) 10 8
                  fgcol bgcol,
                u16 ((px - xradius) - 20))
             else
               (filledCircle (px + circlesAcross * xradius + 5)
                  (py + circlesDown * yradius + 5) 10 8 fgcol bgcol,
                u16 (px + circlesAcross * xradius + 20)));
          ops6 = filledCircle smallCircleX (py + circlesDown * yradius + 25) 5 4 fgcol bgcol;
          yoff = s16 (cdiv (yradius * 27) 32);
          xoff = s16 (cdiv (xradius * 27) 32);
          ops7 = [FillRect px (py - yoff) (px + (circlesAcross - 1) * xradius + 1)
                    (py + (circlesDown - 1) * yradius + yoff + 1) bgcol,
                  FillRect (px - xoff) py (px + (circlesAcross - 1) * xradius + xoff + 1)
                    (py + (circlesDown - 1) * yradius + 1) bgcol];
          textRectX = s16 (px - cdiv xradius 2);
          textRectY = s16 (py - cdiv yradius 2)
      in (d\<lparr>state := Some (st\<lparr>loc := mkRect textRectX textRectY
                                         (circlesAcross * xradius) (circlesDown * yradius)\<rparr>)\<rparr>,
          dst @ ops1 @ ops2 @ ops3 @ ops4 @ ops5 @ ops6 @ ops7))"

definition drawType3 ::
  "DgdsEnv \<Rightarrow> Surface \<Rightarrow> DialogDrawStage \<Rightarrow> Dialog \<Rightarrow> fatal + (Dialog \<times> Surface)" where
  "drawType3 env dst stage d =
     (case state d of
        None \<Rightarrow> Inr (d, dst)
      | Some st \<Rightarrow>
         (case stage of
            kDlgDrawStageBackground \<Rightarrow> Inr (drawType3Background dst d st)
          | kDlgDrawFindSelectionPointXY \<Rightarrow>
              bindE (drawFindSelectionXY env d) (\<lambda>d'. Inr (d', dst))
          | kDlgDrawFindSelectionTxtOffset \<Rightarrow>
              Inr (drawFindSelectionTxtOffset env d, dst)
          | kDlgDrawStageForeground \<Rightarrow>
              bindE (drawForeground env dst (u16 (fontColor d)) (str d) d)
                (\<lambda>dst'. Inr (d, dst'))))"

subsection \<open>Frame style 4: rounded rectangle\<close>

definition drawType4 ::
  "DgdsEnv \<Rightarrow> Surface \<Rightarrow> DialogDrawStage \<Rightarrow> Dialog \<Rightarrow> fatal + (Dialog \<times> Surface)" where
  "drawType4 env dst stage d =
     (case state d of
        None \<Rightarrow> Inr (d, dst)
      | Some st \<Rightarrow>
         (let px = rectX (rect d); py = rectY (rect d);
              w = rectWidth (rect d); h = rectHeight (rect d);
              midy = cdiv (h - 1) 2;
              (fillcolor, fillbgcolor) =
                (if \<not> hasFlag d kDlgFlagFlatBg then (0, 15)
                 else (u8 (fontColor d), u8 (bgColor d)))
          in case stage of
               kDlgDrawStageBackground \<Rightarrow>
                 Inr (d, dst @ [DrawRoundRect px py (px + w) (py + h) midy fillbgcolor True,
                                DrawRoundRect px py (px + w) (py + h) midy fillcolor False])
             | kDlgDrawFindSelectionPointXY \<Rightarrow>
                 bindE (drawFindSelectionXY env d) (\<lambda>d'. Inr (d', dst))
             | kDlgDrawFindSelectionTxtOffset \<Rightarrow>
                 Inr (drawFindSelectionTxtOffset env d, dst)
             | kDlgDrawStageForeground \<Rightarrow>
                 (let d' = d\<lparr>state := Some (st\<lparr>loc := mkRect (px + midy) (py + 1)
                                                         (w - midy) (h - 1)\<rparr>)\<rparr>
                  in bindE (drawForeground env dst fillcolor (str d) d')
                       (\<lambda>dst'. Inr (d', dst')))))"

subsection \<open>The dispatcher\<close>

text \<open>
  \<open>Dialog::draw\<close> first makes sure a \<open>DialogState\<close> exists (a fresh, zero-initialised
  one otherwise), then dispatches on the frame type; an unknown type is fatal.
\<close>

definition draw ::
  "DgdsEnv \<Rightarrow> Surface \<Rightarrow> DialogDrawStage \<Rightarrow> Dialog \<Rightarrow> fatal + (Dialog \<times> Surface)" where
  "draw env dst stage d0 =
     (let d = (if state d0 = None then d0\<lparr>state := Some newDialogState\<rparr> else d0)
      in case frameType d of
           kDlgFramePlain \<Rightarrow> drawType1 env dst stage d
         | kDlgFrameBorder \<Rightarrow> drawType2 env dst stage d
         | kDlgFrameThought \<Rightarrow> drawType3 env dst stage d
         | kDlgFrameRounded \<Rightarrow> drawType4 env dst stage d
         | kDlgFrameUnknown t \<Rightarrow> Inl (ErrorCall ''unexpected frame type for dialog''))"

section \<open>Action selection\<close>

text \<open>
  The two static members shared by all dialogs, and the pointer position last set
  through \<open>g_system->warpMouse\<close>. A dialog's identity (\<open>this\<close>) is its address, a number.
\<close>

record DialogGlobals =
  lastSelectedDialogItemNum :: int
  lastDialogSelectionChangedFor :: "nat option"
  mouseWarps :: "(int \<times> int) list"

text \<open>
  \<open>while (_lastSelectedDialogItemNum < 0) _lastSelectedDialogItemNum += _action.size()\<close>.
  The loop is entered only for a non-empty action list; the test \<open>0 < n\<close> makes that
  explicit. Array sizes are far below \<open>2^31\<close>, so the unsigned addition does not wrap.
\<close>

function wrapNegative :: "nat \<Rightarrow> int \<Rightarrow> int" where
  "wrapNegative n v = (if v < 0 \<and> 0 < n then wrapNegative n (v + int n) else v)"
  by pat_completeness auto
termination
  by (relation "measure (\<lambda>(n, v). nat (- v))") auto

declare wrapNegative.simps [simp del]

text \<open>
  \<open>_lastSelectedDialogItemNum % _action.size()\<close>: an unsigned remainder, taken of a
  value that the loop above has made non-negative. A zero divisor traps.
\<close>

definition umod :: "int \<Rightarrow> nat \<Rightarrow> fatal + int" where
  "umod v n = (if n = 0 then Inl DivisionByZero else Inr (v mod int n))"

text \<open>
  \<open>updateSelectedAction\<close>, in the three steps of its body. First the ownership
  marker: a call made while no dialog owns it claims it and keeps the index; any other
  call resets the index to 0.
\<close>

definition claimSelection :: "nat \<Rightarrow> DialogGlobals \<Rightarrow> DialogGlobals" where
  "claimSelection self g =
     (if lastDialogSelectionChangedFor g = None
      then g\<lparr>lastDialogSelectionChangedFor := Some self\<rparr>
      else g\<lparr>lastSelectedDialogItemNum := 0\<rparr>)"

text \<open>
  Second, with a \<open>DialogState\<close>: take the index of the selected action if it is one
  of this dialog's actions, add \<open>delta\<close>, wrap (only for a non-empty action list), and
  record this dialog as the owner. The index and \<open>delta\<close> are 32-bit \<open>int\<close>s, and
  \<open>_lastSelectedDialogItemNum += delta\<close> is a 32-bit addition.
\<close>

definition advanceIndex ::
  "nat \<Rightarrow> int \<Rightarrow> Dialog \<Rightarrow> DialogState \<Rightarrow> DialogGlobals \<Rightarrow> fatal + DialogGlobals" where
  "advanceIndex self delta d st g0 =
     (let n = length (action d);
          g = (case selectedAction st of
                 Some i \<Rightarrow> if i < n then g0\<lparr>lastSelectedDialogItemNum := int i\<rparr> else g0
               | None \<Rightarrow> g0);
          g = g\<lparr>lastSelectedDialogItemNum := s32 (lastSelectedDialogItemNum g + delta)\<rparr>
      in bindE
           (if action d \<noteq> [] then
              bindE (umod (wrapNegative n (lastSelectedDialogItemNum g)) n)
                (\<lambda>v. Inr (g\<lparr>lastSelectedDialogItemNum := v\<rparr>))
            else Inr g)
           (\<lambda>g. Inr (g\<lparr>lastDialogSelectionChangedFor := Some self\<rparr>)))"

text \<open>
  Third, the pointer: with more than one action it is moved to the start of the
  selected action's text (through the offset-to-position stage of \<open>draw\<close>), and it is
  warped if there is more than one action or \<open>delta\<close> is 0.
\<close>

definition moveMouse ::
  "DgdsEnv \<Rightarrow> int \<Rightarrow> Dialog \<Rightarrow> DialogState \<Rightarrow> DialogGlobals
     \<Rightarrow> fatal + (DialogGlobals \<times> Dialog)" where
  "moveMouse env delta d st g =
     (let mouseX = rectX (loc st) + rectWidth (loc st);
          mouseY = rectY (loc st) + rectHeight (loc st) - 2
      in if length (action d) > 1 then
           bindE (draw env [] kDlgDrawFindSelectionPointXY
                    (d\<lparr>state := Some (st\<lparr>strMouseLoc :=
                         int (strStart (action d ! nat (lastSelectedDialogItemNum g)))\<rparr>)\<rparr>))
             (\<lambda>(d', ops).
                case state d' of
                  None \<Rightarrow> Inl (AssertFailed ''_state'')
                | Some st' \<Rightarrow>
                    Inr (g\<lparr>mouseWarps := mouseWarps g @
                            [(mouseX, lastMouseY st' + cdiv (charHeight st') 2)]\<rparr>, d'))
         else if delta = 0 then
           Inr (g\<lparr>mouseWarps := mouseWarps g @ [(mouseX, mouseY)]\<rparr>, d)
         else Inr (g, d))"

definition updateSelectedAction ::
  "DgdsEnv \<Rightarrow> nat \<Rightarrow> int \<Rightarrow> DialogGlobals \<times> Dialog \<Rightarrow> fatal + (DialogGlobals \<times> Dialog)" where
  "updateSelectedAction env self delta gd =
     (let (g0, d) = gd;
          g = claimSelection self g0
      in case state d of
           None \<Rightarrow> Inr (g, d)
         | Some st \<Rightarrow> bindE (advanceIndex self delta d st g) (moveMouse env delta d st))"

text \<open>
  The action loop of \<open>pickAction\<close>: the first action, in list order, whose span
  \<open>strStart..strEnd\<close> (both ends included) holds the offset, or whose end is directly
  followed by the CR under the mouse while the end itself is not a CR.
\<close>

fun findAction :: "string \<Rightarrow> int \<Rightarrow> char \<Rightarrow> DialogAction list \<Rightarrow> nat \<Rightarrow> fatal + nat option" where
  "findAction s mloc underMouse [] i = Inr None"
| "findAction s mloc underMouse (a # as) i =
     (if int (strStart a) \<le> mloc \<and> mloc \<le> int (strEnd a) then Inr (Some i)
      else if mloc = int (strEnd a) + 1 \<and> underMouse = CHR 0x0D then
        bindE (strAt s (int (strEnd a))) (\<lambda>c.
          if c \<noteq> CHR 0x0D then Inr (Some i)
          else findAction s mloc underMouse as (Suc i))
      else findAction s mloc underMouse as (Suc i))"

text \<open>
  The \<open>if\<close> block of \<open>pickAction\<close>: when the last mouse position lies inside the text
  area (edges included), store it, resolve it to a character offset through the
  position-to-offset stage of \<open>draw\<close>, and look for an action at that offset.
\<close>

definition actionUnderMouse ::
  "DgdsEnv \<Rightarrow> Dialog \<Rightarrow> DialogState \<Rightarrow> fatal + (nat option \<times> Dialog)" where
  "actionUnderMouse env d st =
     (let (mx, my) = getLastMouse env in
      if rectX (loc st) \<le> mx \<and> rectX (loc st) + rectWidth (loc st) \<ge> mx \<and>
         rectY (loc st) \<le> my \<and> rectY (loc st) + rectHeight (loc st) \<ge> my
      then
        bindE (draw env [] kDlgDrawFindSelectionTxtOffset
                 (d\<lparr>state := Some (st\<lparr>lastMouseX := mx, lastMouseY := my\<rparr>)\<rparr>))
          (\<lambda>(d', ops).
             case state d' of
               None \<Rightarrow> Inl (AssertFailed ''_state'')
             | Some st' \<Rightarrow>
                 (let underMouse =
                        (if strMouseLoc st' \<ge> 0 \<and> strMouseLoc st' < int (length (str d'))
                         then str d' ! nat (strMouseLoc st') else CHR 0x00)
                  in bindE (findAction (str d') (strMouseLoc st') underMouse (action d') 0)
                       (\<lambda>r. Inr (r, d'))))
      else Inr (None, d))"

definition pickAction ::
  "DgdsEnv \<Rightarrow> bool \<Rightarrow> bool \<Rightarrow> Dialog \<Rightarrow> fatal + (nat option \<times> Dialog)" where
  "pickAction env isClosing isForceClose d =
     (if \<not> isForceClose \<and> isClosing then
        (if action d = [] then Inr (None, d)
         else Inr (Some (getRandomNumber env (length (action d) - 1)), d))
      else
        (case state d of
           None \<Rightarrow> Inl (AssertFailed ''_state'')
         | Some st \<Rightarrow>
             bindE (actionUnderMouse env d st)
               (\<lambda>(r, d').
                  case r of
                    Some i \<Rightarrow> Inr (Some i, d')
                  | None \<Rightarrow>
                      if isClosing \<and> length (action d') = 1 then Inr (Some 0, d')
                      else Inr (None, d'))))"

section \<open>A concrete font, environment and dialog\<close>

text \<open>
  Modelled from the spec: \<open>Font::wordWrapText\<close> and the glyph metrics live in the font
  classes, which are not among the inspected sources. The spec describes the wrap as
  greedy line breaking, "breaking only at space or carriage-return characters (never
  mid-word)", where "a single word wider than the limit is placed alone on its line".
  \<open>greedyWrap\<close> follows these words: a CR always ends a line, words are added to the
  current line while the line still fits, and the break character is dropped. The
  second component is the maximum line width produced.
\<close>

fun splitOn :: "char \<Rightarrow> string \<Rightarrow> string list" where
  "splitOn c [] = [[]]"
| "splitOn c (x # xs) =
     (if x = c then [] # splitOn c xs
      else (case splitOn c xs of w # ws \<Rightarrow> (x # w) # ws | [] \<Rightarrow> [[x]]))"

fun fillLines :: "(string \<Rightarrow> int) \<Rightarrow> int \<Rightarrow> string \<Rightarrow> string list \<Rightarrow> string list" where
  "fillLines sw lim cur [] = [cur]"
| "fillLines sw lim cur (w # ws) =
     (if sw (cur @ '' '' @ w) \<le> lim then fillLines sw lim (cur @ '' '' @ w) ws
      else cur # fillLines sw lim w ws)"

definition greedyWrap :: "(string \<Rightarrow> int) \<Rightarrow> string \<Rightarrow> int \<Rightarrow> string list \<times> int" where
  "greedyWrap sw s lim =
     (let ls = concat (map (\<lambda>p. case splitOn CHR '' '' p of
                                    w # ws \<Rightarrow> fillLines sw lim w ws | [] \<Rightarrow> [])
                           (splitOn CHR 0x0D s))
      in (ls, fold (\<lambda>l m. max m (sw l)) ls 0))"

text \<open>
  Modelled from the spec: a fixed-width font in the sense of the font provider interface
  (\<open>maxCharWidth\<close>, \<open>fontHeight\<close>, \<open>charWidth\<close>, \<open>stringWidth\<close>, \<open>wordWrap\<close>); every
  glyph is \<open>w\<close> pixels wide and \<open>h\<close> pixels high.
\<close>

definition fixedFont :: "int \<Rightarrow> int \<Rightarrow> DgdsFont" where
  "fixedFont w h =
     \<lparr>getMaxCharWidth = w, getFontHeight = h, getCharWidth = (\<lambda>c. w),
      getStringWidth = (\<lambda>s. w * int (length s)),
      wordWrapText = greedyWrap (\<lambda>s. w * int (length s))\<rparr>"

text \<open>
  An engine whose 8x8 and game fonts are 8 by 8 pixels, with the mouse at \<open>m\<close>; the
  memory outside the dialogs holds empty spans.
\<close>

definition fixedEnv :: "int \<times> int \<Rightarrow> DgdsEnv" where
  "fixedEnv m =
     \<lparr>getFont = (\<lambda>t. case t of k4x5Font \<Rightarrow> fixedFont 4 5 | _ \<Rightarrow> fixedFont 8 8),
      getGameId = GID_DRAGON, getLastMouse = m, randSeed = 0, strSpanAt = (\<lambda>a. (0, 0))\<rparr>"

text \<open>
  The dialog of the spec's selection scenario: body text
  \<open>Pick a direction.\rGo north\rGo south\<close> with two actions at offsets 19..26 and
  28..35, in a plain frame, not yet drawn.
\<close>

definition directionDialog :: Dialog where
  "directionDialog =
     \<lparr>num = 1, rect = mkRect 10 10 300 100, bgColor = 0, fontColor = 15,
      selectionBgCol = 4, selectonFontCol = 14, fontSize = 1, flags = {kDlgFlagVisible},
      frameType = kDlgFramePlain,
      str = ''Pick a direction.'' @ [CHR 0x0D] @ ''Go north'' @ [CHR 0x0D] @ ''Go south'',
      action = [\<lparr>strStart = 19, strEnd = 26, sceneOpList = []\<rparr>,
                \<lparr>strStart = 28, strEnd = 35, sceneOpList = []\<rparr>],
      state = None\<rparr>"

text \<open>The same dialog after it has been drawn once: its state holds the text area.\<close>

definition drawnDirectionDialog :: Dialog where
  "drawnDirectionDialog =
     directionDialog\<lparr>state := Some (newDialogState\<lparr>loc := mkRect 13 13 294 94\<rparr>)\<rparr>"

text \<open>
  The static members as the program starts: index 0, no dialog owning the
  "last changed" marker.
\<close>

definition unselected :: DialogGlobals where
  "unselected = \<lparr>lastSelectedDialogItemNum = 0, lastDialogSelectionChangedFor = None,
                  mouseWarps = []\<rparr>"

section \<open>Observing the selection\<close>

text \<open>
  \<open>indexAfter\<close> reads the shared last-selected index off the outcome of a call;
  \<open>None\<close> if the call aborted.
\<close>

definition indexAfter :: "fatal + (DialogGlobals \<times> Dialog) \<Rightarrow> int option" where
  "indexAfter r = (case r of Inl e \<Rightarrow> None
                   | Inr gd \<Rightarrow> Some (lastSelectedDialogItemNum (fst gd)))"

text \<open>
  \<open>selectionBase\<close> is the index a call of \<open>updateSelectedAction\<close> starts from: the
  index of the state's selected action when that is one of the dialog's actions;
  otherwise the previous shared index if no dialog owned the "last changed" marker,
  and 0 if one did.

  \<open>updateSelectedAction\<close> reads \<open>_state->_selectedAction\<close> but never writes it; the
  pointer is stored by the dialog's owner. \<open>withSelected i d\<close> is the dialog \<open>d\<close> with
  that pointer at its \<open>i\<close>-th action, and \<open>advanceSelected\<close> repeats
  \<open>updateSelectedAction\<close> \<open>k\<close> times, each time on the dialog whose selected action is
  the one at the current shared index.
\<close>

definition selectionBase :: "Dialog \<Rightarrow> DialogState \<Rightarrow> DialogGlobals \<Rightarrow> int" where
  "selectionBase d st g =
     (let b0 = (if lastDialogSelectionChangedFor g = None
                then lastSelectedDialogItemNum g else 0)
      in case selectedAction st of
           Some i \<Rightarrow> if i < length (action d) then int i else b0
         | None \<Rightarrow> b0)"

definition withSelected :: "nat \<Rightarrow> Dialog \<Rightarrow> Dialog" where
  "withSelected i d =
     d\<lparr>state := map_option (\<lambda>st. st\<lparr>selectedAction := Some i\<rparr>) (state d)\<rparr>"

fun advanceSelected ::
  "DgdsEnv \<Rightarrow> nat \<Rightarrow> int \<Rightarrow> nat \<Rightarrow> DialogGlobals \<times> Dialog
     \<Rightarrow> fatal + (DialogGlobals \<times> Dialog)" where
  "advanceSelected env self delta 0 gd = Inr gd"
| "advanceSelected env self delta (Suc k) gd =
     bindE (updateSelectedAction env self delta
              (fst gd, withSelected (nat (lastSelectedDialogItemNum (fst gd))) (snd gd)))
       (advanceSelected env self delta k)"

section \<open>Picking an action, in the spec's terms\<close>

text \<open>
  The case analysis of \<open>pickAction\<close> as the spec words it, for comparison with the
  code. An offset is inside an action when it lies in the span \<open>strStart..strEnd\<close>
  (both ends count), or when it is exactly one past the end, the character there is a
  CR and the action's last character is not. \<open>firstHit\<close> is the first such action in
  list order. \<open>pointerInside\<close> says that the last mouse position lies in the text area,
  and \<open>pointerOffset\<close> is the character offset that the position-to-offset routine
  resolves it to.
\<close>

definition actionHit :: "string \<Rightarrow> int \<Rightarrow> DialogAction \<Rightarrow> bool" where
  "actionHit s off a \<longleftrightarrow>
     (int (strStart a) \<le> off \<and> off \<le> int (strEnd a))
     \<or> (off = int (strEnd a) + 1 \<and> off < int (length s)
        \<and> s ! nat off = CHR 0x0D \<and> s ! strEnd a \<noteq> CHR 0x0D)"

definition firstHit :: "string \<Rightarrow> int \<Rightarrow> DialogAction list \<Rightarrow> nat option" where
  "firstHit s off as =
     map_option fst (List.find (\<lambda>ia. actionHit s off (snd ia)) (enumerate 0 as))"

definition pointerInside :: "DgdsEnv \<Rightarrow> DialogState \<Rightarrow> bool" where
  "pointerInside env st \<longleftrightarrow>
     rectX (loc st) \<le> fst (getLastMouse env)
     \<and> fst (getLastMouse env) \<le> rectX (loc st) + rectWidth (loc st)
     \<and> rectY (loc st) \<le> snd (getLastMouse env)
     \<and> snd (getLastMouse env) \<le> rectY (loc st) + rectHeight (loc st)"

definition pointerOffset :: "DgdsEnv \<Rightarrow> Dialog \<Rightarrow> DialogState \<Rightarrow> int" where
  "pointerOffset env d st =
     selectionTxtOffset (getDlgTextFont env d) d
       (st\<lparr>lastMouseX := fst (getLastMouse env), lastMouseY := snd (getLastMouse env)\<rparr>)"


section \<open>Position to offset, in the spec's terms\<close>

text \<open>
  The position-to-offset rule stated declaratively, for comparison with the loops of
  \<open>drawFindSelectionTxtOffset\<close>. \<open>textOrigin\<close> is the top-left corner the routine
  measures from: the text area's corner, moved to the corner of the centred block when
  the dialog is left-justified.
\<close>

definition textOrigin :: "DgdsFont \<Rightarrow> Dialog \<Rightarrow> DialogState \<Rightarrow> int \<times> int" where
  "textOrigin font d st =
     (let (lines, maxWidth) = wordWrapText font (str d) (rectWidth (loc st)) in
      if hasFlag d kDlgFlagLeftJust then
        (rectX (loc st) + cdiv (rectWidth (loc st) - maxWidth - 1) 2,
         rectY (loc st)
           + cdiv (rectHeight (loc st) - s32 (int (length lines) * getFontHeight font) - 1) 2)
      else (rectX (loc st), rectY (loc st)))"

text \<open>
  \<open>lineOffset lines k\<close> is the offset, in the unwrapped string, of the start of wrapped
  line \<open>k\<close>: every earlier line accounts for its characters plus the one break
  character. \<open>rightEdge\<close> is the x position of the right edge of glyph \<open>c\<close> of a line,
  that is the cumulative glyph width up to and including it.
\<close>

definition lineOffset :: "string list \<Rightarrow> nat \<Rightarrow> int" where
  "lineOffset lines k = (\<Sum>l\<leftarrow>take k lines. int (length l) + 1)"

definition rightEdge :: "DgdsFont \<Rightarrow> int \<Rightarrow> string \<Rightarrow> nat \<Rightarrow> int" where
  "rightEdge font startx line c =
     startx + (\<Sum>ch\<leftarrow>take (Suc c) line. getCharWidth font (chr32 ch))"

text \<open>
  The located line: lines are stepped over, from the top, while the bottom edge of
  the line is above the target y.
\<close>

definition locatedLine :: "int \<Rightarrow> int \<Rightarrow> int \<Rightarrow> nat \<Rightarrow> nat" where
  "locatedLine y0 h mouseY n =
     length (takeWhile (\<lambda>l. y0 + (int l + 1) * h < mouseY) [0..<n])"

text \<open>
  \<open>glyphsFrom lines lo hi\<close> lists the glyph positions \<open>(line, column)\<close> of the lines
  \<open>lo..<hi\<close> in reading order. \<open>txtOffsetIn\<close> returns the string offset of the first
  listed glyph whose right edge meets or exceeds the target x, and the string length
  when there is none.
\<close>

definition glyphsFrom :: "string list \<Rightarrow> nat \<Rightarrow> nat \<Rightarrow> (nat \<times> nat) list" where
  "glyphsFrom lines lo hi = concat (map (\<lambda>k. map (Pair k) [0..<length (lines ! k)]) [lo..<hi])"

definition txtOffsetIn ::
  "DgdsFont \<Rightarrow> Dialog \<Rightarrow> DialogState \<Rightarrow> (string list \<Rightarrow> nat \<Rightarrow> (nat \<times> nat) list) \<Rightarrow> int" where
  "txtOffsetIn font d st glyphs =
     (let lines = fst (wordWrapText font (str d) (rectWidth (loc st)));
          (x0, y0) = textOrigin font d st;
          L = locatedLine y0 (getFontHeight font) (lastMouseY st) (length lines)
      in case List.find (\<lambda>kc. lastMouseX st \<le> rightEdge font x0 (lines ! fst kc) (snd kc))
                (glyphs lines L) of
           Some kc \<Rightarrow> lineOffset lines (fst kc) + int (snd kc)
         | None \<Rightarrow> int (length (str d)))"

text \<open>
  The rule as C8 words it looks at the glyphs of the located line only; the rule the
  code follows goes on through every later line.
\<close>

definition txtOffsetClaimed :: "DgdsFont \<Rightarrow> Dialog \<Rightarrow> DialogState \<Rightarrow> int" where
  "txtOffsetClaimed font d st =
     txtOffsetIn font d st (\<lambda>lines L. glyphsFrom lines L (min (Suc L) (length lines)))"

definition txtOffsetSpec :: "DgdsFont \<Rightarrow> Dialog \<Rightarrow> DialogState \<Rightarrow> int" where
  "txtOffsetSpec font d st =
     txtOffsetIn font d st (\<lambda>lines L. glyphsFrom lines L (length lines))"

section \<open>The layout round trip\<close>

text \<open>
  \<open>withOffset off d\<close> is the dialog \<open>d\<close> with \<open>_state->_strMouseLoc\<close> set to \<open>off\<close>.
  \<open>roundTrip\<close> resolves an offset to a screen position with \<open>drawFindSelectionXY\<close>,
  resolves that position back with \<open>drawFindSelectionTxtOffset\<close>, and reads the offset
  found (\<open>None\<close> for a dialog without a state).
\<close>

definition withOffset :: "int \<Rightarrow> Dialog \<Rightarrow> Dialog" where
  "withOffset off d =
     d\<lparr>state := map_option (\<lambda>st. st\<lparr>strMouseLoc := off\<rparr>) (state d)\<rparr>"

definition roundTrip :: "DgdsEnv \<Rightarrow> Dialog \<Rightarrow> int \<Rightarrow> fatal + int option" where
  "roundTrip env d off =
     bindE (drawFindSelectionXY env (withOffset off d))
       (\<lambda>d'. Inr (map_option strMouseLoc (state (drawFindSelectionTxtOffset env d'))))"

text \<open>The sum of the glyph widths of a string.\<close>

definition glyphWidths :: "DgdsFont \<Rightarrow> string \<Rightarrow> int" where
  "glyphWidths font s = (\<Sum>ch\<leftarrow>s. getCharWidth font (chr32 ch))"

text \<open>
  The wrapped text block lies inside the text area: it is no wider than the area and
  less tall, and the area's vertical coordinates are \<open>int\<close>s. This is what the centring
  of a left-justified block assumes.
\<close>

definition blockInside :: "DgdsFont \<Rightarrow> Dialog \<Rightarrow> DialogState \<Rightarrow> bool" where
  "blockInside font d st \<longleftrightarrow>
     (let (lines, maxWidth) = wordWrapText font (str d) (rectWidth (loc st))
      in maxWidth \<le> rectWidth (loc st)
         \<and> int (length lines) * getFontHeight font < rectHeight (loc st)
         \<and> fitsInt (rectY (loc st)) \<and> fitsInt (rectHeight (loc st))
         \<and> fitsInt (rectY (loc st) + rectHeight (loc st)))"

text \<open>
  The scenario dialog, drawn, as a left-justified dialog in a text area of width \<open>w\<close> and
  height \<open>hgt\<close>.
\<close>

definition leftJustDialog :: "int \<Rightarrow> int \<Rightarrow> Dialog" where
  "leftJustDialog w hgt =
     directionDialog\<lparr>flags := {kDlgFlagVisible, kDlgFlagLeftJust},
                      state := Some (newDialogState\<lparr>loc := mkRect 13 13 w hgt\<rparr>)\<rparr>"


section \<open>The engine: changing scenes\<close>

text \<open>
  \<open>Common::String::format("%d", n)\<close>: the decimal digits of \<open>n\<close>, with a minus sign for a
  negative number. \<open>sdsName\<close> is the scene file name \<open>S<n>.SDS\<close>.
\<close>

function showNat :: "nat \<Rightarrow> string" where
  "showNat n = (if n < 10 then [char_of (48 + n)]
                else showNat (n div 10) @ [char_of (48 + n mod 10)])"
  by pat_completeness auto
termination
  by (relation "measure id") auto

declare showNat.simps [simp del]

definition showInt :: "int \<Rightarrow> string" where
  "showInt i = (if i < 0 then CHR ''-'' # showNat (nat (- i)) else showNat (nat i))"

definition sdsName :: "int \<Rightarrow> string" where
  "sdsName sceneNum = ''S'' @ showInt sceneNum @ ''.SDS''"

text \<open>
  \<open>Common::Error\<close> codes: \<open>kNoError\<close> and the others, told apart by a number.
\<close>

datatype ErrorCode = kNoError | kOtherError nat

text \<open>
  The values that \<open>syncGame\<close> passes through the serializer, in the names of the
  subsystems and fields of the source: \<open>_gdsScene\<close>, the scene number, \<open>_scene\<close>,
  \<open>_gameGlobals\<close>, \<open>_clock\<close>, \<open>_inventory\<close>, \<open>_gamePals\<close>, \<open>_adsInterp\<close>, \<open>_textSpeed\<close>,
  \<open>_justChangedScene1\<close>, \<open>_justChangedScene2\<close>, the play time and \<open>_backgroundFile\<close>.
\<close>

datatype SyncStep =
    SyncGdsScene | SyncSceneNum | SyncScene | SyncGlobals | SyncClock | SyncInventory
  | SyncPalette | SyncAds | SyncTextSpeed | SyncJustChangedScene1 | SyncJustChangedScene2
  | SyncPlayTime | SyncBackgroundFile

text \<open>
  The engine calls into subsystems whose code is outside the inspected sources (the
  scene and its scripts, sound, the script-overlay interpreter, the cursor manager, the
  screen buffers, the palettes). Each such call is recorded, with its arguments, as an
  event, in the order made; what the call does inside the subsystem is not modelled.
  \<open>Warning\<close> is a call of \<open>warning(...)\<close> with the formatted message, and \<open>Sync st\<close> is one
  value or subsystem passing through the serializer.
\<close>

datatype Event =
    Warning string
  | DebugDump
  | HideMenu
  | UnloadMusic
  | StopAllSfx
  | BlitBackgroundFromComposition
  | ClearBackgroundBuffer
  | ClearStoredAreaBuffer
  | RunLeaveSceneOps
  | RunChangeSceneOps
  | RunEnterSceneOps
  | SetGlobal int int
  | AddInvButtonToHotAreaList
  | AdsLoad string
  | AdsUnload
  | ReplaceCursor nat
  | ShowMouse
  | Sync SyncStep
  | PaletteReset
  | DrawScreen string

text \<open>
  What the engine reads from the current scene: its number, its magic tag, the name of
  its script-overlay file and the dragged item (\<open>None\<close> for \<open>nullptr\<close>).
\<close>

record Scene =
  getNum :: int
  getMagic :: int
  getAdsFile :: string
  getDragItem :: "nat option"

text \<open>The fields of \<open>Inventory\<close> that \<open>close\<close> and \<open>syncState\<close> touch.\<close>

record Inventory =
  isOpen :: bool
  openedFromSceneNum :: int
  showZoomBox :: bool
  highlightItemNo :: int
  itemOffset :: int

text \<open>
  The engine state: the fields of \<open>DgdsEngine\<close> and of its subsystems that
  \<open>changeScene\<close>, \<open>setMouseCursor\<close> and \<open>syncGame\<close> read or write. \<open>gdsMagic\<close> and
  \<open>cursorList\<close> belong to the scene directory (\<open>_gdsScene\<close>), \<open>lastSceneNum\<close> to the
  globals, \<open>hasResource\<close> to the resource manager, \<open>iconFrames\<close> is the number of loaded
  icon frames (\<open>None\<close> without icons), \<open>clockVisibleScript\<close> belongs to the clock, and
  \<open>events\<close> is the record of the calls made so far.
\<close>

record Engine =
  scene :: Scene
  gdsMagic :: int
  cursorList :: "(int \<times> int) list"
  inventory :: Inventory
  hasResource :: "string \<Rightarrow> bool"
  lastSceneNum :: int
  backgroundFile :: string
  iconFrames :: "nat option"
  currentCursor :: int
  currentCursorHot :: "int \<times> int"
  clockVisibleScript :: bool
  justChangedScene1 :: bool
  justChangedScene2 :: bool
  engineGameId :: DgdsGameId
  textSpeed :: int
  totalPlayTime :: int
  events :: "Event list"

text \<open>
  The scene loader and the \<open>syncState\<close> members of the subsystems are outside the
  inspected sources; they are parameters. \<open>sceneLoad file\<close> and \<open>sceneUnload\<close> give the
  scene after \<open>_scene->load(file, ...)\<close> and \<open>_scene->unload()\<close>, and \<open>syncResult st\<close> is the
  \<open>Common::Error\<close> code that the \<open>syncState\<close> of subsystem \<open>st\<close> returns.
\<close>

record Subsystems =
  sceneLoad :: "string \<Rightarrow> Scene \<Rightarrow> Scene"
  sceneUnload :: "Scene \<Rightarrow> Scene"
  syncResult :: "SyncStep \<Rightarrow> ErrorCode"

definition emit :: "Event \<Rightarrow> Engine \<Rightarrow> Engine" where
  "emit ev e = e\<lparr>events := events e @ [ev]\<rparr>"




section \<open>The engine: saved games\<close>

text \<open>
  Modelled from the spec: \<open>Common::Serializer\<close> is not among the inspected sources. The
  spec describes it as "ordered primitive read/write calls ... plus a \<open>isLoading()\<close> mode
  flag and a single version negotiation call", where "the synchronizer refuses to load
  a version newer than it understands". A serializer is its mode and, when loading, the
  version tag of the stream; \<open>syncVersion current\<close> writes the current version when
  saving and reads the stream's when loading, and reports whether the version in use
  is at most the current one. The second component is the version then returned by
  \<open>getVersion()\<close>.
\<close>

record Serializer =
  isLoading :: bool
  streamVersion :: nat

definition syncVersion :: "nat \<Rightarrow> Serializer \<Rightarrow> bool \<times> nat" where
  "syncVersion currentVersion s =
     (let v = (if isLoading s then streamVersion s else currentVersion)
      in (v \<le> currentVersion, v))"

text \<open>
  The values that a stream being loaded holds for the fields that \<open>syncGame\<close> and
  \<open>Inventory::syncState\<close> read themselves. When saving, the fields are written and keep
  their values.
\<close>

record SaveData =
  savedSceneNum :: int
  savedOpenedFromSceneNum :: int
  savedIsOpen :: bool
  savedHighlightItemNo :: int
  savedItemOffset :: int
  savedTextSpeed :: int
  savedJustChangedScene1 :: bool
  savedJustChangedScene2 :: bool
  savedPlayTime :: int
  savedBackgroundFile :: string

type_synonym SyncOutcome = "fatal + (ErrorCode \<times> Engine)"

text \<open>
  \<open>result = ...; if (result.getCode() != Common::kNoError) return result;\<close> followed by
  the rest of the function.
\<close>

definition andThen :: "SyncOutcome \<Rightarrow> (Engine \<Rightarrow> SyncOutcome) \<Rightarrow> SyncOutcome" where
  "andThen m f =
     (case m of
        Inl x \<Rightarrow> Inl x
      | Inr re \<Rightarrow> if fst re \<noteq> kNoError then Inr re else f (snd re))"

text \<open>The \<open>syncState\<close> of a subsystem outside the inspected sources.\<close>

definition subsystemSync :: "Subsystems \<Rightarrow> SyncStep \<Rightarrow> Engine \<Rightarrow> SyncOutcome" where
  "subsystemSync X step e = Inr (syncResult X step, emit (Sync step) e)"

text \<open>
  The scene number: written when saving; when loading it is read as a \<open>uint16\<close>, the
  scene file must exist (fatal otherwise), and the scene is loaded before the rest of
  the state is read.
\<close>

definition syncSceneNum :: "Subsystems \<Rightarrow> Serializer \<Rightarrow> SaveData \<Rightarrow> Engine \<Rightarrow> SyncOutcome" where
  "syncSceneNum X s saved e0 =
     (let e = emit (Sync SyncSceneNum) e0;
          sceneNum = (if isLoading s then u16 (savedSceneNum saved) else getNum (scene e))
      in if isLoading s then
           (if \<not> hasResource e (sdsName sceneNum) then
              Inl (ErrorCall ''Game references non-existant scene'')
            else
              (let e1 = emit StopAllSfx (emit UnloadMusic e);
                   e2 = emit AdsUnload (e1\<lparr>scene := sceneUnload X (scene e1)\<rparr>);
                   e3 = emit AddInvButtonToHotAreaList
                          (e2\<lparr>scene := sceneLoad X (sdsName sceneNum) (scene e2)\<rparr>)
               in Inr (kNoError, e3)))
         else Inr (kNoError, e))"

text \<open>\<open>Inventory::syncState\<close>: four fields, and always \<open>kNoError\<close>.\<close>

definition inventorySyncState :: "Serializer \<Rightarrow> SaveData \<Rightarrow> Engine \<Rightarrow> SyncOutcome" where
  "inventorySyncState s saved e0 =
     (let e = emit (Sync SyncInventory) e0
      in Inr (kNoError,
              if isLoading s then
                e\<lparr>inventory := (inventory e)
                     \<lparr>openedFromSceneNum := u16 (savedOpenedFromSceneNum saved),
                      isOpen := savedIsOpen saved,
                      highlightItemNo := s16 (savedHighlightItemNo saved),
                      itemOffset := s16 (savedItemOffset saved)\<rparr>\<rparr>
              else e))"

text \<open>
  The palette: synchronised for a version below 4; from version 4 on it is not part of
  the stream, and a load resets it.
\<close>

definition syncPalette :: "Subsystems \<Rightarrow> Serializer \<Rightarrow> nat \<Rightarrow> Engine \<Rightarrow> SyncOutcome" where
  "syncPalette X s version e =
     (if version < 4 then subsystemSync X SyncPalette e
      else if isLoading s then Inr (kNoError, emit PaletteReset e)
      else Inr (kNoError, e))"

text \<open>
  The scalar fields after the last subsystem, the redraw of the background on a load,
  and the scene's enter ops.
\<close>

definition syncScalars :: "Serializer \<Rightarrow> SaveData \<Rightarrow> Engine \<Rightarrow> Engine" where
  "syncScalars s saved e0 =
     (let e1 = emit (Sync SyncTextSpeed) e0;
          e1 = (if isLoading s then e1\<lparr>textSpeed := s16 (savedTextSpeed saved)\<rparr> else e1);
          e2 = emit (Sync SyncJustChangedScene1) e1;
          e2 = (if isLoading s then e2\<lparr>justChangedScene1 := savedJustChangedScene1 saved\<rparr>
                else e2);
          e3 = emit (Sync SyncJustChangedScene2) e2;
          e3 = (if isLoading s then e3\<lparr>justChangedScene2 := savedJustChangedScene2 saved\<rparr>
                else e3);
          e4 = emit (Sync SyncPlayTime) e3;
          e4 = e4\<lparr>totalPlayTime := (if isLoading s then u32 (savedPlayTime saved)
                                      else u32 (totalPlayTime e4))\<rparr>;
          e5 = emit (Sync SyncBackgroundFile) e4;
          e5 = (if isLoading s then e5\<lparr>backgroundFile := savedBackgroundFile saved\<rparr> else e5);
          e6 = (if isLoading s
                then emit ClearStoredAreaBuffer (emit (DrawScreen (backgroundFile e5)) e5)
                else e5)
      in emit RunEnterSceneOps e6)"

text \<open>\<open>DgdsEngine::syncGame\<close>, for both directions.\<close>

definition syncGame :: "Subsystems \<Rightarrow> Serializer \<Rightarrow> SaveData \<Rightarrow> Engine \<Rightarrow> SyncOutcome" where
  "syncGame X s saved e0 =
     (let e = emit HideMenu e0;
          (ok, version) = syncVersion 4 s
      in if \<not> ok then Inl (ErrorCall ''Save game version too new'')
         else
           andThen (subsystemSync X SyncGdsScene e) (\<lambda>e.
           andThen (syncSceneNum X s saved e) (\<lambda>e.
           andThen (subsystemSync X SyncScene e) (\<lambda>e.
           andThen (subsystemSync X SyncGlobals e) (\<lambda>e.
           andThen (subsystemSync X SyncClock e) (\<lambda>e.
           andThen (inventorySyncState s saved e) (\<lambda>e.
           andThen (syncPalette X s version e) (\<lambda>e.
           andThen (subsystemSync X SyncAds e) (\<lambda>e.
           Inr (kNoError, syncScalars s saved e))))))))))"

section \<open>A concrete engine\<close>

text \<open>
  Modelled from the spec: the scene class and the resource manager are not among the
  inspected sources. A scene has, in the spec's words, an "identity: scene number,
  magic/version tag used for cross-validation against a global scene directory's own
  magic tag"; loading a scene file gives the scene stored under that name, and
  unloading forgets number and script file. \<open>sampleScenes\<close> are the scene files that
  exist: the inventory scene 2 and the scenes 3 and 5. \<open>sampleSubsystems results\<close> are
  subsystems whose \<open>syncState\<close> members return the codes \<open>results\<close>.
\<close>

definition sampleScenes :: "(string \<times> Scene) list" where
  "sampleScenes =
     [(''S2.SDS'', \<lparr>getNum = 2, getMagic = 4660, getAdsFile = [], getDragItem = None\<rparr>),
      (''S3.SDS'', \<lparr>getNum = 3, getMagic = 4660, getAdsFile = ''S3.ADS'', getDragItem = None\<rparr>),
      (''S5.SDS'', \<lparr>getNum = 5, getMagic = 4660, getAdsFile = [], getDragItem = None\<rparr>)]"

definition sampleSubsystems :: "(SyncStep \<Rightarrow> ErrorCode) \<Rightarrow> Subsystems" where
  "sampleSubsystems results =
     \<lparr>sceneLoad = (\<lambda>name sc. case map_of sampleScenes name of
                                  Some loaded \<Rightarrow> loaded\<lparr>getDragItem := getDragItem sc\<rparr>
                                | None \<Rightarrow> sc),
      sceneUnload = (\<lambda>sc. sc\<lparr>getNum := 0, getAdsFile := []\<rparr>),
      syncResult = results\<rparr>"

text \<open>Subsystems whose \<open>syncState\<close> members all succeed, and ones whose clock fails.\<close>

definition allSucceed :: "SyncStep \<Rightarrow> ErrorCode" where
  "allSucceed st = kNoError"

definition clockFails :: "SyncStep \<Rightarrow> ErrorCode" where
  "clockFails st = (if st = SyncClock then kOtherError 7 else kNoError)"

text \<open>An engine in scene 3 with the inventory closed, and nothing recorded yet.\<close>

definition sampleEngine :: Engine where
  "sampleEngine =
     \<lparr>scene = \<lparr>getNum = 3, getMagic = 4660, getAdsFile = ''S3.ADS'', getDragItem = None\<rparr>,
      gdsMagic = 4660, cursorList = [(0, 0), (8, 8)],
      inventory = \<lparr>isOpen = False, openedFromSceneNum = 0, showZoomBox = False,
                    highlightItemNo = - 1, itemOffset = 0\<rparr>,
      hasResource = (\<lambda>name. map_of sampleScenes name \<noteq> None),
      lastSceneNum = 0, backgroundFile = ''S3.SCR'', iconFrames = Some 4, currentCursor = 0,
      currentCursorHot = (0, 0), clockVisibleScript = True, justChangedScene1 = False,
      justChangedScene2 = False, engineGameId = GID_DRAGON, textSpeed = 1,
      totalPlayTime = 1000, events = []\<rparr>"


text \<open>
  A stream of version \<open>v\<close> being loaded, a stream being written, and the fields that the
  loaded stream holds: a save made in scene 5.
\<close>

definition loading :: "nat \<Rightarrow> Serializer" where
  "loading v = \<lparr>isLoading = True, streamVersion = v\<rparr>"

definition saving :: Serializer where
  "saving = \<lparr>isLoading = False, streamVersion = 0\<rparr>"

definition sampleSave :: SaveData where
  "sampleSave =
     \<lparr>savedSceneNum = 5, savedOpenedFromSceneNum = 0, savedIsOpen = False,
      savedHighlightItemNo = - 1, savedItemOffset = 0, savedTextSpeed = 2,
      savedJustChangedScene1 = False, savedJustChangedScene2 = False, savedPlayTime = 5000,
      savedBackgroundFile = ''S5.SCR''\<rparr>"

section \<open>Observing the engine\<close>


text \<open>
  \<open>newEvents e e'\<close> are the calls recorded between the states \<open>e\<close> and \<open>e'\<close>, and \<open>syncSteps\<close>
  picks the serializer steps out of a list of calls. \<open>syncLog\<close> is the list of calls that
  a \<open>syncGame\<close> which came back has made, and \<open>syncCode\<close> the code it returned.
\<close>

definition newEvents :: "Engine \<Rightarrow> Engine \<Rightarrow> Event list" where
  "newEvents e e' = drop (length (events e)) (events e')"

definition syncSteps :: "Event list \<Rightarrow> SyncStep list" where
  "syncSteps evs = List.map_filter (\<lambda>ev. case ev of Sync st \<Rightarrow> Some st | _ \<Rightarrow> None) evs"

definition syncLog :: "Engine \<Rightarrow> SyncOutcome \<Rightarrow> Event list option" where
  "syncLog e r = (case r of Inl x \<Rightarrow> None | Inr ce \<Rightarrow> Some (newEvents e (snd ce)))"

definition syncCode :: "SyncOutcome \<Rightarrow> ErrorCode option" where
  "syncCode r = (case r of Inl x \<Rightarrow> None | Inr ce \<Rightarrow> Some (fst ce))"

text \<open>
  Of the calls of a \<open>syncGame\<close> that came back: whether the palette went through the
  serializer, and whether it was reset.
\<close>

definition paletteSynced :: "Event list option \<Rightarrow> bool" where
  "paletteSynced log = (case log of None \<Rightarrow> False | Some evs \<Rightarrow> Sync SyncPalette \<in> set evs)"

definition paletteWasReset :: "Event list option \<Rightarrow> bool" where
  "paletteWasReset log = (case log of None \<Rightarrow> False | Some evs \<Rightarrow> PaletteReset \<in> set evs)"

text \<open>
  The order of the serializer steps as the claim words it: scene directory, scene
  number, scene state, globals, clock, inventory, the palette only below version 4,
  script-overlay interpreter, text speed, the two flags, play time, background file.
  \<open>reportsError\<close> holds of a subsystem step whose \<open>syncState\<close> returns an error;
  \<open>stepsUntilError\<close> is the order cut after the first such step, and \<open>firstError\<close> the code
  of that step, \<open>kNoError\<close> when there is none.
\<close>

definition syncOrder :: "nat \<Rightarrow> SyncStep list" where
  "syncOrder version =
     [SyncGdsScene, SyncSceneNum, SyncScene, SyncGlobals, SyncClock, SyncInventory]
     @ (if version < 4 then [SyncPalette] else [])
     @ [SyncAds, SyncTextSpeed, SyncJustChangedScene1, SyncJustChangedScene2, SyncPlayTime,
        SyncBackgroundFile]"

definition reportsError :: "Subsystems \<Rightarrow> SyncStep \<Rightarrow> bool" where
  "reportsError X st \<longleftrightarrow>
     st \<in> {SyncGdsScene, SyncScene, SyncGlobals, SyncClock, SyncPalette, SyncAds}
     \<and> syncResult X st \<noteq> kNoError"

definition stepsUntilError :: "Subsystems \<Rightarrow> SyncStep list \<Rightarrow> SyncStep list" where
  "stepsUntilError X order =
     (case List.find (reportsError X) order of
        None \<Rightarrow> order
      | Some st \<Rightarrow> takeWhile (\<lambda>t. t \<noteq> st) order @ [st])"

definition firstError :: "Subsystems \<Rightarrow> SyncStep list \<Rightarrow> ErrorCode" where
  "firstError X order =
     (case List.find (reportsError X) order of
        None \<Rightarrow> kNoError
      | Some st \<Rightarrow> syncResult X st)"


section \<open>Basic facts about the drawing stages and the selection steps\<close>

lemma selectionXY_returns:
  assumes "str d \<noteq> []" and "0 \<le> strMouseLoc st"
  shows "\<exists>r. selectionXY font d st = Inr r"
  using assms
  by (simp add: selectionXY_def Let_def bindE_def split_beta strAt_def)

lemma drawFindSelectionXY_shape:
  assumes "drawFindSelectionXY env d = Inr d'" and "state d = Some st"
  shows "\<exists>px py cw ch mloc. d' = d\<lparr>state := Some (st\<lparr>lastMouseX := px, lastMouseY := py,
            charWidth := cw, charHeight := ch, strMouseLoc := mloc\<rparr>)\<rparr>"
proof (cases "selectionXY (getDlgTextFont env d) d st")
  case (Inl e)
  with assms show ?thesis by (simp add: drawFindSelectionXY_def bindE_def)
next
  case (Inr r)
  obtain px py cw ch mloc where r: "r = (px, py, cw, ch, mloc)" by (cases r) auto
  from assms Inr r have "d' = d\<lparr>state := Some (st\<lparr>lastMouseX := px, lastMouseY := py,
            charWidth := cw, charHeight := ch, strMouseLoc := mloc\<rparr>)\<rparr>"
    by (simp add: drawFindSelectionXY_def bindE_def)
  then show ?thesis by blast
qed

lemma drawFindSelectionXY_returns:
  assumes "state d = Some st" and "str d \<noteq> []" and "0 \<le> strMouseLoc st"
  shows "\<exists>d'. drawFindSelectionXY env d = Inr d'"
proof -
  from selectionXY_returns [OF assms(2,3)]
  obtain r where "selectionXY (getDlgTextFont env d) d st = Inr r" by blast
  then show ?thesis
    using assms(1) by (cases r) (simp add: drawFindSelectionXY_def bindE_def)
qed

lemma known_frame_cases:
  assumes "\<forall>t. frameType d \<noteq> kDlgFrameUnknown t"
  shows "frameType d = kDlgFramePlain \<or> frameType d = kDlgFrameBorder
       \<or> frameType d = kDlgFrameThought \<or> frameType d = kDlgFrameRounded"
  using assms by (cases "frameType d") auto

lemma draw_XY:
  assumes "state d = Some st" and "\<forall>t. frameType d \<noteq> kDlgFrameUnknown t"
  shows "draw env dst kDlgDrawFindSelectionPointXY d
           = bindE (drawFindSelectionXY env d) (\<lambda>d'. Inr (d', dst))"
  using assms(1) known_frame_cases [OF assms(2)]
  by (auto simp: draw_def drawType1_def drawType2_def drawType3_def drawType4_def
                 Let_def split_beta)

lemma draw_TxtOffset:
  assumes "state d = Some st" and "\<forall>t. frameType d \<noteq> kDlgFrameUnknown t"
  shows "draw env dst kDlgDrawFindSelectionTxtOffset d
           = Inr (drawFindSelectionTxtOffset env d, dst)"
  using assms(1) known_frame_cases [OF assms(2)]
  by (auto simp: draw_def drawType1_def drawType2_def drawType3_def drawType4_def
                 Let_def split_beta)

lemma s32_id: "fitsInt v \<Longrightarrow> s32 v = v"
  by (simp add: fitsInt_def s32_def)

lemma wrapNegative_mod: "wrapNegative n v mod int n = v mod int n"
proof (induction n v rule: wrapNegative.induct)
  case (1 n v)
  show ?case
  proof (cases "v < 0 \<and> 0 < n")
    case True
    have "wrapNegative n v = wrapNegative n (v + int n)"
      using True by (simp add: wrapNegative.simps [of n v])
    with 1 True show ?thesis by simp
  next
    case False
    have "wrapNegative n v = v"
      using False by (subst wrapNegative.simps) auto
    then show ?thesis by simp
  qed
qed

lemma advanceIndex_result:
  "advanceIndex self delta d st g =
     Inr (g\<lparr>lastSelectedDialogItemNum :=
            (let n = length (action d);
                 base = (case selectedAction st of
                           Some i \<Rightarrow> if i < n then int i else lastSelectedDialogItemNum g
                         | None \<Rightarrow> lastSelectedDialogItemNum g)
             in if n = 0 then s32 (base + delta) else s32 (base + delta) mod int n),
          lastDialogSelectionChangedFor := Some self\<rparr>)"
  by (simp add: advanceIndex_def Let_def bindE_def umod_def wrapNegative_mod
           split: option.splits)

lemma moveMouse_result:
  assumes st: "state d = Some st"
      and fr: "\<forall>t. frameType d \<noteq> kDlgFrameUnknown t" and nonempty: "str d \<noteq> []"
  shows "\<exists>g' st'. moveMouse env delta d st g = Inr (g', d\<lparr>state := Some st'\<rparr>)
           \<and> lastSelectedDialogItemNum g' = lastSelectedDialogItemNum g
           \<and> lastDialogSelectionChangedFor g' = lastDialogSelectionChangedFor g
           \<and> selectedAction st' = selectedAction st \<and> loc st' = loc st"
proof (cases "length (action d) > 1")
  case False
  have same: "d\<lparr>state := Some st\<rparr> = d" using st by simp
  show ?thesis
  proof (cases "delta = 0")
    case True
    with False have "moveMouse env delta d st g =
        Inr (g\<lparr>mouseWarps := mouseWarps g @
               [(rectX (loc st) + rectWidth (loc st),
                 rectY (loc st) + rectHeight (loc st) - 2)]\<rparr>, d\<lparr>state := Some st\<rparr>)"
      by (simp add: moveMouse_def Let_def same)
    then show ?thesis by force
  next
    case nz: False
    with False have "moveMouse env delta d st g = Inr (g, d\<lparr>state := Some st\<rparr>)"
      by (simp add: moveMouse_def Let_def same)
    then show ?thesis by force
  qed
next
  case True
  define e where "e = d\<lparr>state := Some (st\<lparr>strMouseLoc :=
                         int (strStart (action d ! nat (lastSelectedDialogItemNum g)))\<rparr>)\<rparr>"
  define st1 where "st1 = st\<lparr>strMouseLoc :=
                         int (strStart (action d ! nat (lastSelectedDialogItemNum g)))\<rparr>"
  have e_st: "state e = Some st1" by (simp add: e_def st1_def)
  have e_fr: "\<forall>t. frameType e \<noteq> kDlgFrameUnknown t" using fr by (simp add: e_def)
  have e_str: "str e \<noteq> []" using nonempty by (simp add: e_def)
  have pos: "0 \<le> strMouseLoc st1" by (simp add: st1_def)
  from drawFindSelectionXY_returns [OF e_st e_str pos]
  obtain d' where d': "drawFindSelectionXY env e = Inr d'" by blast
  from drawFindSelectionXY_shape [OF d' e_st]
  obtain px py cw ch mloc where shape:
    "d' = e\<lparr>state := Some (st1\<lparr>lastMouseX := px, lastMouseY := py,
            charWidth := cw, charHeight := ch, strMouseLoc := mloc\<rparr>)\<rparr>" by blast
  define st' where "st' = st1\<lparr>lastMouseX := px, lastMouseY := py,
            charWidth := cw, charHeight := ch, strMouseLoc := mloc\<rparr>"
  have d'_eq: "d' = d\<lparr>state := Some st'\<rparr>" by (simp add: shape e_def st'_def)
  have dr: "draw env [] kDlgDrawFindSelectionPointXY e = Inr (d', [])"
    by (simp add: draw_XY [OF e_st e_fr] d' bindE_def)
  have "moveMouse env delta d st g =
      Inr (g\<lparr>mouseWarps := mouseWarps g @
             [(rectX (loc st) + rectWidth (loc st),
               lastMouseY st' + cdiv (charHeight st') 2)]\<rparr>, d\<lparr>state := Some st'\<rparr>)"
    using True dr by (simp add: moveMouse_def Let_def e_def [symmetric] bindE_def d'_eq)
  moreover have "selectedAction st' = selectedAction st \<and> loc st' = loc st"
    by (simp add: st'_def st1_def)
  ultimately show ?thesis by force
qed

lemma updateSelectedAction_result:
  assumes st: "state d = Some st"
      and fr: "\<forall>t. frameType d \<noteq> kDlgFrameUnknown t" and nonempty: "str d \<noteq> []"
  shows "\<exists>g' st'. updateSelectedAction env self delta (g, d) = Inr (g', d\<lparr>state := Some st'\<rparr>)
           \<and> lastSelectedDialogItemNum g' =
               (let n = length (action d);
                    b0 = (if lastDialogSelectionChangedFor g = None
                          then lastSelectedDialogItemNum g else 0);
                    base = (case selectedAction st of
                              Some i \<Rightarrow> if i < n then int i else b0 | None \<Rightarrow> b0)
                in if n = 0 then s32 (base + delta) else s32 (base + delta) mod int n)
           \<and> lastDialogSelectionChangedFor g' = Some self
           \<and> selectedAction st' = selectedAction st \<and> loc st' = loc st"
proof -
  define g1 where "g1 = claimSelection self g"
  define g2 where "g2 = g1\<lparr>lastSelectedDialogItemNum :=
            (let n = length (action d);
                 base = (case selectedAction st of
                           Some i \<Rightarrow> if i < n then int i else lastSelectedDialogItemNum g1
                         | None \<Rightarrow> lastSelectedDialogItemNum g1)
             in if n = 0 then s32 (base + delta) else s32 (base + delta) mod int n),
          lastDialogSelectionChangedFor := Some self\<rparr>"
  have a: "advanceIndex self delta d st g1 = Inr g2"
    unfolding g2_def by (rule advanceIndex_result)
  have u: "updateSelectedAction env self delta (g, d) = moveMouse env delta d st g2"
    using st by (simp add: updateSelectedAction_def g1_def [symmetric] a bindE_def)
  from moveMouse_result [OF st fr nonempty, of env delta g2]
  obtain g' st' where r: "moveMouse env delta d st g2 = Inr (g', d\<lparr>state := Some st'\<rparr>)"
    "lastSelectedDialogItemNum g' = lastSelectedDialogItemNum g2"
    "lastDialogSelectionChangedFor g' = lastDialogSelectionChangedFor g2"
    "selectedAction st' = selectedAction st" "loc st' = loc st" by blast
  have b: "lastSelectedDialogItemNum g1 = (if lastDialogSelectionChangedFor g = None
                          then lastSelectedDialogItemNum g else 0)"
    by (simp add: g1_def claimSelection_def)
  have "lastSelectedDialogItemNum g2 =
               (let n = length (action d);
                    b0 = (if lastDialogSelectionChangedFor g = None
                          then lastSelectedDialogItemNum g else 0);
                    base = (case selectedAction st of
                              Some i \<Rightarrow> if i < n then int i else b0 | None \<Rightarrow> b0)
                in if n = 0 then s32 (base + delta) else s32 (base + delta) mod int n)"
    unfolding b [symmetric] by (simp add: g2_def Let_def)
  moreover have "lastDialogSelectionChangedFor g2 = Some self" by (simp add: g2_def)
  ultimately show ?thesis using u r by (intro exI [of _ g'] exI [of _ st']) simp
qed

lemma drawFindSelectionTxtOffset_state:
  "state d = Some st \<Longrightarrow> \<exists>y. state (drawFindSelectionTxtOffset env d) = Some y"
  by (simp add: drawFindSelectionTxtOffset_def)

lemma drawFindSelectionXY_state:
  assumes "drawFindSelectionXY env d = Inr d'" and "state d = Some st"
  shows "\<exists>y. state d' = Some y"
  using drawFindSelectionXY_shape [OF assms] by auto

lemma drawType1_state:
  assumes "drawType1 env dst stage d = Inr (d', dst')" and "state d \<noteq> None"
  shows "state d' \<noteq> None"
  using assms
  by (cases stage)
     (auto simp: drawType1_def Let_def bindE_def drawFindSelectionTxtOffset_state
           split: sum.splits intro: drawFindSelectionXY_state)

lemma drawType2_state:
  assumes "drawType2 env dst stage d = Inr (d', dst')" and "state d \<noteq> None"
  shows "state d' \<noteq> None"
  using assms
  by (cases stage)
     (auto simp: drawType2_def drawType2BackgroundDragon_def drawType2BackgroundChina_def
                 Let_def bindE_def split_beta drawFindSelectionTxtOffset_state
           split: sum.splits if_splits intro: drawFindSelectionXY_state)

lemma drawType3_state:
  assumes "drawType3 env dst stage d = Inr (d', dst')" and "state d \<noteq> None"
  shows "state d' \<noteq> None"
  using assms
  by (cases stage)
     (auto simp: drawType3_def drawType3Background_def
                 Let_def bindE_def split_beta drawFindSelectionTxtOffset_state
           split: sum.splits intro: drawFindSelectionXY_state)

lemma drawType4_state:
  assumes "drawType4 env dst stage d = Inr (d', dst')" and "state d \<noteq> None"
  shows "state d' \<noteq> None"
  using assms
  by (cases stage)
     (auto simp: drawType4_def Let_def bindE_def split_beta drawFindSelectionTxtOffset_state
           split: sum.splits intro: drawFindSelectionXY_state)

lemma draw_state:
  assumes "draw env dst stage d = Inr (d', dst')"
  shows "state d' \<noteq> None"
proof -
  define e where "e = (if state d = None then d\<lparr>state := Some newDialogState\<rparr> else d)"
  have st: "state e \<noteq> None" by (simp add: e_def)
  show ?thesis
  proof (cases "frameType e")
    case kDlgFramePlain
    with assms have "drawType1 env dst stage e = Inr (d', dst')"
      by (simp add: draw_def e_def Let_def)
    then show ?thesis using st by (rule drawType1_state)
  next
    case kDlgFrameBorder
    with assms have "drawType2 env dst stage e = Inr (d', dst')"
      by (simp add: draw_def e_def Let_def)
    then show ?thesis using st by (rule drawType2_state)
  next
    case kDlgFrameThought
    with assms have "drawType3 env dst stage e = Inr (d', dst')"
      by (simp add: draw_def e_def Let_def)
    then show ?thesis using st by (rule drawType3_state)
  next
    case kDlgFrameRounded
    with assms have "drawType4 env dst stage e = Inr (d', dst')"
      by (simp add: draw_def e_def Let_def)
    then show ?thesis using st by (rule drawType4_state)
  next
    case (kDlgFrameUnknown t)
    with assms show ?thesis by (simp add: draw_def e_def Let_def)
  qed
qed

section \<open>Drawing before a DialogState exists\<close>

text \<open>
  C9, as stated, fails: a frame draw requested through \<open>Dialog::draw\<close> on a dialog
  without a \<open>DialogState\<close> is not a no-op. For the plain-framed dialog of the spec's
  scenario, the background stage creates the state and draws the two frame rectangles.
\<close>

theorem draw_before_state_counterexample:
  "state directionDialog = None
   \<and> draw (fixedEnv (0, 0)) [] kDlgDrawStageBackground directionDialog
       = Inr (directionDialog\<lparr>state := Some newDialogState\<rparr>,
              [FillRect 10 10 310 110 0, FillRect 11 11 309 109 15])
   \<and> draw (fixedEnv (0, 0)) [] kDlgDrawStageBackground directionDialog
       \<noteq> Inr (directionDialog, [])"
  by (simp add: draw_def directionDialog_def drawType1_def mkRect_def)

text \<open>
  C9, amended: \<open>Dialog::draw\<close> creates a fresh \<open>DialogState\<close> when none exists and
  then runs the requested stage on it, so a dialog that comes back from \<open>draw\<close> always
  has a state. The no-op is a property of the routines behind the dispatcher: each
  frame-style routine (\<open>drawType1\<close> to \<open>drawType4\<close>), at every stage, and the two
  selection routines return at once when entered without a \<open>DialogState\<close>, drawing
  nothing and leaving the dialog as it was.
\<close>

theorem draw_before_state:
  assumes "state d = None"
  shows "drawType1 env dst stage d = Inr (d, dst)
       \<and> drawType2 env dst stage d = Inr (d, dst)
       \<and> drawType3 env dst stage d = Inr (d, dst)
       \<and> drawType4 env dst stage d = Inr (d, dst)
       \<and> drawFindSelectionXY env d = Inr d
       \<and> drawFindSelectionTxtOffset env d = d
       \<and> draw env dst stage d = draw env dst stage (d\<lparr>state := Some newDialogState\<rparr>)
       \<and> (\<forall>d' dst'. draw env dst stage d = Inr (d', dst') \<longrightarrow> state d' \<noteq> None)"
proof -
  have "drawType1 env dst stage d = Inr (d, dst)"
    using assms by (simp add: drawType1_def)
  moreover have "drawType2 env dst stage d = Inr (d, dst)"
    using assms by (simp add: drawType2_def)
  moreover have "drawType3 env dst stage d = Inr (d, dst)"
    using assms by (simp add: drawType3_def)
  moreover have "drawType4 env dst stage d = Inr (d, dst)"
    using assms by (simp add: drawType4_def)
  moreover have "drawFindSelectionXY env d = Inr d"
    using assms by (simp add: drawFindSelectionXY_def)
  moreover have "drawFindSelectionTxtOffset env d = d"
    using assms by (simp add: drawFindSelectionTxtOffset_def)
  moreover have "draw env dst stage d = draw env dst stage (d\<lparr>state := Some newDialogState\<rparr>)"
    using assms by (simp add: draw_def)
  moreover have "\<forall>d' dst'. draw env dst stage d = Inr (d', dst') \<longrightarrow> state d' \<noteq> None"
    using draw_state by blast
  ultimately show ?thesis by blast
qed

text \<open>The amended C9 at the undrawn dialog of the spec's scenario.\<close>

theorem draw_before_state_witness:
  "state directionDialog = None
   \<and> drawType1 (fixedEnv (0, 0)) [] kDlgDrawStageBackground directionDialog
       = Inr (directionDialog, [])
   \<and> drawType4 (fixedEnv (0, 0)) [] kDlgDrawStageForeground directionDialog
       = Inr (directionDialog, [])
   \<and> draw (fixedEnv (0, 0)) [] kDlgDrawStageBackground directionDialog
       = Inr (directionDialog\<lparr>state := Some newDialogState\<rparr>,
              [FillRect 10 10 310 110 0, FillRect 11 11 309 109 15])
   \<and> state (directionDialog\<lparr>state := Some newDialogState\<rparr>) \<noteq> None"
proof -
  have h: "state directionDialog = None" by (simp add: directionDialog_def)
  have e: "draw (fixedEnv (0, 0)) [] kDlgDrawStageBackground directionDialog
       = Inr (directionDialog\<lparr>state := Some newDialogState\<rparr>,
              [FillRect 10 10 310 110 0, FillRect 11 11 309 109 15])"
    by (simp add: draw_def directionDialog_def drawType1_def mkRect_def)
  from draw_before_state [OF h, of "fixedEnv (0, 0)" "[]" kDlgDrawStageBackground]
       draw_before_state [OF h, of "fixedEnv (0, 0)" "[]" kDlgDrawStageForeground]
       h e
  show ?thesis by simp
qed

section \<open>Advancing the selection on a dialog without actions\<close>

text \<open>
  C10, amended: for every \<open>delta\<close>, negative ones included, \<open>updateSelectedAction\<close> on a
  dialog with an empty action list completes (the remainder by the action count is
  never taken, so no division by zero) and leaves the dialog as it was. The shared
  index becomes \<open>base + delta\<close>, the sum of two 32-bit \<open>int\<close>s and not wrapped by any
  action count, where \<open>base\<close> is the previous index if no dialog owned the "last
  changed" marker and 0 otherwise; this needs a \<open>DialogState\<close>: without one the call
  returns before the addition and the index is just \<open>base\<close>.
\<close>

theorem updateSelectedAction_no_actions:
  assumes "action d = []"
  shows "\<exists>g'. updateSelectedAction env self delta (g, d) = Inr (g', d)
           \<and> lastSelectedDialogItemNum g' =
               (if state d = None
                then (if lastDialogSelectionChangedFor g = None
                      then lastSelectedDialogItemNum g else 0)
                else s32 ((if lastDialogSelectionChangedFor g = None
                           then lastSelectedDialogItemNum g else 0) + delta))"
proof (cases "state d")
  case None
  then show ?thesis
    by (simp add: updateSelectedAction_def claimSelection_def)
next
  case (Some st)
  define g1 where "g1 = claimSelection self g"
  define g2 where "g2 = g1\<lparr>lastSelectedDialogItemNum :=
                            s32 (lastSelectedDialogItemNum g1 + delta),
                          lastDialogSelectionChangedFor := Some self\<rparr>"
  have a: "advanceIndex self delta d st g1 = Inr g2"
    using assms by (simp add: advanceIndex_result g2_def Let_def split: option.splits)
  have m: "\<exists>g'. moveMouse env delta d st g2 = Inr (g', d)
              \<and> lastSelectedDialogItemNum g' = lastSelectedDialogItemNum g2"
    using assms by (simp add: moveMouse_def Let_def)
  have u: "updateSelectedAction env self delta (g, d) = moveMouse env delta d st g2"
    using Some by (simp add: updateSelectedAction_def g1_def [symmetric] a bindE_def)
  have i: "lastSelectedDialogItemNum g2 =
             s32 ((if lastDialogSelectionChangedFor g = None
                   then lastSelectedDialogItemNum g else 0) + delta)"
    by (simp add: g2_def g1_def claimSelection_def)
  from m u i Some show ?thesis by auto
qed

text \<open>
  C10, as stated, fails: the index does not always become its previous value plus
  \<open>delta\<close>. With previous index 3 and \<open>delta = 1\<close>, a drawn dialog without actions ends
  at 1 when another dialog owned the marker (the index is reset first), and an undrawn
  one stays at 3 (the call returns before the addition).
\<close>

theorem updateSelectedAction_no_actions_counterexample:
  "indexAfter (updateSelectedAction (fixedEnv (0, 0)) 1 1
      (\<lparr>lastSelectedDialogItemNum = 3, lastDialogSelectionChangedFor = Some 2,
        mouseWarps = []\<rparr>, drawnDirectionDialog\<lparr>action := []\<rparr>)) = Some 1
   \<and> indexAfter (updateSelectedAction (fixedEnv (0, 0)) 1 1
      (\<lparr>lastSelectedDialogItemNum = 3, lastDialogSelectionChangedFor = Some 2,
        mouseWarps = []\<rparr>, drawnDirectionDialog\<lparr>action := []\<rparr>)) \<noteq> Some (3 + 1)
   \<and> indexAfter (updateSelectedAction (fixedEnv (0, 0)) 1 1
      (\<lparr>lastSelectedDialogItemNum = 3, lastDialogSelectionChangedFor = None,
        mouseWarps = []\<rparr>, directionDialog\<lparr>action := []\<rparr>)) = Some 3
   \<and> indexAfter (updateSelectedAction (fixedEnv (0, 0)) 1 1
      (\<lparr>lastSelectedDialogItemNum = 3, lastDialogSelectionChangedFor = None,
        mouseWarps = []\<rparr>, directionDialog\<lparr>action := []\<rparr>)) \<noteq> Some (3 + 1)"
  by (simp add: indexAfter_def updateSelectedAction_def claimSelection_def advanceIndex_def
        moveMouse_def umod_def bindE_def Let_def drawnDirectionDialog_def directionDialog_def
        newDialogState_def s32_def)

text \<open>The amended C10 at a drawn dialog without actions, with \<open>delta = -5\<close>.\<close>

theorem updateSelectedAction_no_actions_witness:
  "action (drawnDirectionDialog\<lparr>action := []\<rparr>) = []
   \<and> indexAfter (updateSelectedAction (fixedEnv (0, 0)) 1 (- 5)
        (unselected, drawnDirectionDialog\<lparr>action := []\<rparr>)) = Some (- 5)"
proof -
  have h: "action (drawnDirectionDialog\<lparr>action := []\<rparr>) = []" by simp
  from updateSelectedAction_no_actions [OF h, of "fixedEnv (0, 0)" 1 "- 5" unselected]
  show ?thesis
    by (auto simp: indexAfter_def unselected_def drawnDirectionDialog_def s32_def)
qed

section \<open>The selection scenario\<close>

lemma drawnDirectionDialog_facts:
  "state drawnDirectionDialog = Some (newDialogState\<lparr>loc := mkRect 13 13 294 94\<rparr>)"
  "length (action drawnDirectionDialog) = 2"
  "\<forall>t. frameType drawnDirectionDialog \<noteq> kDlgFrameUnknown t"
  "str drawnDirectionDialog \<noteq> []"
  by (simp_all add: drawnDirectionDialog_def directionDialog_def)

text \<open>
  One call on a dialog that differs from the drawn scenario dialog only in its state.
\<close>

lemma direction_step:
  assumes own: "lastDialogSelectionChangedFor g = None \<longrightarrow> lastSelectedDialogItemNum g = 0"
  shows "\<exists>g' st'. updateSelectedAction env self 1 (g, drawnDirectionDialog\<lparr>state := Some st\<rparr>)
                     = Inr (g', drawnDirectionDialog\<lparr>state := Some st'\<rparr>)
           \<and> lastSelectedDialogItemNum g' =
               (case selectedAction st of
                  Some i \<Rightarrow> if i < 2 then (int i + 1) mod 2 else 1
                | None \<Rightarrow> 1)
           \<and> lastDialogSelectionChangedFor g' = Some self
           \<and> selectedAction st' = selectedAction st"
proof -
  let ?d = "drawnDirectionDialog\<lparr>state := Some st\<rparr>"
  have a: "state ?d = Some st" by simp
  have b: "\<forall>t. frameType ?d \<noteq> kDlgFrameUnknown t"
    using drawnDirectionDialog_facts(3) by simp
  have c: "str ?d \<noteq> []" using drawnDirectionDialog_facts(4) by simp
  from updateSelectedAction_result [OF a b c, of env self 1 g]
  obtain g' st' where r:
    "updateSelectedAction env self 1 (g, ?d) = Inr (g', ?d\<lparr>state := Some st'\<rparr>)"
    "lastSelectedDialogItemNum g' =
               (let n = length (action ?d);
                    b0 = (if lastDialogSelectionChangedFor g = None
                          then lastSelectedDialogItemNum g else 0);
                    base = (case selectedAction st of
                              Some i \<Rightarrow> if i < n then int i else b0 | None \<Rightarrow> b0)
                in if n = 0 then s32 (base + 1) else s32 (base + 1) mod int n)"
    "lastDialogSelectionChangedFor g' = Some self"
    "selectedAction st' = selectedAction st" by blast
  have b0: "(if lastDialogSelectionChangedFor g = None
                          then lastSelectedDialogItemNum g else 0) = 0"
    using own by simp
  have "lastSelectedDialogItemNum g' =
               (case selectedAction st of
                  Some i \<Rightarrow> if i < 2 then (int i + 1) mod 2 else 1
                | None \<Rightarrow> 1)"
    unfolding r(2) b0
    by (simp add: drawnDirectionDialog_facts(2) Let_def s32_id fitsInt_def
             split: option.splits)
  with r show ?thesis by (intro exI [of _ g'] exI [of _ st']) simp
qed


text \<open>
  C6, as stated, fails at its first step: from the unselected state (index 0, no owner
  of the marker, no selected action) the first \<open>updateSelectedAction(1)\<close> on the
  two-action dialog claims the marker without resetting the index and then adds 1, so
  it selects index 1, not index 0.
\<close>

theorem direction_scenario_counterexample:
  "indexAfter (updateSelectedAction (fixedEnv (0, 0)) 1 1 (unselected, drawnDirectionDialog))
     = Some 1
   \<and> indexAfter (updateSelectedAction (fixedEnv (0, 0)) 1 1 (unselected, drawnDirectionDialog))
     \<noteq> Some 0"
proof -
  have u: "lastDialogSelectionChangedFor unselected = None
             \<longrightarrow> lastSelectedDialogItemNum unselected = 0"
    by (simp add: unselected_def)
  have s: "drawnDirectionDialog\<lparr>state := Some (newDialogState\<lparr>loc := mkRect 13 13 294 94\<rparr>)\<rparr>
             = drawnDirectionDialog"
    by (simp add: drawnDirectionDialog_def)
  from direction_step [OF u, of "fixedEnv (0, 0)" 1 "newDialogState\<lparr>loc := mkRect 13 13 294 94\<rparr>"]
  show ?thesis
    unfolding s by (auto simp: indexAfter_def newDialogState_def)
qed

text \<open>
  C6, amended: starting from the unselected state on the dialog with exactly two
  actions, for every engine environment, the first \<open>updateSelectedAction(1)\<close> call
  sets the index to 1. \<open>updateSelectedAction\<close> does not store the selected action, so a
  second and a third call made with the selected action still unset reset the index
  and land on 1 again. When the action at the current index is stored as the selected
  action between the calls, the second call wraps to index 0 and the third returns to
  index 1.
\<close>

theorem direction_scenario:
  "indexAfter (updateSelectedAction env self 1 (unselected, drawnDirectionDialog)) = Some 1
   \<and> indexAfter (bindE (updateSelectedAction env self 1 (unselected, drawnDirectionDialog))
        (updateSelectedAction env self 1)) = Some 1
   \<and> indexAfter (bindE (bindE (updateSelectedAction env self 1 (unselected, drawnDirectionDialog))
        (updateSelectedAction env self 1)) (updateSelectedAction env self 1)) = Some 1
   \<and> indexAfter (bindE (updateSelectedAction env self 1 (unselected, drawnDirectionDialog))
        (\<lambda>gd. updateSelectedAction env self 1 (fst gd, withSelected 1 (snd gd)))) = Some 0
   \<and> indexAfter (bindE (bindE (updateSelectedAction env self 1 (unselected, drawnDirectionDialog))
        (\<lambda>gd. updateSelectedAction env self 1 (fst gd, withSelected 1 (snd gd))))
        (\<lambda>gd. updateSelectedAction env self 1 (fst gd, withSelected 0 (snd gd)))) = Some 1"
proof -
  let ?D = drawnDirectionDialog
  let ?st0 = "newDialogState\<lparr>loc := mkRect 13 13 294 94\<rparr>"
  have u: "lastDialogSelectionChangedFor unselected = None
             \<longrightarrow> lastSelectedDialogItemNum unselected = 0"
    by (simp add: unselected_def)
  have s: "?D\<lparr>state := Some ?st0\<rparr> = ?D" by (simp add: drawnDirectionDialog_def)
  have sel0: "selectedAction ?st0 = None" by (simp add: newDialogState_def)
  from direction_step [OF u, of env self ?st0]
  obtain g1 st1 where r1:
    "updateSelectedAction env self 1 (unselected, ?D) = Inr (g1, ?D\<lparr>state := Some st1\<rparr>)"
    "lastSelectedDialogItemNum g1 = 1" "lastDialogSelectionChangedFor g1 = Some self"
    "selectedAction st1 = None"
    unfolding s by (auto simp: sel0)
  have o1: "lastDialogSelectionChangedFor g1 = None \<longrightarrow> lastSelectedDialogItemNum g1 = 0"
    using r1(3) by simp
  from direction_step [OF o1, of env self st1]
  obtain g2 st2 where r2:
    "updateSelectedAction env self 1 (g1, ?D\<lparr>state := Some st1\<rparr>)
       = Inr (g2, ?D\<lparr>state := Some st2\<rparr>)"
    "lastSelectedDialogItemNum g2 = 1" "lastDialogSelectionChangedFor g2 = Some self"
    "selectedAction st2 = None"
    by (auto simp: r1(4))
  have o2: "lastDialogSelectionChangedFor g2 = None \<longrightarrow> lastSelectedDialogItemNum g2 = 0"
    using r2(3) by simp
  from direction_step [OF o2, of env self st2]
  obtain g3 st3 where r3:
    "updateSelectedAction env self 1 (g2, ?D\<lparr>state := Some st2\<rparr>)
       = Inr (g3, ?D\<lparr>state := Some st3\<rparr>)"
    "lastSelectedDialogItemNum g3 = 1"
    by (auto simp: r2(4))
  have w1: "withSelected 1 (?D\<lparr>state := Some st1\<rparr>)
              = ?D\<lparr>state := Some (st1\<lparr>selectedAction := Some 1\<rparr>)\<rparr>"
    by (simp add: withSelected_def)
  from direction_step [OF o1, of env self "st1\<lparr>selectedAction := Some 1\<rparr>"]
  obtain h2 t2 where q2:
    "updateSelectedAction env self 1 (g1, ?D\<lparr>state := Some (st1\<lparr>selectedAction := Some 1\<rparr>)\<rparr>)
       = Inr (h2, ?D\<lparr>state := Some t2\<rparr>)"
    "lastSelectedDialogItemNum h2 = 0" "lastDialogSelectionChangedFor h2 = Some self"
    by auto
  have p2: "lastDialogSelectionChangedFor h2 = None \<longrightarrow> lastSelectedDialogItemNum h2 = 0"
    using q2(3) by simp
  have w2: "withSelected 0 (?D\<lparr>state := Some t2\<rparr>)
              = ?D\<lparr>state := Some (t2\<lparr>selectedAction := Some 0\<rparr>)\<rparr>"
    by (simp add: withSelected_def)
  from direction_step [OF p2, of env self "t2\<lparr>selectedAction := Some 0\<rparr>"]
  obtain h3 t3 where q3:
    "updateSelectedAction env self 1 (h2, ?D\<lparr>state := Some (t2\<lparr>selectedAction := Some 0\<rparr>)\<rparr>)
       = Inr (h3, ?D\<lparr>state := Some t3\<rparr>)"
    "lastSelectedDialogItemNum h3 = 1"
    by auto
  show ?thesis
    by (simp only: indexAfter_def bindE_def r1 r2 r3 w1 q2 w2 q3 sum.case fst_conv snd_conv
                   simp_thms)
qed

section \<open>Wrap-around of the selection\<close>

lemma updateSelectedAction_index:
  assumes st: "state d = Some st" and act: "action d \<noteq> []"
      and fr: "\<forall>t. frameType d \<noteq> kDlgFrameUnknown t" and nonempty: "str d \<noteq> []"
  shows "\<exists>g' st'. updateSelectedAction env self delta (g, d) = Inr (g', d\<lparr>state := Some st'\<rparr>)
           \<and> lastSelectedDialogItemNum g'
               = s32 (selectionBase d st g + delta) mod int (length (action d))"
proof -
  from updateSelectedAction_result [OF st fr nonempty, of env self delta g]
  obtain g' st' where r:
    "updateSelectedAction env self delta (g, d) = Inr (g', d\<lparr>state := Some st'\<rparr>)"
    "lastSelectedDialogItemNum g' =
               (let n = length (action d);
                    b0 = (if lastDialogSelectionChangedFor g = None
                          then lastSelectedDialogItemNum g else 0);
                    base = (case selectedAction st of
                              Some i \<Rightarrow> if i < n then int i else b0 | None \<Rightarrow> b0)
                in if n = 0 then s32 (base + delta) else s32 (base + delta) mod int n)"
    by blast
  have "lastSelectedDialogItemNum g'
          = s32 (selectionBase d st g + delta) mod int (length (action d))"
    unfolding r(2) using act by (simp add: Let_def selectionBase_def)
  with r(1) show ?thesis by blast
qed

lemma advanceSelected_index:
  assumes act: "action d \<noteq> []"
      and fr: "\<forall>t. frameType d \<noteq> kDlgFrameUnknown t" and nonempty: "str d \<noteq> []"
      and dl: "fitsInt delta" and dh: "fitsInt (delta + int (length (action d)) - 1)"
      and lo: "0 \<le> lastSelectedDialogItemNum g"
      and hi: "lastSelectedDialogItemNum g < int (length (action d))"
  shows "\<exists>g' st'. advanceSelected env self delta k (g, d\<lparr>state := Some st\<rparr>)
                     = Inr (g', d\<lparr>state := Some st'\<rparr>)
           \<and> lastSelectedDialogItemNum g' =
               (lastSelectedDialogItemNum g + int k * delta) mod int (length (action d))"
  using lo hi
proof (induction k arbitrary: g st)
  case 0
  then show ?case by (intro exI [of _ g] exI [of _ st]) simp
next
  case (Suc k)
  let ?n = "length (action d)"
  let ?i = "lastSelectedDialogItemNum g"
  let ?st1 = "st\<lparr>selectedAction := Some (nat ?i)\<rparr>"
  let ?d1 = "d\<lparr>state := Some ?st1\<rparr>"
  have w: "withSelected (nat ?i) (d\<lparr>state := Some st\<rparr>) = ?d1"
    by (simp add: withSelected_def)
  have a: "state ?d1 = Some ?st1" by simp
  have a': "action ?d1 \<noteq> []" using act by simp
  have b: "\<forall>t. frameType ?d1 \<noteq> kDlgFrameUnknown t" using fr by simp
  have c: "str ?d1 \<noteq> []" using nonempty by simp
  from updateSelectedAction_index [OF a a' b c, of env self delta g]
  obtain g1 st1 where r:
    "updateSelectedAction env self delta (g, ?d1) = Inr (g1, ?d1\<lparr>state := Some st1\<rparr>)"
    "lastSelectedDialogItemNum g1
       = s32 (selectionBase ?d1 ?st1 g + delta) mod int (length (action ?d1))"
    by blast
  have lt: "nat ?i < ?n" using Suc.prems by simp
  have base: "selectionBase ?d1 ?st1 g = ?i"
    using lt Suc.prems by (simp add: selectionBase_def)
  have fits: "fitsInt (?i + delta)"
    using dl dh Suc.prems by (simp add: fitsInt_def)
  have i1: "lastSelectedDialogItemNum g1 = (?i + delta) mod int ?n"
    unfolding r(2) base by (simp add: s32_id [OF fits])
  have n0: "0 < int ?n" using act by simp
  have lo1: "0 \<le> lastSelectedDialogItemNum g1" unfolding i1 using n0 by simp
  have hi1: "lastSelectedDialogItemNum g1 < int ?n" unfolding i1 using n0 by simp
  from Suc.IH [OF lo1 hi1, of st1]
  obtain g' st' where ih:
    "advanceSelected env self delta k (g1, d\<lparr>state := Some st1\<rparr>)
       = Inr (g', d\<lparr>state := Some st'\<rparr>)"
    "lastSelectedDialogItemNum g' =
       (lastSelectedDialogItemNum g1 + int k * delta) mod int ?n" by blast
  have e: "?d1\<lparr>state := Some st1\<rparr> = d\<lparr>state := Some st1\<rparr>" by simp
  have run: "advanceSelected env self delta (Suc k) (g, d\<lparr>state := Some st\<rparr>)
               = Inr (g', d\<lparr>state := Some st'\<rparr>)"
    by (simp only: advanceSelected.simps fst_conv snd_conv w r(1) e bindE_def sum.case ih(1))
  have "(lastSelectedDialogItemNum g1 + int k * delta) mod int ?n
          = (?i + int (Suc k) * delta) mod int ?n"
  proof -
    have "((?i + delta) mod int ?n + int k * delta) mod int ?n
            = ((?i + delta) + int k * delta) mod int ?n"
      by (rule mod_add_left_eq)
    also have "(?i + delta) + int k * delta = ?i + int (Suc k) * delta"
      by (simp add: algebra_simps)
    finally show ?thesis unfolding i1 .
  qed
  with ih(2) run show ?case by (intro exI [of _ g'] exI [of _ st']) simp
qed

text \<open>
  C5, amended: for a dialog with \<open>n \<ge> 1\<close> actions whose \<open>DialogState\<close> exists (with a
  known frame style and a non-empty display string, so that the pointer can be
  placed), one call of \<open>updateSelectedAction\<close> completes and leaves the shared index
  in \<open>0..n-1\<close>, also for negative \<open>delta\<close>; the index is \<open>(base + delta) mod n\<close> whenever
  \<open>base + delta\<close> fits a 32-bit \<open>int\<close>, the type in which the sum is formed before it is
  wrapped. Here \<open>base\<close> is the index of the state's selected action when that is one of
  the dialog's actions; otherwise it is the previous shared index if no dialog owned
  the "last changed" marker, and 0 if one did. Consequently \<open>n\<close> calls with the same
  \<open>delta\<close>, an \<open>int\<close> for which \<open>delta + n - 1\<close> is an \<open>int\<close> too, each made with the
  selected action being the action at the current shared index, return the index to
  its original value.
\<close>

theorem advance_wraps:
  assumes st: "state d = Some st" and act: "action d \<noteq> []"
      and fr: "\<forall>t. frameType d \<noteq> kDlgFrameUnknown t" and nonempty: "str d \<noteq> []"
  shows "(\<exists>g' st'. updateSelectedAction env self delta (g, d) = Inr (g', d\<lparr>state := Some st'\<rparr>)
            \<and> 0 \<le> lastSelectedDialogItemNum g'
            \<and> lastSelectedDialogItemNum g' < int (length (action d))
            \<and> (fitsInt (selectionBase d st g + delta)
                 \<longrightarrow> lastSelectedDialogItemNum g'
                       = (selectionBase d st g + delta) mod int (length (action d))))
       \<and> (0 \<le> lastSelectedDialogItemNum g
            \<and> lastSelectedDialogItemNum g < int (length (action d))
            \<and> fitsInt delta \<and> fitsInt (delta + int (length (action d)) - 1)
          \<longrightarrow> indexAfter (advanceSelected env self delta (length (action d)) (g, d))
                = Some (lastSelectedDialogItemNum g))"
proof
  from updateSelectedAction_index [OF st act fr nonempty, of env self delta g]
  obtain g' st' where r:
    "updateSelectedAction env self delta (g, d) = Inr (g', d\<lparr>state := Some st'\<rparr>)"
    "lastSelectedDialogItemNum g'
       = s32 (selectionBase d st g + delta) mod int (length (action d))"
    by blast
  have n0: "0 < int (length (action d))" using act by simp
  have lo: "0 \<le> lastSelectedDialogItemNum g'" unfolding r(2) using n0 by simp
  have hi: "lastSelectedDialogItemNum g' < int (length (action d))"
    unfolding r(2) using n0 by simp
  have eq: "fitsInt (selectionBase d st g + delta)
              \<longrightarrow> lastSelectedDialogItemNum g'
                    = (selectionBase d st g + delta) mod int (length (action d))"
    unfolding r(2) by (simp add: s32_id)
  from r(1) lo hi eq
  show "\<exists>g' st'. updateSelectedAction env self delta (g, d) = Inr (g', d\<lparr>state := Some st'\<rparr>)
            \<and> 0 \<le> lastSelectedDialogItemNum g'
            \<and> lastSelectedDialogItemNum g' < int (length (action d))
            \<and> (fitsInt (selectionBase d st g + delta)
                 \<longrightarrow> lastSelectedDialogItemNum g'
                       = (selectionBase d st g + delta) mod int (length (action d)))"
    by blast
next
  show "0 \<le> lastSelectedDialogItemNum g
            \<and> lastSelectedDialogItemNum g < int (length (action d))
            \<and> fitsInt delta \<and> fitsInt (delta + int (length (action d)) - 1)
          \<longrightarrow> indexAfter (advanceSelected env self delta (length (action d)) (g, d))
                = Some (lastSelectedDialogItemNum g)"
  proof
    assume rng: "0 \<le> lastSelectedDialogItemNum g
            \<and> lastSelectedDialogItemNum g < int (length (action d))
            \<and> fitsInt delta \<and> fitsInt (delta + int (length (action d)) - 1)"
    then have dl: "fitsInt delta" and dh: "fitsInt (delta + int (length (action d)) - 1)"
      and lo: "0 \<le> lastSelectedDialogItemNum g"
      and hi: "lastSelectedDialogItemNum g < int (length (action d))"
      by simp_all
    have same: "d\<lparr>state := Some st\<rparr> = d" using st by simp
    from advanceSelected_index [OF act fr nonempty dl dh lo hi,
           of env self "length (action d)" st]
    obtain g' st' where r:
      "advanceSelected env self delta (length (action d)) (g, d) = Inr (g', d\<lparr>state := Some st'\<rparr>)"
      "lastSelectedDialogItemNum g' =
         (lastSelectedDialogItemNum g + int (length (action d)) * delta)
           mod int (length (action d))"
      unfolding same by blast
    have "lastSelectedDialogItemNum g' = lastSelectedDialogItemNum g"
      unfolding r(2) using lo hi by simp
    with r(1) show "indexAfter (advanceSelected env self delta (length (action d)) (g, d))
                = Some (lastSelectedDialogItemNum g)"
      by (simp add: indexAfter_def)
  qed
qed


text \<open>
  C5, as stated, fails in two ways. First, \<open>n\<close> bare calls do not return to the
  original index: on the two-action dialog, starting at index 0 with nothing selected,
  two calls with \<open>delta = 1\<close> end at index 1, because every call after the first resets
  the index to 0 before adding \<open>delta\<close>. Second, a call does not always add \<open>delta\<close> and
  wrap modulo \<open>n\<close>: with three actions, the second one selected and
  \<open>delta = 2147483647\<close>, the sum does not fit an \<open>int\<close>; the 32-bit addition gives
  \<open>-2147483648\<close>, which the loop and the remainder bring to index 1, where
  \<open>(1 + 2147483647) mod 3\<close> is 2.
\<close>

theorem advance_wraps_counterexample:
  "indexAfter (bindE (updateSelectedAction (fixedEnv (0, 0)) 1 1 (unselected, drawnDirectionDialog))
                 (updateSelectedAction (fixedEnv (0, 0)) 1 1)) = Some 1
   \<and> indexAfter (bindE (updateSelectedAction (fixedEnv (0, 0)) 1 1
                          (unselected, drawnDirectionDialog))
                 (updateSelectedAction (fixedEnv (0, 0)) 1 1))
       \<noteq> Some (lastSelectedDialogItemNum unselected)
   \<and> length (action drawnDirectionDialog) = 2
   \<and> indexAfter (updateSelectedAction (fixedEnv (0, 0)) 1 2147483647
        (unselected,
         withSelected 1 (drawnDirectionDialog
           \<lparr>action := [\<lparr>strStart = 1, strEnd = 4, sceneOpList = []\<rparr>,
                       \<lparr>strStart = 19, strEnd = 26, sceneOpList = []\<rparr>,
                       \<lparr>strStart = 28, strEnd = 35, sceneOpList = []\<rparr>]\<rparr>))) = Some 1
   \<and> (1 + 2147483647) mod (3 :: int) = 2"
proof -
  let ?D = drawnDirectionDialog
  let ?st0 = "newDialogState\<lparr>loc := mkRect 13 13 294 94\<rparr>"
  let ?env = "fixedEnv (0, 0)"
  have u: "lastDialogSelectionChangedFor unselected = None
             \<longrightarrow> lastSelectedDialogItemNum unselected = 0"
    by (simp add: unselected_def)
  have s: "?D\<lparr>state := Some ?st0\<rparr> = ?D" by (simp add: drawnDirectionDialog_def)
  have sel0: "selectedAction ?st0 = None" by (simp add: newDialogState_def)
  from direction_step [OF u, of ?env 1 ?st0]
  obtain g1 st1 where r1:
    "updateSelectedAction ?env 1 1 (unselected, ?D) = Inr (g1, ?D\<lparr>state := Some st1\<rparr>)"
    "lastDialogSelectionChangedFor g1 = Some 1" "selectedAction st1 = None"
    unfolding s by (auto simp: sel0)
  have o1: "lastDialogSelectionChangedFor g1 = None \<longrightarrow> lastSelectedDialogItemNum g1 = 0"
    using r1(2) by simp
  from direction_step [OF o1, of ?env 1 st1]
  obtain g2 st2 where r2:
    "updateSelectedAction ?env 1 1 (g1, ?D\<lparr>state := Some st1\<rparr>)
       = Inr (g2, ?D\<lparr>state := Some st2\<rparr>)"
    "lastSelectedDialogItemNum g2 = 1"
    by (auto simp: r1(3))
  have bare: "indexAfter (bindE (updateSelectedAction ?env 1 1 (unselected, ?D))
                 (updateSelectedAction ?env 1 1)) = Some 1"
    by (simp only: indexAfter_def bindE_def r1 r2 sum.case fst_conv)
  let ?acts = "[\<lparr>strStart = 1, strEnd = 4, sceneOpList = []\<rparr>,
                \<lparr>strStart = 19, strEnd = 26, sceneOpList = []\<rparr>,
                \<lparr>strStart = 28, strEnd = 35, sceneOpList = []\<rparr>]"
  let ?st3 = "?st0\<lparr>selectedAction := Some 1\<rparr>"
  let ?T = "?D\<lparr>action := ?acts, state := Some ?st3\<rparr>"
  have wT: "withSelected 1 (?D\<lparr>action := ?acts\<rparr>) = ?T"
    by (simp add: withSelected_def drawnDirectionDialog_def)
  have t1: "state ?T = Some ?st3" by simp
  have t2: "action ?T \<noteq> []" by simp
  have t3: "\<forall>t. frameType ?T \<noteq> kDlgFrameUnknown t"
    using drawnDirectionDialog_facts(3) by simp
  have t4: "str ?T \<noteq> []" using drawnDirectionDialog_facts(4) by simp
  from updateSelectedAction_index [OF t1 t2 t3 t4, of ?env 1 2147483647 unselected]
  obtain g3 st4 where r3:
    "updateSelectedAction ?env 1 2147483647 (unselected, ?T) = Inr (g3, ?T\<lparr>state := Some st4\<rparr>)"
    "lastSelectedDialogItemNum g3
       = s32 (selectionBase ?T ?st3 unselected + 2147483647) mod int (length (action ?T))"
    by blast
  have i3: "lastSelectedDialogItemNum g3 = 1"
    unfolding r3(2) by (simp add: selectionBase_def s32_def)
  have over: "indexAfter (updateSelectedAction ?env 1 2147483647
                     (unselected, withSelected 1 (?D\<lparr>action := ?acts\<rparr>))) = Some 1"
    by (simp only: wT r3(1) indexAfter_def sum.case fst_conv i3)
  from bare over show ?thesis
    by (simp add: unselected_def drawnDirectionDialog_facts(2))
qed

text \<open>The amended C5 at the two-action dialog with \<open>delta = -1\<close>.\<close>

theorem advance_wraps_witness:
  "state drawnDirectionDialog = Some (newDialogState\<lparr>loc := mkRect 13 13 294 94\<rparr>)
   \<and> action drawnDirectionDialog \<noteq> []
   \<and> frameType drawnDirectionDialog = kDlgFramePlain
   \<and> str drawnDirectionDialog \<noteq> []
   \<and> fitsInt (selectionBase drawnDirectionDialog
                 (newDialogState\<lparr>loc := mkRect 13 13 294 94\<rparr>) unselected + (- 1))
   \<and> fitsInt (- 1) \<and> fitsInt (- 1 + int (length (action drawnDirectionDialog)) - 1)
   \<and> indexAfter (updateSelectedAction (fixedEnv (0, 0)) 1 (- 1)
                    (unselected, drawnDirectionDialog)) = Some 1
   \<and> indexAfter (advanceSelected (fixedEnv (0, 0)) 1 (- 1) 2
                    (unselected, drawnDirectionDialog)) = Some 0"
proof -
  let ?st0 = "newDialogState\<lparr>loc := mkRect 13 13 294 94\<rparr>"
  have a: "state drawnDirectionDialog = Some ?st0"
    by (rule drawnDirectionDialog_facts(1))
  have b: "action drawnDirectionDialog \<noteq> []"
    using drawnDirectionDialog_facts(2) by auto
  have c: "\<forall>t. frameType drawnDirectionDialog \<noteq> kDlgFrameUnknown t"
    by (rule drawnDirectionDialog_facts(3))
  have d: "str drawnDirectionDialog \<noteq> []" by (rule drawnDirectionDialog_facts(4))
  have p: "frameType drawnDirectionDialog = kDlgFramePlain"
    by (simp add: drawnDirectionDialog_def directionDialog_def)
  have base: "selectionBase drawnDirectionDialog ?st0 unselected = 0"
    by (simp add: selectionBase_def unselected_def newDialogState_def)
  have f1: "fitsInt (selectionBase drawnDirectionDialog ?st0 unselected + (- 1))"
    unfolding base by (simp add: fitsInt_def)
  have f2: "fitsInt (- 1)" by (simp add: fitsInt_def)
  have f3: "fitsInt (- 1 + int (length (action drawnDirectionDialog)) - 1)"
    by (simp add: fitsInt_def drawnDirectionDialog_facts(2))
  from advance_wraps [OF a b c d, of "fixedEnv (0, 0)" 1 "- 1" unselected] f1 f2 f3
  have "indexAfter (updateSelectedAction (fixedEnv (0, 0)) 1 (- 1)
                    (unselected, drawnDirectionDialog)) = Some 1
   \<and> indexAfter (advanceSelected (fixedEnv (0, 0)) 1 (- 1) 2
                    (unselected, drawnDirectionDialog)) = Some 0"
    unfolding base
    by (auto simp: indexAfter_def unselected_def drawnDirectionDialog_facts(2))
  with a b p d f1 f2 f3 show ?thesis by simp
qed

section \<open>Picking an action\<close>

lemma findAction_firstHit:
  assumes "underMouse = (if 0 \<le> off \<and> off < int (length s) then s ! nat off else CHR 0x00)"
  shows "findAction s off underMouse as k
           = Inr (map_option fst (List.find (\<lambda>ia. actionHit s off (snd ia)) (enumerate k as)))"
proof (induction as arbitrary: k)
  case Nil
  show ?case by simp
next
  case (Cons a as)
  show ?case
  proof (cases "int (strStart a) \<le> off \<and> off \<le> int (strEnd a)")
    case True
    then show ?thesis by (simp add: actionHit_def)
  next
    case out: False
    show ?thesis
    proof (cases "off = int (strEnd a) + 1 \<and> underMouse = CHR 0x0D")
      case True
      then have rng: "0 \<le> off \<and> off < int (length s)"
        using assms by (auto split: if_splits)
      then have at: "strAt s (int (strEnd a)) = Inr (s ! strEnd a)"
        using True by (simp add: strAt_def)
      have u1: "underMouse = s ! nat off" using assms rng by simp
      have u2: "underMouse = CHR 0x0D" using True by simp
      have um: "s ! nat off = CHR 0x0D" using u1 u2 by (rule subst)
      show ?thesis
        using out True rng um Cons.IH [of "Suc k"]
        by (simp add: at bindE_def actionHit_def)
    next
      case False
      then have "\<not> actionHit s off a"
        using out assms by (auto simp: actionHit_def split: if_splits)
      then show ?thesis
        using out False Cons.IH [of "Suc k"] by auto
    qed
  qed
qed


lemma firstHit_bound: "firstHit s off as = Some i \<Longrightarrow> i < length as"
proof -
  assume "firstHit s off as = Some i"
  then obtain ia where f: "List.find (\<lambda>ia. actionHit s off (snd ia)) (enumerate 0 as) = Some ia"
    and i: "i = fst ia"
    by (auto simp: firstHit_def)
  from f have "ia \<in> set (enumerate 0 as)"
    by (auto simp: find_Some_iff in_set_conv_nth)
  with i show ?thesis by (cases ia) (auto simp: in_set_enumerate_eq)
qed

lemma pickAction_closing:
  "pickAction env True False d =
     Inr (if action d = [] then None
          else Some (getRandomNumber env (length (action d) - 1)), d)"
  by (simp add: pickAction_def)



lemma actionUnderMouse_unfold:
  "actionUnderMouse env d st =
     (if pointerInside env st then
        bindE (draw env [] kDlgDrawFindSelectionTxtOffset
                 (d\<lparr>state := Some (st\<lparr>lastMouseX := fst (getLastMouse env),
                                       lastMouseY := snd (getLastMouse env)\<rparr>)\<rparr>))
          (\<lambda>(d', ops).
             case state d' of
               None \<Rightarrow> Inl (AssertFailed ''_state'')
             | Some st' \<Rightarrow>
                 (let underMouse =
                        (if strMouseLoc st' \<ge> 0 \<and> strMouseLoc st' < int (length (str d'))
                         then str d' ! nat (strMouseLoc st') else CHR 0x00)
                  in bindE (findAction (str d') (strMouseLoc st') underMouse (action d') 0)
                       (\<lambda>r. Inr (r, d'))))
      else Inr (None, d))"
  by (simp add: actionUnderMouse_def split_beta pointerInside_def)

lemma actionUnderMouse_result:
  assumes fr: "\<forall>t. frameType d \<noteq> kDlgFrameUnknown t"
  shows "actionUnderMouse env d st =
     (if pointerInside env st
      then Inr (firstHit (str d) (pointerOffset env d st) (action d),
                d\<lparr>state := Some (st\<lparr>lastMouseX := fst (getLastMouse env),
                                      lastMouseY := snd (getLastMouse env),
                                      strMouseLoc := pointerOffset env d st\<rparr>)\<rparr>)
      else Inr (None, d))"
proof (cases "pointerInside env st")
  case False
  then show ?thesis
    by (simp add: actionUnderMouse_unfold)
next
  case True
  let ?st1 = "st\<lparr>lastMouseX := fst (getLastMouse env), lastMouseY := snd (getLastMouse env)\<rparr>"
  let ?d1 = "d\<lparr>state := Some ?st1\<rparr>"
  let ?off = "pointerOffset env d st"
  let ?d2 = "d\<lparr>state := Some (?st1\<lparr>strMouseLoc := ?off\<rparr>)\<rparr>"
  have a: "state ?d1 = Some ?st1" by simp
  have b: "\<forall>t. frameType ?d1 \<noteq> kDlgFrameUnknown t" using fr by simp
  have font: "getDlgTextFont env ?d1 = getDlgTextFont env d"
    by (simp add: getDlgTextFont_def)
  have sto: "selectionTxtOffset (getDlgTextFont env d) ?d1 ?st1 = ?off"
    by (simp add: pointerOffset_def selectionTxtOffset_def hasFlag_def Let_def split_beta
             cong: option.case_cong)
  have t: "drawFindSelectionTxtOffset env ?d1 = ?d2"
    by (simp add: drawFindSelectionTxtOffset_def font sto)
  have dr: "draw env [] kDlgDrawFindSelectionTxtOffset ?d1 = Inr (?d2, [])"
    by (simp only: draw_TxtOffset [OF a b] t)
  show ?thesis
    using True
    by (simp add: actionUnderMouse_unfold dr bindE_def findAction_firstHit firstHit_def)
qed


lemma pointerOffset_outside:
  "pointerOffset (fixedEnv (400, 25)) drawnDirectionDialog
     (newDialogState\<lparr>loc := mkRect 13 13 294 94\<rparr>) = 35"
  by code_simp

lemma pointerOffset_inside:
  "pointerOffset (fixedEnv (37, 25)) drawnDirectionDialog
     (newDialogState\<lparr>loc := mkRect 13 13 294 94\<rparr>) = 20"
  by code_simp

lemma firstHit_direction:
  "firstHit (str drawnDirectionDialog) 35 (action drawnDirectionDialog) = Some 1"
  "firstHit (str drawnDirectionDialog) 20 (action drawnDirectionDialog) = Some 0"
  by code_simp+

lemma pointerInside_direction:
  "\<not> pointerInside (fixedEnv (400, 25)) (newDialogState\<lparr>loc := mkRect 13 13 294 94\<rparr>)"
  "pointerInside (fixedEnv (37, 25)) (newDialogState\<lparr>loc := mkRect 13 13 294 94\<rparr>)"
  by code_simp+


lemma pickAction_pointer:
  assumes st: "state d = Some st" and fr: "\<forall>t. frameType d \<noteq> kDlgFrameUnknown t"
      and mode: "\<not> (isClosing \<and> \<not> isForceClose)"
  shows "\<exists>d'. pickAction env isClosing isForceClose d =
     Inr (case (if pointerInside env st
                then firstHit (str d) (pointerOffset env d st) (action d) else None) of
            Some i \<Rightarrow> Some i
          | None \<Rightarrow> if isClosing \<and> length (action d) = 1 then Some 0 else None, d')"
proof -
  have m: "(\<not> isForceClose \<and> isClosing) = False" using mode by auto
  have pa: "pickAction env isClosing isForceClose d =
      bindE (actionUnderMouse env d st)
               (\<lambda>(r, d').
                  case r of
                    Some i \<Rightarrow> Inr (Some i, d')
                  | None \<Rightarrow>
                      if isClosing \<and> length (action d') = 1 then Inr (Some 0, d')
                      else Inr (None, d'))"
    by (simp only: pickAction_def m if_False st option.case)
  show ?thesis
  proof (cases "pointerInside env st")
    case False
    then show ?thesis
      by (simp add: pa actionUnderMouse_result [OF fr] bindE_def)
  next
    case True
    show ?thesis
    proof (cases "firstHit (str d) (pointerOffset env d st) (action d)")
      case None
      with True show ?thesis
        by (simp add: pa actionUnderMouse_result [OF fr] bindE_def)
    next
      case (Some i)
      with True show ?thesis
        by (simp add: pa actionUnderMouse_result [OF fr] bindE_def)
    qed
  qed
qed

text \<open>
  C7, amended: \<open>pickAction(isClosing, isForceClose)\<close> behaves as this case analysis.
  \<^item> Closing without force: no action for an empty list, otherwise the action at the
    index drawn from the random source, which is always one of the list (that the
    draw is uniform is a property of the random source, not modelled here). No
    \<open>DialogState\<close> is needed.
  \<^item> Otherwise, for a drawn dialog with a known frame style: only if the pointer lies
    inside the text area is it resolved to a character offset, and the first action
    hit by that offset (span with both ends, or the CR rule) is returned; if the
    pointer is outside, or no action is hit, the result is the single action when
    the dialog is closing with exactly one action, and no action otherwise.
  \<^item> Hence a closing dialog with exactly one action always yields that action,
    wherever the pointer is.
\<close>

theorem pickAction_cases:
  "(isClosing \<and> \<not> isForceClose \<longrightarrow>
      pickAction env isClosing isForceClose d =
        Inr (if action d = [] then None
             else Some (getRandomNumber env (length (action d) - 1)), d)
      \<and> (action d \<noteq> [] \<longrightarrow> getRandomNumber env (length (action d) - 1) < length (action d)))
   \<and> (\<not> (isClosing \<and> \<not> isForceClose) \<and> state d = Some st
        \<and> (\<forall>t. frameType d \<noteq> kDlgFrameUnknown t) \<longrightarrow>
      (\<exists>d'. pickAction env isClosing isForceClose d =
         Inr (case (if pointerInside env st
                    then firstHit (str d) (pointerOffset env d st) (action d) else None) of
                Some i \<Rightarrow> Some i
              | None \<Rightarrow> if isClosing \<and> length (action d) = 1 then Some 0 else None, d')))
   \<and> (isClosing \<and> length (action d) = 1
        \<and> (isForceClose \<longrightarrow> state d = Some st \<and> (\<forall>t. frameType d \<noteq> kDlgFrameUnknown t)) \<longrightarrow>
      (\<exists>d'. pickAction env isClosing isForceClose d = Inr (Some 0, d')))"
proof (intro conjI impI)
  assume "isClosing \<and> \<not> isForceClose"
  then show "pickAction env isClosing isForceClose d =
        Inr (if action d = [] then None
             else Some (getRandomNumber env (length (action d) - 1)), d)"
    by (simp add: pickAction_def)
next
  assume "action d \<noteq> []"
  then show "getRandomNumber env (length (action d) - 1) < length (action d)"
    by (simp add: getRandomNumber_def)
next
  assume "\<not> (isClosing \<and> \<not> isForceClose) \<and> state d = Some st
        \<and> (\<forall>t. frameType d \<noteq> kDlgFrameUnknown t)"
  then show "\<exists>d'. pickAction env isClosing isForceClose d =
         Inr (case (if pointerInside env st
                    then firstHit (str d) (pointerOffset env d st) (action d) else None) of
                Some i \<Rightarrow> Some i
              | None \<Rightarrow> if isClosing \<and> length (action d) = 1 then Some 0 else None, d')"
    using pickAction_pointer by blast
next
  assume h: "isClosing \<and> length (action d) = 1
        \<and> (isForceClose \<longrightarrow> state d = Some st \<and> (\<forall>t. frameType d \<noteq> kDlgFrameUnknown t))"
  show "\<exists>d'. pickAction env isClosing isForceClose d = Inr (Some 0, d')"
  proof (cases isForceClose)
    case False
    with h show ?thesis
      by (auto simp: pickAction_def getRandomNumber_def)
  next
    case True
    with h have st: "state d = Some st" and fr: "\<forall>t. frameType d \<noteq> kDlgFrameUnknown t"
      by auto
    have mode: "\<not> (isClosing \<and> \<not> isForceClose)" using True by simp
    from pickAction_pointer [OF st fr mode, of env]
    obtain d' where r: "pickAction env isClosing isForceClose d =
       Inr (case (if pointerInside env st
                then firstHit (str d) (pointerOffset env d st) (action d) else None) of
            Some i \<Rightarrow> Some i
          | None \<Rightarrow> if isClosing \<and> length (action d) = 1 then Some 0 else None, d')"
      by blast
    have "(case (if pointerInside env st
                then firstHit (str d) (pointerOffset env d st) (action d) else None) of
            Some i \<Rightarrow> Some i
          | None \<Rightarrow> if isClosing \<and> length (action d) = 1 then Some 0 else None) = Some 0"
      using h firstHit_bound [of "str d" "pointerOffset env d st" "action d"]
      by (auto split: option.splits)
    with r show ?thesis by auto
  qed
qed

text \<open>
  C7, as stated, fails in its "otherwise" case: the pointer is not always resolved.
  With the pointer at (400, 25), to the right of the text area of the drawn scenario
  dialog, the position resolves to offset 35, inside the span 28..35 of the second
  action, yet \<open>pickAction(false, false)\<close> returns no action and leaves the dialog
  untouched.
\<close>

theorem pickAction_cases_counterexample:
  "pickAction (fixedEnv (400, 25)) False False drawnDirectionDialog
     = Inr (None, drawnDirectionDialog)
   \<and> firstHit (str drawnDirectionDialog)
        (pointerOffset (fixedEnv (400, 25)) drawnDirectionDialog
           (newDialogState\<lparr>loc := mkRect 13 13 294 94\<rparr>))
        (action drawnDirectionDialog) = Some 1"
proof -
  have a: "state drawnDirectionDialog = Some (newDialogState\<lparr>loc := mkRect 13 13 294 94\<rparr>)"
    by (rule drawnDirectionDialog_facts(1))
  have "pickAction (fixedEnv (400, 25)) False False drawnDirectionDialog
     = Inr (None, drawnDirectionDialog)"
    by (simp add: pickAction_def a actionUnderMouse_unfold pointerInside_direction(1) bindE_def
                  drawnDirectionDialog_facts(2))
  then show ?thesis
    by (simp only: pointerOffset_outside firstHit_direction(1) simp_thms)
qed

text \<open>
  The amended C7 on the scenario dialog: the pointer on the second line picks the
  first action, closing without force picks the action the random source names, and
  force-closing a one-action dialog with the pointer outside picks that action.
\<close>

theorem pickAction_cases_witness:
  "state drawnDirectionDialog = Some (newDialogState\<lparr>loc := mkRect 13 13 294 94\<rparr>)
   \<and> frameType drawnDirectionDialog = kDlgFramePlain
   \<and> pointerInside (fixedEnv (37, 25)) (newDialogState\<lparr>loc := mkRect 13 13 294 94\<rparr>)
   \<and> pointerOffset (fixedEnv (37, 25)) drawnDirectionDialog
        (newDialogState\<lparr>loc := mkRect 13 13 294 94\<rparr>) = 20
   \<and> (\<exists>d'. pickAction (fixedEnv (37, 25)) False False drawnDirectionDialog = Inr (Some 0, d'))
   \<and> pickAction (fixedEnv (37, 25)) True False drawnDirectionDialog
        = Inr (Some 0, drawnDirectionDialog)
   \<and> (\<exists>d'. pickAction (fixedEnv (400, 25)) True True
               (drawnDirectionDialog\<lparr>action := [\<lparr>strStart = 19, strEnd = 26, sceneOpList = []\<rparr>]\<rparr>)
             = Inr (Some 0, d'))"
proof -
  let ?st = "newDialogState\<lparr>loc := mkRect 13 13 294 94\<rparr>"
  let ?one = "drawnDirectionDialog\<lparr>action := [\<lparr>strStart = 19, strEnd = 26, sceneOpList = []\<rparr>]\<rparr>"
  have a: "state drawnDirectionDialog = Some ?st" by (rule drawnDirectionDialog_facts(1))
  have p: "frameType drawnDirectionDialog = kDlgFramePlain"
    by (simp add: drawnDirectionDialog_def directionDialog_def)
  have c: "\<forall>t. frameType drawnDirectionDialog \<noteq> kDlgFrameUnknown t"
    by (rule drawnDirectionDialog_facts(3))
  have a1: "state ?one = Some ?st" using a by simp
  have c1: "\<forall>t. frameType ?one \<noteq> kDlgFrameUnknown t" using c by simp
  have r: "getRandomNumber (fixedEnv (37, 25)) (length (action drawnDirectionDialog) - 1) = 0"
    by (simp add: getRandomNumber_def fixedEnv_def)
  have ne: "action drawnDirectionDialog \<noteq> []" using drawnDirectionDialog_facts(2) by auto
  from pickAction_cases [of False False "fixedEnv (37, 25)" drawnDirectionDialog ?st]
  have w1: "\<exists>d'. pickAction (fixedEnv (37, 25)) False False drawnDirectionDialog = Inr (Some 0, d')"
    using a c by (simp add: pointerInside_direction(2) pointerOffset_inside firstHit_direction(2))
  from pickAction_cases [of True False "fixedEnv (37, 25)" drawnDirectionDialog ?st]
  have w2: "pickAction (fixedEnv (37, 25)) True False drawnDirectionDialog
        = Inr (Some 0, drawnDirectionDialog)"
    using ne by (simp add: getRandomNumber_def fixedEnv_def)
  from pickAction_cases [of True True "fixedEnv (400, 25)" ?one ?st]
  have w3: "\<exists>d'. pickAction (fixedEnv (400, 25)) True True ?one = Inr (Some 0, d')"
    using a1 c1 by simp
  from a p w1 w2 w3 show ?thesis
    by (simp only: pointerInside_direction(2) pointerOffset_inside simp_thms)
qed

section \<open>Resolving a position to an offset\<close>

lemma find_map_comp: "List.find P (map f xs) = map_option f (List.find (\<lambda>x. P (f x)) xs)"
  by (induction xs) auto

lemma find_append_case:
  "List.find P (xs @ ys) = (case List.find P xs of Some x \<Rightarrow> Some x | None \<Rightarrow> List.find P ys)"
  by (induction xs) auto

lemma scanChars_find:
  "scanChars font mx line c0 px =
     map_option (\<lambda>c. c0 + c)
       (List.find (\<lambda>c. mx \<le> rightEdge font px line c) [0..<length line])"
proof (induction line arbitrary: c0 px)
  case Nil
  show ?case by simp
next
  case (Cons ch line)
  have upt: "[0..<length (ch # line)] = 0 # map Suc [0..<length line]"
    by (simp add: upt_conv_Cons map_Suc_upt del: upt_Suc)
  have shift: "\<And>c. rightEdge font px (ch # line) (Suc c)
                    = rightEdge font (px + getCharWidth font (chr32 ch)) line c"
    by (simp add: rightEdge_def)
  have first: "rightEdge font px (ch # line) 0 = px + getCharWidth font (chr32 ch)"
    by (simp add: rightEdge_def)
  show ?case
  proof (cases "mx \<le> px + getCharWidth font (chr32 ch)")
    case True
    then show ?thesis by (simp only: upt) (simp add: first Let_def)
  next
    case False
    then show ?thesis
      by (simp only: upt)
         (simp add: first Let_def Cons.IH find_map_comp shift option.map_comp comp_def)
  qed
qed


lemma lineOffset_Suc:
  "lineOffset (pre @ line # rest) (Suc (length pre))
     = lineOffset (pre @ line # rest) (length pre) + int (length line) + 1"
  by (simp add: lineOffset_def)

lemma glyphsFrom_step:
  "glyphsFrom (pre @ line # rest) (length pre) (length pre + Suc n)
     = map (Pair (length pre)) [0..<length line]
       @ glyphsFrom (pre @ line # rest) (Suc (length pre)) (Suc (length pre) + n)"
proof -
  have "[length pre..<length pre + Suc n] = length pre # [Suc (length pre)..<Suc (length pre) + n]"
    by (simp add: upt_conv_Cons del: upt_Suc)
  then show ?thesis by (simp add: glyphsFrom_def del: upt_Suc)
qed

lemma scanLines_find:
  "scanLines font mx px rest (lineOffset (pre @ rest) (length pre)) =
     map_option (\<lambda>kc. lineOffset (pre @ rest) (fst kc) + int (snd kc))
       (List.find (\<lambda>kc. mx \<le> rightEdge font px ((pre @ rest) ! fst kc) (snd kc))
          (glyphsFrom (pre @ rest) (length pre) (length pre + length rest)))"
proof (induction rest arbitrary: pre)
  case Nil
  show ?case by (simp add: glyphsFrom_def)
next
  case (Cons line rest)
  have ih: "scanLines font mx px rest (lineOffset (pre @ line # rest) (Suc (length pre))) =
     map_option (\<lambda>kc. lineOffset (pre @ line # rest) (fst kc) + int (snd kc))
       (List.find (\<lambda>kc. mx \<le> rightEdge font px ((pre @ line # rest) ! fst kc) (snd kc))
          (glyphsFrom (pre @ line # rest) (Suc (length pre)) (Suc (length pre) + length rest)))"
    using Cons.IH [of "pre @ [line]"] by simp
  have len: "length pre + length (line # rest) = length pre + Suc (length rest)" by simp
  show ?case
  proof (cases "List.find (\<lambda>c. mx \<le> rightEdge font px line c) [0..<length line]")
    case None
    have L: "scanLines font mx px (line # rest) (lineOffset (pre @ line # rest) (length pre))
               = scanLines font mx px rest (lineOffset (pre @ line # rest) (Suc (length pre)))"
      using None by (simp add: scanChars_find lineOffset_Suc)
    have R: "List.find (\<lambda>kc. mx \<le> rightEdge font px ((pre @ line # rest) ! fst kc) (snd kc))
               (glyphsFrom (pre @ line # rest) (length pre) (length pre + length (line # rest)))
             = List.find (\<lambda>kc. mx \<le> rightEdge font px ((pre @ line # rest) ! fst kc) (snd kc))
               (glyphsFrom (pre @ line # rest) (Suc (length pre))
                  (Suc (length pre) + length rest))"
      unfolding len glyphsFrom_step using None
      by (simp add: find_append_case find_map_comp)
    show ?thesis unfolding L R by (rule ih)
  next
    case (Some c)
    then show ?thesis
      unfolding len glyphsFrom_step
      by (simp add: scanChars_find find_append_case find_map_comp)
  qed
qed

lemma lineStarts_nth:
  "k < length lines \<Longrightarrow> lineStarts off lines ! k = off + lineOffset lines k"
proof (induction lines arbitrary: off k)
  case Nil
  then show ?case by simp
next
  case (Cons l lines)
  show ?case
  proof (cases k)
    case 0
    then show ?thesis by (simp add: lineOffset_def)
  next
    case (Suc j)
    with Cons.prems have "j < length lines" by simp
    from Cons.IH [OF this, of "off + int (length l) + 1"] Suc
    show ?thesis by (simp add: lineOffset_def)
  qed
qed

lemma length_lineStarts: "length (lineStarts off lines) = length lines"
  by (induction lines arbitrary: off) auto

lemma skipLines_located:
  "i \<le> n \<Longrightarrow>
   skipLines lo n h my i t (y0 + int i * h) =
     (let L = i + length (takeWhile (\<lambda>l. y0 + (int l + 1) * h < my) [i..<n])
      in (L, if L = i then t else lo ! L, y0 + int L * h))"
proof (induction "n - i" arbitrary: i t)
  case 0
  then have "i = n" by simp
  then show ?case by (simp add: skipLines.simps [of lo n h my n])
next
  case (Suc m)
  then have lt: "i < n" by simp
  have upt: "[i..<n] = i # [Suc i..<n]" using lt by (simp add: upt_conv_Cons)
  show ?case
  proof (cases "y0 + int i * h + h < my")
    case False
    then have "\<not> y0 + (int i + 1) * h < my" by (simp add: algebra_simps)
    then show ?thesis
      using False
      by (simp add: skipLines.simps [of lo n h my i t "y0 + int i * h"] upt)
  next
    case True
    then have p: "y0 + (int i + 1) * h < my" by (simp add: algebra_simps)
    have m: "m = n - Suc i" using Suc.hyps(2) by simp
    have le: "Suc i \<le> n" using lt by simp
    have y: "y0 + int i * h + h = y0 + int (Suc i) * h" by (simp add: algebra_simps)
    have step: "skipLines lo n h my i t (y0 + int i * h)
                  = skipLines lo n h my (Suc i) (lo ! (i + 1)) (y0 + int (Suc i) * h)"
      using True lt
      by (simp add: skipLines.simps [of lo n h my i t "y0 + int i * h"] y)
    show ?thesis
      unfolding step Suc.hyps(1) [OF m le, of "lo ! (i + 1)"]
      using p by (simp add: upt Let_def)
  qed
qed


lemma selectionTxtOffset_scan:
  assumes ww: "wordWrapText font (str d) (rectWidth (loc st)) = (lines, maxWidth)"
  shows "selectionTxtOffset font d st =
     (let L = locatedLine (snd (textOrigin font d st)) (getFontHeight font)
                (lastMouseY st) (length lines)
      in case scanLines font (lastMouseX st) (fst (textOrigin font d st)) (drop L lines)
                (if L = 0 then 0 else wrappedLineOffsets (str d) lines ! L) of
           Some off \<Rightarrow> off
         | None \<Rightarrow> int (length (str d)))"
proof -
  define x0 where "x0 = fst (textOrigin font d st)"
  define y0 where "y0 = snd (textOrigin font d st)"
  define h where "h = getFontHeight font"
  define n where "n = length lines"
  define L where "L = locatedLine y0 h (lastMouseY st) n"
  define wlo where "wlo = wrappedLineOffsets (str d) lines"
  define tot where "tot = (if L = 0 then 0 else wlo ! L)"
  have sk: "skipLines wlo n h (lastMouseY st) 0 0 y0 = (L, tot, y0 + int L * h)"
    using skipLines_located [of 0 n wlo h "lastMouseY st" 0 y0]
    by (simp add: L_def locatedLine_def tot_def Let_def)
  have code: "selectionTxtOffset font d st =
      (case scanLines font (lastMouseX st) x0 (drop L lines) tot of
         Some off \<Rightarrow> off | None \<Rightarrow> int (length (str d)))"
  proof (cases "hasFlag d kDlgFlagLeftJust")
    case True
    have px: "rectX (loc st) + cdiv (rectWidth (loc st) - maxWidth - 1) 2 = x0"
      using True by (simp add: x0_def textOrigin_def ww)
    have py: "rectY (loc st) + cdiv (rectHeight (loc st) - s32 (int n * h) - 1) 2 = y0"
      using True by (simp add: y0_def textOrigin_def ww n_def h_def)
    show ?thesis
      using True
      by (simp add: selectionTxtOffset_def Let_def ww wlo_def [symmetric] n_def [symmetric]
                    h_def [symmetric] px py sk)
  next
    case False
    have px: "rectX (loc st) = x0" using False by (simp add: x0_def textOrigin_def ww)
    have py: "rectY (loc st) = y0" using False by (simp add: y0_def textOrigin_def ww)
    show ?thesis
      using False
      by (simp add: selectionTxtOffset_def Let_def ww wlo_def [symmetric] n_def [symmetric]
                    h_def [symmetric] px py sk)
  qed
  show ?thesis
    unfolding code by (simp add: Let_def tot_def L_def y0_def x0_def h_def n_def wlo_def)
qed

lemma locatedLine_le: "locatedLine y0 h my n \<le> n"
proof -
  have "length (takeWhile (\<lambda>l. y0 + (int l + 1) * h < my) [0..<n]) \<le> length [0..<n]"
    by (rule length_takeWhile_le)
  then show ?thesis by (simp add: locatedLine_def)
qed

lemma selectionTxtOffset_spec: "selectionTxtOffset font d st = txtOffsetSpec font d st"
proof -
  obtain lines maxWidth where ww:
    "wordWrapText font (str d) (rectWidth (loc st)) = (lines, maxWidth)"
    by (cases "wordWrapText font (str d) (rectWidth (loc st))") auto
  define x0 where "x0 = fst (textOrigin font d st)"
  define y0 where "y0 = snd (textOrigin font d st)"
  define h where "h = getFontHeight font"
  define n where "n = length lines"
  define L where "L = locatedLine y0 h (lastMouseY st) n"
  define wlo where "wlo = wrappedLineOffsets (str d) lines"
  define tot where "tot = (if L = 0 then 0 else wlo ! L)"
  have code: "selectionTxtOffset font d st =
      (case scanLines font (lastMouseX st) x0 (drop L lines) tot of
         Some off \<Rightarrow> off | None \<Rightarrow> int (length (str d)))"
    unfolding selectionTxtOffset_scan [OF ww]
    by (simp add: Let_def tot_def L_def y0_def x0_def h_def n_def wlo_def)
  have spec: "txtOffsetSpec font d st =
      (case List.find (\<lambda>kc. lastMouseX st \<le> rightEdge font x0 (lines ! fst kc) (snd kc))
                (glyphsFrom lines L n) of
           Some kc \<Rightarrow> lineOffset lines (fst kc) + int (snd kc)
         | None \<Rightarrow> int (length (str d)))"
    by (simp add: txtOffsetSpec_def txtOffsetIn_def ww Let_def split_beta x0_def y0_def
                  L_def n_def h_def)
  have Ln: "L \<le> n" unfolding L_def by (rule locatedLine_le)
  have tot_eq: "L < n \<Longrightarrow> tot = lineOffset lines L"
    by (simp add: tot_def wlo_def wrappedLineOffsets_def nth_append n_def lineStarts_nth
                  length_lineStarts lineOffset_def)
  have sl: "scanLines font (lastMouseX st) x0 (drop L lines) (lineOffset lines L) =
     map_option (\<lambda>kc. lineOffset lines (fst kc) + int (snd kc))
       (List.find (\<lambda>kc. lastMouseX st \<le> rightEdge font x0 (lines ! fst kc) (snd kc))
          (glyphsFrom lines L n))"
  proof -
    have len: "length (take L lines) = L" using Ln by (simp add: n_def)
    have tot: "L + length (drop L lines) = n" using Ln by (simp add: n_def)
    show ?thesis
      using scanLines_find [of font "lastMouseX st" x0 "drop L lines" "take L lines"]
      unfolding append_take_drop_id len tot .
  qed
  show ?thesis
  proof (cases "L < n")
    case True
    show ?thesis
      unfolding code spec tot_eq [OF True] sl
      by (simp split: option.splits)
  next
    case False
    with Ln have "L = n" by simp
    then show ?thesis
      unfolding code spec by (simp add: n_def glyphsFrom_def)
  qed
qed

text \<open>
  C8, amended: \<open>drawFindSelectionTxtOffset\<close> does nothing without a \<open>DialogState\<close>;
  otherwise it stores, as an index into the original unwrapped string, the offset found
  from the stored mouse position as follows. Lines are stepped over while the line's
  bottom edge is above the target y. Then glyph widths are accumulated within the
  located line, and, if no glyph of that line reaches the target x, in the same way
  within each following line (x restarting at the left edge), until the cumulative
  width meets or exceeds the target x. If no glyph of the located or any later line
  matches, the full string length is stored as an end-of-text sentinel.
\<close>

theorem txtOffset_resolution:
  "drawFindSelectionTxtOffset env d =
     (case state d of
        None \<Rightarrow> d
      | Some st \<Rightarrow>
          d\<lparr>state := Some (st\<lparr>strMouseLoc := txtOffsetSpec (getDlgTextFont env d) d st\<rparr>)\<rparr>)"
  by (simp add: drawFindSelectionTxtOffset_def selectionTxtOffset_spec split: option.splits)

text \<open>
  C8, as stated, fails: the search is not confined to the located line. For the text
  \<open>Hi\rGo north\<close> in an 8-pixel font and the mouse at x = 43 on the first line, no
  glyph of \<open>Hi\<close> reaches x, and the routine goes on to the second line and returns
  offset 6 (the \<open>n\<close> of \<open>north\<close>), where the claim has the string length 11.
\<close>

theorem txtOffset_resolution_counterexample:
  "selectionTxtOffset (fixedFont 8 8)
     (drawnDirectionDialog\<lparr>str := ''Hi'' @ [CHR 0x0D] @ ''Go north''\<rparr>)
     (newDialogState\<lparr>loc := mkRect 13 13 294 94, lastMouseX := 43, lastMouseY := 14\<rparr>) = 6
   \<and> txtOffsetClaimed (fixedFont 8 8)
     (drawnDirectionDialog\<lparr>str := ''Hi'' @ [CHR 0x0D] @ ''Go north''\<rparr>)
     (newDialogState\<lparr>loc := mkRect 13 13 294 94, lastMouseX := 43, lastMouseY := 14\<rparr>) = 11"
  by code_simp

section \<open>Offset to position and back\<close>

lemma findLineXY_line:
  "k < length lines \<Longrightarrow> tot + lineOffset lines k \<le> off
   \<Longrightarrow> off < tot + lineOffset lines (Suc k)
   \<Longrightarrow> findLineXY lines off tot py h = (tot + lineOffset lines k, py + int k * h)"
proof (induction lines arbitrary: k tot py)
  case Nil
  then show ?case by simp
next
  case (Cons l ls)
  show ?case
  proof (cases k)
    case 0
    with Cons.prems show ?thesis by (simp add: lineOffset_def Let_def)
  next
    case (Suc j)
    with Cons.prems have j: "j < length ls" by simp
    have a: "tot + int (length l) + 1 + lineOffset ls j \<le> off"
      using Cons.prems(2) Suc by (simp add: lineOffset_def)
    have b: "off < tot + int (length l) + 1 + lineOffset ls (Suc j)"
      using Cons.prems(3) Suc by (simp add: lineOffset_def)
    have nonneg: "0 \<le> lineOffset ls j"
      unfolding lineOffset_def by (rule sum_list_nonneg) auto
    have ge: "\<not> tot + int (length l) + 1 > off" using a nonneg by linarith
    from Cons.IH [OF j a b, of "py + h"]
    show ?thesis
      using ge Suc by (simp add: Let_def lineOffset_def algebra_simps)
  qed
qed

lemma glyphWidths_mono:
  assumes "\<forall>ch. 0 < getCharWidth font ch" and "a < b" and "b \<le> length line"
  shows "glyphWidths font (take a line) < glyphWidths font (take b line)"
  using assms(2,3)
proof (induction line arbitrary: a b)
  case Nil
  then show ?case by simp
next
  case (Cons ch line)
  from Cons.prems obtain b' where b: "b = Suc b'" by (cases b) auto
  show ?case
  proof (cases a)
    case 0
    have "0 \<le> glyphWidths font (take b' line)"
      unfolding glyphWidths_def using assms(1)
      by (intro sum_list_nonneg) (auto simp: less_imp_le)
    with 0 b assms(1) show ?thesis
      by (simp add: glyphWidths_def add_pos_nonneg)
  next
    case (Suc a')
    with Cons.prems b have "a' < b'" "b' \<le> length line" by simp_all
    from Cons.IH [OF this] Suc b show ?thesis by (simp add: glyphWidths_def)
  qed
qed

lemma scanChars_hit:
  assumes pos: "\<forall>ch. 0 < getCharWidth font ch"
  shows "0 < c \<Longrightarrow> c \<le> length line
         \<Longrightarrow> scanChars font (px + glyphWidths font (take c line)) line c0 px
             = Some (c0 + c - 1)"
proof (induction line arbitrary: c c0 px)
  case Nil
  then show ?case by simp
next
  case (Cons ch line)
  from Cons.prems obtain c' where c: "c = Suc c'" by (cases c) auto
  show ?case
  proof (cases c')
    case 0
    with c show ?thesis by (simp add: glyphWidths_def Let_def)
  next
    case (Suc c'')
    have le: "c' \<le> length line" using Cons.prems c by simp
    have "glyphWidths font (take 0 line) < glyphWidths font (take c' line)"
      using Suc le by (intro glyphWidths_mono [OF pos]) simp_all
    then have gt: "0 < glyphWidths font (take c' line)" by (simp add: glyphWidths_def)
    have mx: "px + glyphWidths font (take c (ch # line))
                = (px + getCharWidth font (chr32 ch)) + glyphWidths font (take c' line)"
      using c by (simp add: glyphWidths_def)
    have no: "\<not> px + glyphWidths font (take c (ch # line)) \<le> px + getCharWidth font (chr32 ch)"
      unfolding mx using gt by simp
    have "scanChars font (px + glyphWidths font (take c (ch # line))) (ch # line) c0 px
            = scanChars font ((px + getCharWidth font (chr32 ch)) + glyphWidths font (take c' line))
                line (Suc c0) (px + getCharWidth font (chr32 ch))"
      using no by (simp add: Let_def mx)
    also have "\<dots> = Some (Suc c0 + c' - 1)"
      using Suc le by (intro Cons.IH) simp_all
    finally show ?thesis using c by simp
  qed
qed

lemma scanChars_first:
  assumes "\<forall>ch. 0 < getCharWidth font ch" and "line \<noteq> []"
  shows "scanChars font px line c0 px = Some c0"
proof -
  from assms(2) obtain ch rest where l: "line = ch # rest" by (cases line) auto
  have "0 < getCharWidth font (chr32 ch)" using assms(1) by simp
  then show ?thesis by (simp add: l Let_def)
qed

lemma takeWhile_less_upt: "k \<le> n \<Longrightarrow> takeWhile (\<lambda>l. l < k) [0..<n] = [0..<k]"
proof -
  assume kn: "k \<le> n"
  have split: "[0..<n] = [0..<k] @ [k..<n]"
    using kn upt_add_eq_append [of 0 k "n - k"] by simp
  have rest: "takeWhile (\<lambda>l. l < k) [k..<n] = []"
    by (cases "k < n") (simp_all add: upt_conv_Cons)
  have "takeWhile (\<lambda>l. l < k) ([0..<k] @ [k..<n])
          = [0..<k] @ takeWhile (\<lambda>l. l < k) [k..<n]"
    by (rule takeWhile_append2) simp
  then have "takeWhile (\<lambda>l. l < k) ([0..<k] @ [k..<n]) = [0..<k]"
    by (simp only: rest append_Nil2)
  then show ?thesis by (subst split)
qed

lemma locatedLine_at:
  assumes "0 < h" and "k \<le> n"
  shows "locatedLine y0 h (y0 + 1 + int k * h) n = k"
proof -
  have "\<And>l::nat. (y0 + (int l + 1) * h < y0 + 1 + int k * h) = (l < k)"
  proof -
    fix l :: nat
    have "(y0 + (int l + 1) * h < y0 + 1 + int k * h) = ((int l + 1) * h < 1 + int k * h)"
      by simp
    also have "\<dots> = (int l + 1 \<le> int k)"
    proof
      assume a: "(int l + 1) * h < 1 + int k * h"
      show "int l + 1 \<le> int k"
      proof (rule ccontr)
        assume "\<not> int l + 1 \<le> int k"
        then have "int k + 1 \<le> int l + 1" by simp
        then have "(int k + 1) * h \<le> (int l + 1) * h"
          using assms(1) by (intro mult_right_mono) simp_all
        then have "int k * h + h \<le> (int l + 1) * h" by (simp add: algebra_simps)
        with a assms(1) show False by linarith
      qed
    next
      assume "int l + 1 \<le> int k"
      then have "(int l + 1) * h \<le> int k * h"
        using assms(1) by (intro mult_right_mono) simp_all
      then show "(int l + 1) * h < 1 + int k * h" by linarith
    qed
    also have "\<dots> = (l < k)" by linarith
    finally show "(y0 + (int l + 1) * h < y0 + 1 + int k * h) = (l < k)" .
  qed
  then show ?thesis
    using assms(2) by (simp add: locatedLine_def takeWhile_less_upt)
qed


lemma lineOffset_next:
  "k < length lines \<Longrightarrow>
   lineOffset lines (Suc k) = lineOffset lines k + int (length (lines ! k)) + 1"
  by (simp add: lineOffset_def take_Suc_conv_app_nth)

lemma lineOffset_ge: "k \<le> length lines \<Longrightarrow> int k \<le> lineOffset lines k"
proof (induction k)
  case 0
  show ?case by (simp add: lineOffset_def)
next
  case (Suc k)
  then have "k < length lines" by simp
  from lineOffset_next [OF this] Suc show ?case by simp
qed

lemma substr_take:
  "0 \<le> pos \<Longrightarrow> 0 \<le> len \<Longrightarrow> substr s pos len = take (nat len) (drop (nat pos) s)"
  by (simp add: substr_def)

lemma wrappedLineOffsets_nth:
  "k < length lines \<Longrightarrow> wrappedLineOffsets s lines ! k = lineOffset lines k"
  by (simp add: wrappedLineOffsets_def nth_append length_lineStarts lineStarts_nth)


lemma cdiv_nonneg: "0 \<le> a \<Longrightarrow> cdiv a 2 = a div 2"
  by (simp add: cdiv_def sgn_if)

lemma cdiv_ge: "- 1 \<le> a \<Longrightarrow> 0 \<le> cdiv a 2"
  by (simp add: cdiv_def sgn_if)

text \<open>
  For a left-justified dialog whose text block lies inside the text area, both
  routines measure from the same corner: the unsigned division of
  \<open>drawFindSelectionXY\<close> and the signed one of \<open>drawFindSelectionTxtOffset\<close> agree.
\<close>

lemma block_origin:
  assumes ww: "wordWrapText font (str d) (rectWidth (loc st)) = (lines, maxWidth)"
      and lj: "hasFlag d kDlgFlagLeftJust" and ins: "blockInside font d st"
      and h: "0 < getFontHeight font"
  shows "textOrigin font d st
           = (rectX (loc st) + cdiv (rectWidth (loc st) - maxWidth - 1) 2,
              rectY (loc st)
                + (rectHeight (loc st) - int (length lines) * getFontHeight font - 1) div 2)"
    and "s32 (rectY (loc st) + 1
              + u32 (rectHeight (loc st) - int (length lines) * getFontHeight font - 1) div 2)
           = rectY (loc st)
               + (rectHeight (loc st) - int (length lines) * getFontHeight font - 1) div 2 + 1"
    and "0 \<le> cdiv (rectWidth (loc st) - maxWidth - 1) 2"
    and "0 \<le> (rectHeight (loc st) - int (length lines) * getFontHeight font - 1) div 2"
proof -
  let ?v = "rectHeight (loc st) - int (length lines) * getFontHeight font - 1"
  from ins ww have w: "maxWidth \<le> rectWidth (loc st)"
    and t: "int (length lines) * getFontHeight font < rectHeight (loc st)"
    and fy: "fitsInt (rectY (loc st))" and fh: "fitsInt (rectHeight (loc st))"
    and fb: "fitsInt (rectY (loc st) + rectHeight (loc st))"
    by (simp_all add: blockInside_def)
  have nh: "0 \<le> int (length lines) * getFontHeight font" using h by simp
  have v0: "0 \<le> ?v" using t by simp
  have v1: "?v < 2147483648" using fh nh by (simp add: fitsInt_def)
  have s: "s32 (int (length lines) * getFontHeight font)
             = int (length lines) * getFontHeight font"
    using nh t fh by (intro s32_id) (simp add: fitsInt_def)
  show "textOrigin font d st
           = (rectX (loc st) + cdiv (rectWidth (loc st) - maxWidth - 1) 2, rectY (loc st) + ?v div 2)"
    using lj by (simp add: textOrigin_def ww s cdiv_nonneg [OF v0])
  have u: "u32 ?v = ?v" using v0 v1 by (simp add: u32_def)
  have d0: "0 \<le> ?v div 2" using v0 by simp
  have d1: "?v div 2 < rectHeight (loc st)" using v0 nh by linarith
  have "fitsInt (rectY (loc st) + 1 + ?v div 2)"
    unfolding fitsInt_def
    using fy [unfolded fitsInt_def] fb [unfolded fitsInt_def] d0 d1 by linarith
  from s32_id [OF this]
  show "s32 (rectY (loc st) + 1 + u32 ?v div 2) = rectY (loc st) + ?v div 2 + 1"
    by (simp add: u)
  show "0 \<le> cdiv (rectWidth (loc st) - maxWidth - 1) 2"
    using w by (intro cdiv_ge) simp
  show "0 \<le> ?v div 2" by (rule d0)
qed

lemma textOrigin_eq:
  "str d' = str d \<Longrightarrow> flags d' = flags d \<Longrightarrow> loc st' = loc st
   \<Longrightarrow> textOrigin font d' st' = textOrigin font d st"
  by (simp add: textOrigin_def hasFlag_def split_beta)

lemma plain_origin:
  "\<not> hasFlag d kDlgFlagLeftJust \<Longrightarrow> textOrigin font d st = (rectX (loc st), rectY (loc st))"
  by (simp add: textOrigin_def split_beta)

lemma selectionXY_zero:
  assumes h: "0 \<le> getFontHeight font" "getFontHeight font < 65536"
  shows "\<exists>cw. selectionXY font d (st\<lparr>strMouseLoc := 0\<rparr>)
           = Inr (rectX (loc st), rectY (loc st) + 1, cw, getFontHeight font, 0)"
  using h by (simp add: selectionXY_def Let_def u16_def)

lemma selectionXY_position:
  assumes h: "0 < getFontHeight font" "getFontHeight font < 65536"
      and sw: "\<forall>s. getStringWidth font s = glyphWidths font s"
      and ww: "wordWrapText font (str d) (rectWidth (loc st)) = (lines, maxWidth)"
      and lj: "hasFlag d kDlgFlagLeftJust \<longrightarrow> blockInside font d st"
      and org: "textOrigin font d st = (x0, y0)"
      and k: "k < length lines"
      and content: "take (length (lines ! k)) (drop (nat (lineOffset lines k)) (str d))
                      = lines ! k"
      and c: "c \<le> length (lines ! k)"
      and off: "off = lineOffset lines k + int c" "off < int (length (str d))" "off \<noteq> 0"
      and fits: "x0 + glyphWidths font (take c (lines ! k))
                   + getCharWidth font (nat (u32 off))
                 \<le> rectX (loc st) + rectWidth (loc st)"
  shows "\<exists>cw. selectionXY font d (st\<lparr>strMouseLoc := off\<rparr>) =
           Inr (x0 + glyphWidths font (take c (lines ! k)),
                y0 + 1 + int k * getFontHeight font,
                cw, getFontHeight font, off)"
proof -
  have ch: "u16 (getFontHeight font) = getFontHeight font"
    using h by (simp add: u16_def)
  have lo0: "0 \<le> lineOffset lines k"
    using lineOffset_ge [of k lines] k by simp
  have fl: "\<And>py. findLineXY lines off 0 py (getFontHeight font)
                = (lineOffset lines k, py + int k * getFontHeight font)"
    using findLineXY_line [of k lines 0 off _ "getFontHeight font"]
          k c off(1) lineOffset_next [OF k]
    by simp
  have sub: "substr (str d) (lineOffset lines k) (off - lineOffset lines k)
               = take c (lines ! k)"
  proof -
    have "substr (str d) (lineOffset lines k) (off - lineOffset lines k)
            = take c (drop (nat (lineOffset lines k)) (str d))"
      using lo0 off(1) by (simp add: substr_take)
    also have "\<dots> = take c (take (length (lines ! k))
                                (drop (nat (lineOffset lines k)) (str d)))"
      using c by (simp add: min_absorb1)
    finally show ?thesis by (simp only: content)
  qed
  have guard: "\<not> rectX (loc st) + rectWidth (loc st)
                  < x0 + glyphWidths font (take c (lines ! k))
                    + getCharWidth font (nat (u32 off))"
    using fits by simp
  show ?thesis
  proof (cases "hasFlag d kDlgFlagLeftJust")
    case False
    have x0: "x0 = rectX (loc st)" and y0: "y0 = rectY (loc st)"
      using org plain_origin [OF False, of font st] by simp_all
    show ?thesis
      using False off(2,3) guard
      by (simp add: selectionXY_def Let_def ww ch fl sub sw x0 y0)
  next
    case True
    with lj have ins: "blockInside font d st" by simp
    note bo = block_origin [OF ww True ins h(1)]
    have x0: "rectX (loc st) + cdiv (rectWidth (loc st) - maxWidth - 1) 2 = x0"
      and y0: "rectY (loc st)
                + (rectHeight (loc st) - int (length lines) * getFontHeight font - 1) div 2
               = y0"
      using org bo(1) by simp_all
    have st': "loc (st\<lparr>strMouseLoc := off\<rparr>) = loc st" by simp
    show ?thesis
      using True off(2,3) guard
      by (simp add: selectionXY_def Let_def ww ch fl sub sw bo(2) x0 y0)
  qed
qed

lemma scanChars_left:
  assumes "\<forall>ch. 0 < getCharWidth font ch" and "line \<noteq> []" and "mouseX \<le> px"
  shows "scanChars font mouseX line c0 px = Some c0"
proof -
  from assms(2) obtain ch rest where l: "line = ch # rest" by (cases line) auto
  have "0 < getCharWidth font (chr32 ch)" using assms(1) by simp
  with assms(3) have "mouseX \<le> px + getCharWidth font (chr32 ch)" by linarith
  then show ?thesis by (simp add: l Let_def)
qed

lemma locatedLine_top: "my \<le> y0 + h \<Longrightarrow> locatedLine y0 h my n = 0"
  by (cases n) (simp_all add: locatedLine_def upt_conv_Cons del: upt_Suc)

lemma selectionTxtOffset_position:
  assumes h: "0 < getFontHeight font"
      and pos: "\<forall>ch. 0 < getCharWidth font ch"
      and ww: "wordWrapText font (str d) (rectWidth (loc st)) = (lines, maxWidth)"
      and org: "textOrigin font d st = (x0, y0)"
      and k: "k < length lines"
      and c: "c \<le> length (lines ! k)" and ne: "lines ! k \<noteq> []"
      and mx: "lastMouseX st = x0 + glyphWidths font (take c (lines ! k))"
      and my: "lastMouseY st = y0 + 1 + int k * getFontHeight font"
  shows "selectionTxtOffset font d st
           = lineOffset lines k + (if c = 0 then 0 else int c - 1)"
proof -
  have L: "locatedLine y0 (getFontHeight font) (lastMouseY st) (length lines) = k"
    unfolding my using h k by (intro locatedLine_at) simp_all
  have tot: "(if k = 0 then 0 else wrappedLineOffsets (str d) lines ! k) = lineOffset lines k"
    using k by (simp add: wrappedLineOffsets_nth lineOffset_def)
  have dr: "drop k lines = lines ! k # drop (Suc k) lines"
    using k by (simp add: Cons_nth_drop_Suc)
  have sc: "scanChars font (lastMouseX st) (lines ! k) 0 x0
              = Some (if c = 0 then 0 else c - 1)"
  proof (cases "c = 0")
    case True
    then show ?thesis
      using scanChars_first [OF pos ne, of x0 0]
      by (simp add: mx glyphWidths_def)
  next
    case False
    then show ?thesis
      using scanChars_hit [OF pos, of c "lines ! k" x0 0] c
      by (simp add: mx)
  qed
  have "selectionTxtOffset font d st
          = lineOffset lines k + int (if c = 0 then 0 else c - 1)"
    by (simp add: selectionTxtOffset_scan [OF ww] org L tot dr sc Let_def)
  then show ?thesis by (cases "c = 0") (simp_all add: of_nat_diff)
qed

text \<open>
  The position of offset 0 is the corner of the text area, which is not right of or
  below the corner of the text block: it resolves to the first glyph of the first line.
\<close>

lemma selectionTxtOffset_corner:
  assumes h: "0 < getFontHeight font"
      and pos: "\<forall>ch. 0 < getCharWidth font ch"
      and ww: "wordWrapText font (str d) (rectWidth (loc st)) = (lines, maxWidth)"
      and org: "textOrigin font d st = (x0, y0)"
      and k: "0 < length lines" and ne: "lines ! 0 \<noteq> []"
      and mx: "lastMouseX st \<le> x0"
      and my: "lastMouseY st \<le> y0 + 1"
  shows "selectionTxtOffset font d st = 0"
proof -
  have "lastMouseY st \<le> y0 + getFontHeight font" using my h by linarith
  then have L: "locatedLine y0 (getFontHeight font) (lastMouseY st) (length lines) = 0"
    by (rule locatedLine_top)
  have dr: "drop 0 lines = lines ! 0 # drop (Suc 0) lines"
    using k by (simp add: Cons_nth_drop_Suc)
  have sc: "scanChars font (lastMouseX st) (lines ! 0) 0 x0 = Some 0"
    by (rule scanChars_left [OF pos ne mx])
  show ?thesis
    by (simp only: selectionTxtOffset_scan [OF ww] org L fst_conv snd_conv Let_def dr
                   scanLines.simps sc option.case if_True of_nat_0 add_0_right refl)
qed

text \<open>
  C1, amended. Take a drawn dialog, left-justified or not, a font with positive glyph
  widths whose height fits 16 bits and whose string width is the sum of its glyph
  widths, and a wrap of the display string in which line \<open>k\<close> is non-empty and holds
  the characters of the string from \<open>lineOffset lines k\<close> on (every earlier line
  accounting for its length plus one break character); if the dialog is
  left-justified, let the wrapped block lie inside the text area (no wider, less tall).
  Let \<open>off\<close> be a valid offset on that line, at column \<open>c\<close> (\<open>c = length\<close> is the elided
  break character), whose glyph does not stick out of the text area: neither the glyph
  of the character at \<open>off\<close> nor the glyph numbered \<open>off\<close>, the one whose width
  \<open>drawFindSelectionXY\<close> tests. Then resolving \<open>off\<close> to a screen position and that
  position back to an offset yields \<open>off\<close> itself exactly when \<open>off\<close> starts its line
  (offset 0 included); for every other column, the break character included, it
  yields \<open>off - 1\<close>: the position of \<open>off\<close> is the right edge of the glyph before it,
  and the hit test returns the first glyph whose right edge reaches the position.
\<close>

theorem layout_round_trip:
  assumes st: "state d = Some st"
      and h: "0 < getFontHeight (getDlgTextFont env d)"
             "getFontHeight (getDlgTextFont env d) < 65536"
      and sw: "\<forall>s. getStringWidth (getDlgTextFont env d) s
                     = glyphWidths (getDlgTextFont env d) s"
      and pos: "\<forall>ch. 0 < getCharWidth (getDlgTextFont env d) ch"
      and ww: "wordWrapText (getDlgTextFont env d) (str d) (rectWidth (loc st))
                 = (lines, maxWidth)"
      and lj: "hasFlag d kDlgFlagLeftJust \<longrightarrow> blockInside (getDlgTextFont env d) d st"
      and k: "k < length lines"
      and content: "take (length (lines ! k)) (drop (nat (lineOffset lines k)) (str d))
                      = lines ! k"
      and c: "c \<le> length (lines ! k)" and ne: "lines ! k \<noteq> []"
      and off: "off = lineOffset lines k + int c" "off < int (length (str d))"
      and fitsC: "fst (textOrigin (getDlgTextFont env d) d st)
                   + glyphWidths (getDlgTextFont env d) (take c (lines ! k))
                   + getCharWidth (getDlgTextFont env d) (chr32 (str d ! nat off))
                 \<le> rectX (loc st) + rectWidth (loc st)"
      and fitsO: "fst (textOrigin (getDlgTextFont env d) d st)
                   + glyphWidths (getDlgTextFont env d) (take c (lines ! k))
                   + getCharWidth (getDlgTextFont env d) (nat (u32 off))
                 \<le> rectX (loc st) + rectWidth (loc st)"
  shows "roundTrip env d off = Inr (Some (if c = 0 then off else off - 1))"
proof -
  let ?font = "getDlgTextFont env d"
  let ?st1 = "st\<lparr>strMouseLoc := off\<rparr>"
  let ?d1 = "d\<lparr>state := Some ?st1\<rparr>"
  obtain x0 y0 where org: "textOrigin ?font d st = (x0, y0)" by (cases "textOrigin ?font d st")
  have w: "withOffset off d = ?d1" using st by (simp add: withOffset_def)
  have f1: "getDlgTextFont env ?d1 = ?font" by (simp add: getDlgTextFont_def)
  have lo0: "0 \<le> lineOffset lines k"
    using lineOffset_ge [of k lines] k by simp
  have above: "rectX (loc st) \<le> x0 \<and> rectY (loc st) \<le> y0"
  proof (cases "hasFlag d kDlgFlagLeftJust")
    case False
    from plain_origin [OF False, of ?font st] org show ?thesis by simp
  next
    case True
    with lj have ins: "blockInside ?font d st" by simp
    from block_origin [OF ww True ins h(1)] org show ?thesis by auto
  qed
  have xy: "\<exists>cw mx my. selectionXY ?font ?d1 ?st1 = Inr (mx, my, cw, getFontHeight ?font, off)
              \<and> (if off = 0 then mx \<le> x0 \<and> my \<le> y0 + 1
                  else mx = x0 + glyphWidths ?font (take c (lines ! k))
                       \<and> my = y0 + 1 + int k * getFontHeight ?font)"
  proof (cases "off = 0")
    case True
    have h0: "0 \<le> getFontHeight ?font" using h(1) by simp
    from selectionXY_zero [OF h0 h(2), of ?d1 st]
    obtain cw where "selectionXY ?font ?d1 (st\<lparr>strMouseLoc := 0\<rparr>)
           = Inr (rectX (loc st), rectY (loc st) + 1, cw, getFontHeight ?font, 0)" by blast
    with True above show ?thesis by auto
  next
    case False
    have ww1: "wordWrapText ?font (str ?d1) (rectWidth (loc st)) = (lines, maxWidth)"
      using ww by simp
    have lj1: "hasFlag ?d1 kDlgFlagLeftJust \<longrightarrow> blockInside ?font ?d1 st"
      using lj by (simp add: hasFlag_def blockInside_def split_beta)
    have org1: "textOrigin ?font ?d1 st = (x0, y0)"
      using org textOrigin_eq [of ?d1 d st st ?font] by simp
    have content1: "take (length (lines ! k)) (drop (nat (lineOffset lines k)) (str ?d1))
                      = lines ! k"
      using content by simp
    have off1: "off < int (length (str ?d1))" using off(2) by simp
    have fits1: "x0 + glyphWidths ?font (take c (lines ! k))
                   + getCharWidth ?font (nat (u32 off))
                 \<le> rectX (loc st) + rectWidth (loc st)"
      using fitsO org by simp
    from selectionXY_position [OF h sw ww1 lj1 org1 k content1 c off(1) off1 False fits1]
    show ?thesis using False by auto
  qed
  then obtain cw mx my where xy1:
      "selectionXY ?font ?d1 ?st1 = Inr (mx, my, cw, getFontHeight ?font, off)"
    and at: "if off = 0 then mx \<le> x0 \<and> my \<le> y0 + 1
             else mx = x0 + glyphWidths ?font (take c (lines ! k))
                  \<and> my = y0 + 1 + int k * getFontHeight ?font"
    by blast
  let ?st2 = "?st1\<lparr>lastMouseX := mx, lastMouseY := my,
                    charWidth := cw, charHeight := getFontHeight ?font, strMouseLoc := off\<rparr>"
  let ?d2 = "?d1\<lparr>state := Some ?st2\<rparr>"
  have dxy: "drawFindSelectionXY env ?d1 = Inr ?d2"
    by (simp add: drawFindSelectionXY_def f1 xy1 bindE_def)
  have f2: "getDlgTextFont env ?d2 = ?font" by (simp add: getDlgTextFont_def)
  have ww2: "wordWrapText ?font (str ?d2) (rectWidth (loc ?st2)) = (lines, maxWidth)"
    using ww by simp
  have org2: "textOrigin ?font ?d2 ?st2 = (x0, y0)"
    using org textOrigin_eq [of ?d2 d ?st2 st ?font] by simp
  have tx: "selectionTxtOffset ?font ?d2 ?st2
               = lineOffset lines k + (if c = 0 then 0 else int c - 1)"
  proof (cases "off = 0")
    case True
    with off(1) lo0 have l0: "lineOffset lines k = 0" and c0: "c = 0" by simp_all
    with lineOffset_ge [of k lines] k have k0: "k = 0" by simp
    have kk: "0 < length lines" using k by (cases lines) simp_all
    have ne0: "lines ! 0 \<noteq> []" using ne k0 by simp
    have mx2: "lastMouseX ?st2 \<le> x0" using at True by simp
    have my2: "lastMouseY ?st2 \<le> y0 + 1" using at True by simp
    from selectionTxtOffset_corner [OF h(1) pos ww2 org2 kk ne0 mx2 my2]
    show ?thesis by (simp add: l0 c0)
  next
    case False
    have mx2: "lastMouseX ?st2 = x0 + glyphWidths ?font (take c (lines ! k))"
      using at False by simp
    have my2: "lastMouseY ?st2 = y0 + 1 + int k * getFontHeight ?font"
      using at False by simp
    from selectionTxtOffset_position [OF h(1) pos ww2 org2 k c ne mx2 my2]
    show ?thesis .
  qed
  have res: "map_option strMouseLoc (state (drawFindSelectionTxtOffset env ?d2))
               = Some (lineOffset lines k + (if c = 0 then 0 else int c - 1))"
  proof -
    have sd2: "state ?d2 = Some ?st2" by simp
    show ?thesis
      unfolding drawFindSelectionTxtOffset_def sd2 option.case f2 tx by simp
  qed
  have "roundTrip env d off = Inr (Some (lineOffset lines k + (if c = 0 then 0 else int c - 1)))"
    by (simp only: roundTrip_def w dxy bindE_def sum.case res)
  then show ?thesis using off(1) by (cases "c = 0") simp_all
qed

text \<open>
  C1, as stated, fails away from line-wrap boundaries: in the scenario dialog, offset
  1 (the \<open>i\<close> of \<open>Pick\<close>, not a break character) resolves to a position that resolves
  back to offset 0. And when a left-justified block is taller than its text area (three
  lines of height 8 in an area of height 24, which leaves no spare pixel), the two
  routines centre the block differently: offset 18, the first character of the second
  line, comes back as offset 0. When a left-justified block is wider than its text
  area (the word \<open>direction.\<close>, 80 pixels, in an area of width 40), the block starts
  left of the area, while offset 0 is placed at the area's corner: offset 0 comes back
  as offset 2.
\<close>

theorem layout_round_trip_counterexample:
  "roundTrip (fixedEnv (0, 0)) drawnDirectionDialog 1 = Inr (Some 0)
   \<and> str drawnDirectionDialog ! 1 = CHR ''i''
   \<and> roundTrip (fixedEnv (0, 0)) (leftJustDialog 294 24) 18 = Inr (Some 0)
   \<and> str (leftJustDialog 294 24) ! 18 = CHR ''G''
   \<and> roundTrip (fixedEnv (0, 0)) (leftJustDialog 40 94) 0 = Inr (Some 2)"
  by code_simp


lemma glyphWidths_fixedFont: "glyphWidths (fixedFont w h) s = w * int (length s)"
  by (induction s) (simp_all add: glyphWidths_def fixedFont_def algebra_simps)

lemma direction_font:
  "getDlgTextFont (fixedEnv m) drawnDirectionDialog = fixedFont 8 8"
  "getDlgTextFont (fixedEnv m) (leftJustDialog w hgt) = fixedFont 8 8"
  by (simp_all add: getDlgTextFont_def fixedEnv_def drawnDirectionDialog_def
        leftJustDialog_def directionDialog_def)

lemma direction_wrap:
  "wordWrapText (fixedFont 8 8) (str directionDialog) 294
     = ([''Pick a direction.'', ''Go north'', ''Go south''], 136)"
  by code_simp

lemma fixedFont_facts:
  "0 < getFontHeight (fixedFont 8 8)" "getFontHeight (fixedFont 8 8) < 65536"
  "\<forall>s. getStringWidth (fixedFont 8 8) s = glyphWidths (fixedFont 8 8) s"
  "\<forall>ch. 0 < getCharWidth (fixedFont 8 8) ch"
  by (simp_all add: glyphWidths_fixedFont) (simp_all add: fixedFont_def)

lemma leftJust_origin:
  "textOrigin (fixedFont 8 8) (leftJustDialog 294 94) (newDialogState\<lparr>loc := mkRect 13 13 294 94\<rparr>)
     = (91, 47)"
  "textOrigin (fixedFont 8 8) drawnDirectionDialog (newDialogState\<lparr>loc := mkRect 13 13 294 94\<rparr>)
     = (13, 13)"
  by code_simp+

text \<open>
  The amended C1 with the 8 by 8 font. On the left-justified scenario dialog, whose
  three lines of height 8 lie inside the text area of height 94: offset 20, the third
  character of the second line, comes back as 19, and offset 0 as itself. On the
  centred scenario dialog: offset 18, the start of the second line, comes back as
  itself.
\<close>

theorem layout_round_trip_witness:
  "state (leftJustDialog 294 94) = Some (newDialogState\<lparr>loc := mkRect 13 13 294 94\<rparr>)
   \<and> hasFlag (leftJustDialog 294 94) kDlgFlagLeftJust
   \<and> blockInside (fixedFont 8 8) (leftJustDialog 294 94)
        (newDialogState\<lparr>loc := mkRect 13 13 294 94\<rparr>)
   \<and> wordWrapText (getDlgTextFont (fixedEnv (0, 0)) (leftJustDialog 294 94))
         (str (leftJustDialog 294 94)) 294
       = ([''Pick a direction.'', ''Go north'', ''Go south''], 136)
   \<and> roundTrip (fixedEnv (0, 0)) (leftJustDialog 294 94) 20 = Inr (Some 19)
   \<and> roundTrip (fixedEnv (0, 0)) (leftJustDialog 294 94) 0 = Inr (Some 0)
   \<and> \<not> hasFlag drawnDirectionDialog kDlgFlagLeftJust
   \<and> roundTrip (fixedEnv (0, 0)) drawnDirectionDialog 18 = Inr (Some 18)"
proof -
  let ?env = "fixedEnv (0, 0)"
  let ?D = drawnDirectionDialog
  let ?J = "leftJustDialog 294 94"
  let ?st = "newDialogState\<lparr>loc := mkRect 13 13 294 94\<rparr>"
  let ?lines = "[''Pick a direction.'', ''Go north'', ''Go south'']"
  let ?f = "fixedFont 8 8"
  have strJ: "str ?J = str directionDialog" by (simp add: leftJustDialog_def)
  have strD: "str ?D = str directionDialog" by (simp add: drawnDirectionDialog_def)
  have len: "int (length (str directionDialog)) = 35" by (simp add: directionDialog_def)
  have lo1: "lineOffset ?lines 1 = 18" by (simp add: lineOffset_def)
  have lo0: "lineOffset ?lines 0 = 0" by (simp add: lineOffset_def)
  have k1: "1 < length ?lines" by simp
  have k0: "0 < length ?lines" by simp
  have ne1: "?lines ! 1 \<noteq> []" by simp
  have ne0: "?lines ! 0 \<noteq> []" by simp
  have c2: "2 \<le> length (?lines ! 1)" by simp
  have c01: "0 \<le> length (?lines ! 1)" by simp
  have c00: "0 \<le> length (?lines ! 0)" by simp
  have off20: "20 = lineOffset ?lines 1 + int 2" unfolding lo1 by simp
  have off18: "18 = lineOffset ?lines 1 + int 0" unfolding lo1 by simp
  have off0: "0 = lineOffset ?lines 0 + int 0" unfolding lo0 by simp
  have cont1: "take (length (?lines ! 1)) (drop (nat (lineOffset ?lines 1)) (str directionDialog))
                 = ?lines ! 1"
    unfolding lo1 by (simp add: directionDialog_def)
  have cont0: "take (length (?lines ! 0)) (drop (nat (lineOffset ?lines 0)) (str directionDialog))
                 = ?lines ! 0"
    unfolding lo0 by (simp add: directionDialog_def)
  have gw: "\<And>s. glyphWidths ?f s = 8 * int (length s)" by (rule glyphWidths_fixedFont)
  have cw: "\<And>n. getCharWidth ?f n = 8" by (simp add: fixedFont_def)

  have stJ: "state ?J = Some ?st" by (simp add: leftJustDialog_def)
  have ljJ: "hasFlag ?J kDlgFlagLeftJust" by (simp add: hasFlag_def leftJustDialog_def)
  have wwJ: "wordWrapText (getDlgTextFont ?env ?J) (str ?J) (rectWidth (loc ?st))
               = (?lines, 136)"
    by (simp add: direction_font strJ mkRect_def direction_wrap)
  have insJ: "blockInside ?f ?J ?st"
    using wwJ by (simp add: blockInside_def direction_font mkRect_def fitsInt_def fixedFont_def)
  have insJ': "hasFlag ?J kDlgFlagLeftJust \<longrightarrow> blockInside (getDlgTextFont ?env ?J) ?J ?st"
    using insJ by (simp add: direction_font)
  have hJ: "0 < getFontHeight (getDlgTextFont ?env ?J)"
           "getFontHeight (getDlgTextFont ?env ?J) < 65536"
    by (simp_all add: direction_font fixedFont_facts)
  have swJ: "\<forall>s. getStringWidth (getDlgTextFont ?env ?J) s
                   = glyphWidths (getDlgTextFont ?env ?J) s"
    by (simp add: direction_font fixedFont_facts)
  have posJ: "\<forall>ch. 0 < getCharWidth (getDlgTextFont ?env ?J) ch"
    by (simp add: direction_font fixedFont_facts)
  have cont1J: "take (length (?lines ! 1)) (drop (nat (lineOffset ?lines 1)) (str ?J))
                 = ?lines ! 1"
    unfolding strJ by (rule cont1)
  have cont0J: "take (length (?lines ! 0)) (drop (nat (lineOffset ?lines 0)) (str ?J))
                 = ?lines ! 0"
    unfolding strJ by (rule cont0)
  have lt20J: "20 < int (length (str ?J))" unfolding strJ len by simp
  have lt0J: "0 < int (length (str ?J))" unfolding strJ len by simp
  have fitsC20: "fst (textOrigin (getDlgTextFont ?env ?J) ?J ?st)
                   + glyphWidths (getDlgTextFont ?env ?J) (take 2 (?lines ! 1))
                   + getCharWidth (getDlgTextFont ?env ?J) (chr32 (str ?J ! nat 20))
                 \<le> rectX (loc ?st) + rectWidth (loc ?st)"
    by (simp add: direction_font leftJust_origin gw cw) (simp add: mkRect_def)
  have fitsO20: "fst (textOrigin (getDlgTextFont ?env ?J) ?J ?st)
                   + glyphWidths (getDlgTextFont ?env ?J) (take 2 (?lines ! 1))
                   + getCharWidth (getDlgTextFont ?env ?J) (nat (u32 20))
                 \<le> rectX (loc ?st) + rectWidth (loc ?st)"
    by (simp add: direction_font leftJust_origin gw cw) (simp add: mkRect_def)
  have fitsC0: "fst (textOrigin (getDlgTextFont ?env ?J) ?J ?st)
                   + glyphWidths (getDlgTextFont ?env ?J) (take 0 (?lines ! 0))
                   + getCharWidth (getDlgTextFont ?env ?J) (chr32 (str ?J ! nat 0))
                 \<le> rectX (loc ?st) + rectWidth (loc ?st)"
    by (simp add: direction_font leftJust_origin gw cw) (simp add: mkRect_def)
  have fitsO0: "fst (textOrigin (getDlgTextFont ?env ?J) ?J ?st)
                   + glyphWidths (getDlgTextFont ?env ?J) (take 0 (?lines ! 0))
                   + getCharWidth (getDlgTextFont ?env ?J) (nat (u32 0))
                 \<le> rectX (loc ?st) + rectWidth (loc ?st)"
    by (simp add: direction_font leftJust_origin gw cw) (simp add: mkRect_def)
  have r20: "roundTrip ?env ?J 20 = Inr (Some 19)"
    using layout_round_trip [OF stJ hJ swJ posJ wwJ insJ' k1 cont1J c2 ne1 off20 lt20J
            fitsC20 fitsO20]
    by simp
  have r0: "roundTrip ?env ?J 0 = Inr (Some 0)"
    using layout_round_trip [OF stJ hJ swJ posJ wwJ insJ' k0 cont0J c00 ne0 off0 lt0J
            fitsC0 fitsO0]
    by simp

  have stD: "state ?D = Some ?st" by (rule drawnDirectionDialog_facts(1))
  have noljD: "\<not> hasFlag ?D kDlgFlagLeftJust"
    by (simp add: hasFlag_def drawnDirectionDialog_def directionDialog_def)
  have insD: "hasFlag ?D kDlgFlagLeftJust \<longrightarrow> blockInside (getDlgTextFont ?env ?D) ?D ?st"
    using noljD by simp
  have wwD: "wordWrapText (getDlgTextFont ?env ?D) (str ?D) (rectWidth (loc ?st))
               = (?lines, 136)"
    by (simp add: direction_font strD mkRect_def direction_wrap)
  have hD: "0 < getFontHeight (getDlgTextFont ?env ?D)"
           "getFontHeight (getDlgTextFont ?env ?D) < 65536"
    by (simp_all add: direction_font fixedFont_facts)
  have swD: "\<forall>s. getStringWidth (getDlgTextFont ?env ?D) s
                   = glyphWidths (getDlgTextFont ?env ?D) s"
    by (simp add: direction_font fixedFont_facts)
  have posD: "\<forall>ch. 0 < getCharWidth (getDlgTextFont ?env ?D) ch"
    by (simp add: direction_font fixedFont_facts)
  have cont1D: "take (length (?lines ! 1)) (drop (nat (lineOffset ?lines 1)) (str ?D))
                 = ?lines ! 1"
    unfolding strD by (rule cont1)
  have lt18D: "18 < int (length (str ?D))" unfolding strD len by simp
  have fitsC18: "fst (textOrigin (getDlgTextFont ?env ?D) ?D ?st)
                   + glyphWidths (getDlgTextFont ?env ?D) (take 0 (?lines ! 1))
                   + getCharWidth (getDlgTextFont ?env ?D) (chr32 (str ?D ! nat 18))
                 \<le> rectX (loc ?st) + rectWidth (loc ?st)"
    by (simp add: direction_font leftJust_origin gw cw) (simp add: mkRect_def)
  have fitsO18: "fst (textOrigin (getDlgTextFont ?env ?D) ?D ?st)
                   + glyphWidths (getDlgTextFont ?env ?D) (take 0 (?lines ! 1))
                   + getCharWidth (getDlgTextFont ?env ?D) (nat (u32 18))
                 \<le> rectX (loc ?st) + rectWidth (loc ?st)"
    by (simp add: direction_font leftJust_origin gw cw) (simp add: mkRect_def)
  have r18: "roundTrip ?env ?D 18 = Inr (Some 18)"
    using layout_round_trip [OF stD hD swD posD wwD insD k1 cont1D c01 ne1 off18 lt18D
            fitsC18 fitsO18]
    by simp
  have wwJ': "wordWrapText (getDlgTextFont ?env ?J) (str ?J) 294 = (?lines, 136)"
    using wwJ by (simp add: mkRect_def)
  from stJ ljJ insJ wwJ' r20 r0 noljD r18 show ?thesis by (intro conjI)
qed

section \<open>Rejected scene changes\<close>










section \<open>The order of a save or load\<close>

lemma syncSteps_simps:
  "syncSteps [] = []"
  "syncSteps (Sync st # evs) = st # syncSteps evs"
  "syncSteps (HideMenu # evs) = syncSteps evs"
  "syncSteps (UnloadMusic # evs) = syncSteps evs"
  "syncSteps (StopAllSfx # evs) = syncSteps evs"
  "syncSteps (AdsUnload # evs) = syncSteps evs"
  "syncSteps (AddInvButtonToHotAreaList # evs) = syncSteps evs"
  "syncSteps (PaletteReset # evs) = syncSteps evs"
  "syncSteps (DrawScreen f # evs) = syncSteps evs"
  "syncSteps (ClearStoredAreaBuffer # evs) = syncSteps evs"
  "syncSteps (RunEnterSceneOps # evs) = syncSteps evs"
  by (simp_all add: syncSteps_def List.map_filter_simps)

lemmas sync_defs = syncGame_def andThen_def subsystemSync_def syncSceneNum_def
  inventorySyncState_def syncPalette_def syncScalars_def

lemmas order_defs = firstError_def stepsUntilError_def syncOrder_def reportsError_def

lemmas trace_defs = newEvents_def emit_def syncSteps_simps

text \<open>
  C3. Let the version be one that \<open>syncGame\<close> accepts and, for a load, let the scene file
  of the saved scene number exist, so that the run is not ended. Then \<open>syncGame\<close> comes
  back, and the values and subsystems that went through the serializer are, in this
  order, the scene directory, the scene number, the scene state, the globals, the
  clock, the inventory, the palette only for a version below 4, the script-overlay
  interpreter, the text speed, the two just-changed-scene flags, the play time and the
  background file name, cut after the first subsystem whose \<open>syncState\<close> reports an
  error. The code returned is the code of that subsystem, and \<open>kNoError\<close> when there is
  none. The scene's enter ops are run as the last call when no subsystem reports an
  error, and not at all otherwise.
\<close>

theorem syncGame_order:
  assumes v: "fst (syncVersion 4 s)"
    and r: "isLoading s \<longrightarrow> hasResource e (sdsName (u16 (savedSceneNum saved)))"
  shows "\<exists>e'. syncGame X s saved e = Inr (firstError X (syncOrder (snd (syncVersion 4 s))), e')
           \<and> syncSteps (newEvents e e') = stepsUntilError X (syncOrder (snd (syncVersion 4 s)))
           \<and> (if firstError X (syncOrder (snd (syncVersion 4 s))) = kNoError
                then last (newEvents e e') = RunEnterSceneOps
                else RunEnterSceneOps \<notin> set (newEvents e e'))"
proof (cases "syncResult X SyncGdsScene = kNoError")
  case False
  with v show ?thesis
    by (cases "snd (syncVersion 4 s) < 4")
       (simp_all add: sync_defs Let_def split_beta order_defs trace_defs)
next
  case gds: True
  show ?thesis
  proof (cases "syncResult X SyncScene = kNoError")
    case False
    with v r gds show ?thesis
      by (cases "isLoading s"; cases "snd (syncVersion 4 s) < 4")
         (simp_all add: sync_defs Let_def split_beta order_defs trace_defs)
  next
    case sc: True
    show ?thesis
    proof (cases "syncResult X SyncGlobals = kNoError")
      case False
      with v r gds sc show ?thesis
        by (cases "isLoading s"; cases "snd (syncVersion 4 s) < 4")
           (simp_all add: sync_defs Let_def split_beta order_defs trace_defs)
    next
      case gl: True
      show ?thesis
      proof (cases "syncResult X SyncClock = kNoError")
        case False
        with v r gds sc gl show ?thesis
          by (cases "isLoading s"; cases "snd (syncVersion 4 s) < 4")
             (simp_all add: sync_defs Let_def split_beta order_defs trace_defs)
      next
        case cl: True
        show ?thesis
        proof (cases "snd (syncVersion 4 s) < 4 \<and> syncResult X SyncPalette \<noteq> kNoError")
          case True
          with v r gds sc gl cl show ?thesis
            by (cases "isLoading s")
               (simp_all add: sync_defs Let_def split_beta order_defs trace_defs)
        next
          case pal: False
          show ?thesis
          proof (cases "syncResult X SyncAds = kNoError")
            case False
            with v r gds sc gl cl pal show ?thesis
              by (cases "isLoading s"; cases "snd (syncVersion 4 s) < 4")
                 (simp_all add: sync_defs Let_def split_beta order_defs trace_defs)
          next
            case ads: True
            with v r gds sc gl cl pal show ?thesis
              by (cases "isLoading s"; cases "snd (syncVersion 4 s) < 4")
                 (simp_all add: sync_defs Let_def split_beta order_defs trace_defs)
          qed
        qed
      qed
    qed
  qed
qed


lemma sample_resource:
  "hasResource sampleEngine (sdsName (u16 (savedSceneNum sampleSave)))"
  by code_simp

text \<open>
  C3 on a version 3 stream loaded into the engine in scene 3, with a clock whose
  \<open>syncState\<close> reports error 7: the load returns that code after the scene directory, the
  scene number, the scene state, the globals and the clock, and nothing after them.
  With subsystems that all succeed, all thirteen steps are made, the palette among
  them. A save with these subsystems writes version 4: the twelve steps without the
  palette.
\<close>

theorem syncGame_order_witness:
  "fst (syncVersion 4 (loading 3))
   \<and> hasResource sampleEngine (sdsName (u16 (savedSceneNum sampleSave)))
   \<and> syncCode (syncGame (sampleSubsystems clockFails) (loading 3) sampleSave sampleEngine)
       = Some (kOtherError 7)
   \<and> map_option syncSteps
        (syncLog sampleEngine
           (syncGame (sampleSubsystems clockFails) (loading 3) sampleSave sampleEngine))
       = Some [SyncGdsScene, SyncSceneNum, SyncScene, SyncGlobals, SyncClock]
   \<and> syncCode (syncGame (sampleSubsystems allSucceed) (loading 3) sampleSave sampleEngine)
       = Some kNoError
   \<and> map_option syncSteps
        (syncLog sampleEngine
           (syncGame (sampleSubsystems allSucceed) (loading 3) sampleSave sampleEngine))
       = Some [SyncGdsScene, SyncSceneNum, SyncScene, SyncGlobals, SyncClock, SyncInventory,
               SyncPalette, SyncAds, SyncTextSpeed, SyncJustChangedScene1,
               SyncJustChangedScene2, SyncPlayTime, SyncBackgroundFile]
   \<and> fst (syncVersion 4 saving)
   \<and> syncCode (syncGame (sampleSubsystems allSucceed) saving sampleSave sampleEngine)
       = Some kNoError
   \<and> map_option syncSteps
        (syncLog sampleEngine
           (syncGame (sampleSubsystems allSucceed) saving sampleSave sampleEngine))
       = Some [SyncGdsScene, SyncSceneNum, SyncScene, SyncGlobals, SyncClock, SyncInventory,
               SyncAds, SyncTextSpeed, SyncJustChangedScene1,
               SyncJustChangedScene2, SyncPlayTime, SyncBackgroundFile]"
proof -
  have v: "fst (syncVersion 4 (loading 3))" by (simp add: syncVersion_def loading_def)
  have ver: "snd (syncVersion 4 (loading 3)) = 3" by (simp add: syncVersion_def loading_def)
  have r: "isLoading (loading 3)
             \<longrightarrow> hasResource sampleEngine (sdsName (u16 (savedSceneNum sampleSave)))"
    using sample_resource by simp
  have fe: "firstError (sampleSubsystems clockFails) (syncOrder 3) = kOtherError 7"
    by (simp add: order_defs sampleSubsystems_def clockFails_def)
  have su: "stepsUntilError (sampleSubsystems clockFails) (syncOrder 3)
              = [SyncGdsScene, SyncSceneNum, SyncScene, SyncGlobals, SyncClock]"
    by (simp add: order_defs sampleSubsystems_def clockFails_def)
  have fe': "firstError (sampleSubsystems allSucceed) (syncOrder 3) = kNoError"
    by (simp add: order_defs sampleSubsystems_def allSucceed_def)
  have su': "stepsUntilError (sampleSubsystems allSucceed) (syncOrder 3) = syncOrder 3"
    by (simp add: order_defs sampleSubsystems_def allSucceed_def)
  from syncGame_order [OF v r, of "sampleSubsystems clockFails"]
  obtain e1 where a:
    "syncGame (sampleSubsystems clockFails) (loading 3) sampleSave sampleEngine
       = Inr (kOtherError 7, e1)"
    "syncSteps (newEvents sampleEngine e1)
       = [SyncGdsScene, SyncSceneNum, SyncScene, SyncGlobals, SyncClock]"
    unfolding ver fe su by blast
  from syncGame_order [OF v r, of "sampleSubsystems allSucceed"]
  obtain e2 where b:
    "syncGame (sampleSubsystems allSucceed) (loading 3) sampleSave sampleEngine
       = Inr (kNoError, e2)"
    "syncSteps (newEvents sampleEngine e2) = syncOrder 3"
    unfolding ver fe' su' by blast
  have vs: "fst (syncVersion 4 saving)" by (simp add: syncVersion_def saving_def)
  have vers: "snd (syncVersion 4 saving) = 4" by (simp add: syncVersion_def saving_def)
  have rs: "isLoading saving
             \<longrightarrow> hasResource sampleEngine (sdsName (u16 (savedSceneNum sampleSave)))"
    by (simp add: saving_def)
  have fes: "firstError (sampleSubsystems allSucceed) (syncOrder 4) = kNoError"
    by (simp add: order_defs sampleSubsystems_def allSucceed_def)
  have sus: "stepsUntilError (sampleSubsystems allSucceed) (syncOrder 4) = syncOrder 4"
    by (simp add: order_defs sampleSubsystems_def allSucceed_def)
  from syncGame_order [OF vs rs, of "sampleSubsystems allSucceed"]
  obtain e3 where c:
    "syncGame (sampleSubsystems allSucceed) saving sampleSave sampleEngine
       = Inr (kNoError, e3)"
    "syncSteps (newEvents sampleEngine e3) = syncOrder 4"
    unfolding vers fes sus by blast
  from v sample_resource a b vs c show ?thesis
    by (simp add: syncCode_def syncLog_def syncOrder_def)
qed

section \<open>The format version of a saved game\<close>

text \<open>
  C4. Loading a stream whose version is above 4 ends the run. Loading a stream of a
  version up to 4 whose scene file exists, with a scene directory, scene, globals and
  clock that synchronise without error, comes back; below version 4 (so for version 3)
  the palette has gone through the serializer and has not been reset, and at version 4
  the palette has been reset and has not gone through the serializer.
\<close>

theorem syncGame_version_gate:
  "(isLoading s \<and> 4 < streamVersion s \<longrightarrow>
      syncGame X s saved e = Inl (ErrorCall ''Save game version too new''))
   \<and> (isLoading s \<and> streamVersion s \<le> 4
        \<and> hasResource e (sdsName (u16 (savedSceneNum saved)))
        \<and> syncResult X SyncGdsScene = kNoError \<and> syncResult X SyncScene = kNoError
        \<and> syncResult X SyncGlobals = kNoError \<and> syncResult X SyncClock = kNoError \<longrightarrow>
       (if streamVersion s < 4
        then paletteSynced (syncLog e (syncGame X s saved e))
             \<and> \<not> paletteWasReset (syncLog e (syncGame X s saved e))
        else paletteWasReset (syncLog e (syncGame X s saved e))
             \<and> \<not> paletteSynced (syncLog e (syncGame X s saved e))))"
proof (intro conjI impI)
  assume "isLoading s \<and> 4 < streamVersion s"
  then show "syncGame X s saved e = Inl (ErrorCall ''Save game version too new'')"
    by (simp add: syncGame_def syncVersion_def Let_def)
next
  assume a: "isLoading s \<and> streamVersion s \<le> 4
        \<and> hasResource e (sdsName (u16 (savedSceneNum saved)))
        \<and> syncResult X SyncGdsScene = kNoError \<and> syncResult X SyncScene = kNoError
        \<and> syncResult X SyncGlobals = kNoError \<and> syncResult X SyncClock = kNoError"
  show "if streamVersion s < 4
        then paletteSynced (syncLog e (syncGame X s saved e))
             \<and> \<not> paletteWasReset (syncLog e (syncGame X s saved e))
        else paletteWasReset (syncLog e (syncGame X s saved e))
             \<and> \<not> paletteSynced (syncLog e (syncGame X s saved e))"
  proof (cases "streamVersion s < 4")
    case True
    show ?thesis
    proof (cases "syncResult X SyncPalette = kNoError")
      case False
      with a True show ?thesis
        by (simp add: sync_defs syncVersion_def Let_def newEvents_def emit_def
              paletteSynced_def paletteWasReset_def syncLog_def)
    next
      case pal: True
      with a True show ?thesis
        by (cases "syncResult X SyncAds = kNoError")
           (simp_all add: sync_defs syncVersion_def Let_def newEvents_def emit_def
              paletteSynced_def paletteWasReset_def syncLog_def)
    qed
  next
    case False
    with a show ?thesis
      by (cases "syncResult X SyncAds = kNoError")
         (simp_all add: sync_defs syncVersion_def Let_def newEvents_def emit_def
            paletteSynced_def paletteWasReset_def syncLog_def)
  qed
qed

text \<open>
  C4 on the engine in scene 3 with subsystems that all succeed: a version 5 stream ends
  the run; a version 3 stream is loaded with the palette read from the stream and not
  reset; a version 4 stream is loaded with the palette reset and not read.
\<close>

theorem syncGame_version_gate_witness:
  "syncGame (sampleSubsystems allSucceed) (loading 5) sampleSave sampleEngine
     = Inl (ErrorCall ''Save game version too new'')
   \<and> paletteSynced (syncLog sampleEngine
        (syncGame (sampleSubsystems allSucceed) (loading 3) sampleSave sampleEngine))
   \<and> \<not> paletteWasReset (syncLog sampleEngine
        (syncGame (sampleSubsystems allSucceed) (loading 3) sampleSave sampleEngine))
   \<and> paletteWasReset (syncLog sampleEngine
        (syncGame (sampleSubsystems allSucceed) (loading 4) sampleSave sampleEngine))
   \<and> \<not> paletteSynced (syncLog sampleEngine
        (syncGame (sampleSubsystems allSucceed) (loading 4) sampleSave sampleEngine))"
proof -
  let ?X = "sampleSubsystems allSucceed"
  have ok: "syncResult ?X SyncGdsScene = kNoError" "syncResult ?X SyncScene = kNoError"
    "syncResult ?X SyncGlobals = kNoError" "syncResult ?X SyncClock = kNoError"
    by (simp_all add: sampleSubsystems_def allSucceed_def)
  have l: "isLoading (loading 5)" "isLoading (loading 3)" "isLoading (loading 4)"
    "streamVersion (loading 5) = 5" "streamVersion (loading 3) = 3"
    "streamVersion (loading 4) = 4"
    by (simp_all add: loading_def)
  from syncGame_version_gate [of "loading 5" ?X sampleSave sampleEngine] l
  have a: "syncGame ?X (loading 5) sampleSave sampleEngine
             = Inl (ErrorCall ''Save game version too new'')"
    by simp
  from syncGame_version_gate [of "loading 3" ?X sampleSave sampleEngine] l ok sample_resource
  have b: "paletteSynced (syncLog sampleEngine (syncGame ?X (loading 3) sampleSave sampleEngine))
           \<and> \<not> paletteWasReset
                 (syncLog sampleEngine (syncGame ?X (loading 3) sampleSave sampleEngine))"
    by simp
  from syncGame_version_gate [of "loading 4" ?X sampleSave sampleEngine] l ok sample_resource
  have c: "paletteWasReset (syncLog sampleEngine (syncGame ?X (loading 4) sampleSave sampleEngine))
           \<and> \<not> paletteSynced
                 (syncLog sampleEngine (syncGame ?X (loading 4) sampleSave sampleEngine))"
    by simp
  from a b c show ?thesis by simp
qed

end
